(* ===== verification/Prelude.thy ===== *)
theory Prelude
  imports Main "HOL-Library.Word"
begin

text \<open>
  Shared vocabulary of the development: the widths of the machine integers and
  identifiers the program uses, time stamps, network addresses, byte encodings,
  the error type, and the functions that come from outside the repository
  (formatting, case mapping, hashing), gathered in one record. The lemma
  collections declared here are filled by the component theories.
\<close>

section \<open>Collections\<close>

named_theorems auth_simps \<open>unfolding rules of the authentication state machine\<close>
named_theorems table_simps \<open>rules for database tables\<close>
named_theorems bytes_simps \<open>rules for byte encodings\<close>

section \<open>Basic types\<close>

type_synonym byte = "8 word"
type_synonym u16 = "16 word"
type_synonym u32 = "32 word"
type_synonym u64 = "64 word"
type_synonym i32 = "32 word"
type_synonym uuid = "128 word"

text \<open>
  A time stamp is a number of nanoseconds since the epoch (\<open>OffsetDateTime\<close> has
  nanosecond resolution); a duration is a number of nanoseconds as well. A Rust
  \<open>str\<close> is a \<open>string\<close> whose characters are the bytes of its UTF-8 encoding, so
  \<open>length\<close> is Rust's \<open>len()\<close>.
\<close>

type_synonym timestamp = int

definition seconds :: "int \<Rightarrow> int" where
  "seconds s = s * 1000000000"

lemma seconds_mono [simp]: "seconds a \<le> seconds b \<longleftrightarrow> a \<le> b"
  by (simp add: seconds_def)

lemma seconds_nonneg [simp]: "0 \<le> seconds a \<longleftrightarrow> 0 \<le> a"
  by (simp add: seconds_def zero_le_mult_iff)

lemma seconds_0 [simp]: "seconds 0 = 0"
  by (simp add: seconds_def)

section \<open>Errors\<close>

text \<open>
  The variants of \<open>WarpgateError\<close> that the modelled code raises itself.
\<close>

datatype warpgate_error =
    UserNotFound string
  | IpAddrNotAllowed string string
  | is_InvalidTicket: InvalidTicket uuid
  | InvalidTarget
  | SessionNotApproved
  | ValidatorFailed
  | InvalidCredentialType

type_synonym 'a result = "warpgate_error + 'a"

section \<open>Network addresses\<close>

datatype ip_addr = V4 "32 word" | V6 "128 word"

text \<open>
  \<open>Ipv6Addr::to_ipv4_mapped\<close>: the address has the form \<open>::ffff:a.b.c.d\<close>.
\<close>

definition to_ipv4_mapped :: "128 word \<Rightarrow> 32 word option" where
  "to_ipv4_mapped w = (if drop_bit 32 w = 65535 then Some (ucast w) else None)"

fun to_canonical :: "ip_addr \<Rightarrow> ip_addr" where
  "to_canonical (V4 w) = V4 w"
| "to_canonical (V6 w) = (case to_ipv4_mapped w of Some v \<Rightarrow> V4 v | None \<Rightarrow> V6 w)"

lemma to_canonical_idem [simp]: "to_canonical (to_canonical a) = to_canonical a"
  by (cases a) (auto split: option.splits)

section \<open>Functions from outside the repository\<close>

text \<open>
  \<^item> \<open>lower\<close>: Rust's Unicode \<open>str::to_lowercase\<close>; \<open>sql_lower\<close>: the database's
    \<open>LOWER\<close>. They are kept apart: the databases differ in what they map.
  \<^item> \<open>show_ip\<close>, \<open>parse_ip\<close>: textual form of an address, which is what the tables
    store.
  \<^item> \<open>sha256\<close>, \<open>hexlower\<close>: the digest and its hexadecimal rendering.
  \<^item> \<open>show_uuid\<close>: the textual form of an identifier, used in log lines only.
\<close>

record env =
  lower :: "string \<Rightarrow> string"
  sql_lower :: "string \<Rightarrow> string"
  show_ip :: "ip_addr \<Rightarrow> string"
  parse_ip :: "string \<Rightarrow> ip_addr option"
  sha256 :: "byte list \<Rightarrow> 256 word"
  hexlower :: "byte list \<Rightarrow> string"
  show_uuid :: "uuid \<Rightarrow> string"

text \<open>
  What the program relies on: the textual form of an address parses back to it
  (in particular it determines the address), and the two case mappings agree.
\<close>

definition ip_text_ok :: "env \<Rightarrow> bool" where
  "ip_text_ok E \<longleftrightarrow> (\<forall>a. parse_ip E (show_ip E a) = Some a)"

definition case_maps_agree :: "env \<Rightarrow> bool" where
  "case_maps_agree E \<longleftrightarrow> (\<forall>s. sql_lower E s = lower E s)"

lemma ip_text_okD: "ip_text_ok E \<Longrightarrow> parse_ip E (show_ip E a) = Some a"
  by (simp add: ip_text_ok_def)

lemma show_ip_inject:
  assumes "ip_text_ok E"
  shows "show_ip E a = show_ip E b \<longleftrightarrow> a = b"
proof
  assume "show_ip E a = show_ip E b"
  then have "parse_ip E (show_ip E a) = parse_ip E (show_ip E b)" by simp
  with assms show "a = b" by (simp add: ip_text_okD)
qed simp

section \<open>Byte encodings\<close>

text \<open>Little-endian and big-endian encodings of a number in a fixed number of bytes.\<close>

fun le_bytes :: "nat \<Rightarrow> nat \<Rightarrow> byte list" where
  "le_bytes 0 x = []"
| "le_bytes (Suc n) x = word_of_nat (x mod 256) # le_bytes n (x div 256)"

fun le_val :: "byte list \<Rightarrow> nat" where
  "le_val [] = 0"
| "le_val (b # bs) = unat b + 256 * le_val bs"

definition be_bytes :: "nat \<Rightarrow> nat \<Rightarrow> byte list" where
  "be_bytes n x = rev (le_bytes n x)"

lemma length_le_bytes [simp, bytes_simps]: "length (le_bytes n x) = n"
  by (induction n arbitrary: x) auto

lemma length_be_bytes [simp, bytes_simps]: "length (be_bytes n x) = n"
  by (simp add: be_bytes_def)

lemma unat_byte_mod [simp]: "unat (word_of_nat (x mod 256) :: byte) = x mod 256"
  by (simp add: unat_of_nat)

lemma le_val_le_bytes: "le_val (le_bytes n x) = x mod 256 ^ n"
proof (induction n arbitrary: x)
  case 0
  show ?case by simp
next
  case (Suc n)
  have "x mod 256 ^ Suc n = 256 * (x div 256 mod 256 ^ n) + x mod 256"
    using mod_mult2_eq [of x 256 "256 ^ n"] by simp
  with Suc show ?case by simp
qed

lemma unat_byte_bound [simp]: "unat (b :: byte) < 256"
  using unsigned_less [of b, where ?'a = nat] by simp

lemma unat_uuid_bound: "unat (a :: uuid) < 256 ^ 16"
  using unsigned_less [of a, where ?'a = nat] by simp

lemma unat_256_bound: "unat (a :: 256 word) < 256 ^ 32"
  using unsigned_less [of a, where ?'a = nat] by simp

lemma le_val_bound: "le_val bs < 256 ^ length bs"
proof (induction bs)
  case Nil
  show ?case by simp
next
  case (Cons b bs)
  have "unat b + 256 * le_val bs < 256 * 256 ^ length bs"
    using Cons unat_byte_bound [of b] by linarith
  then show ?case by simp
qed

lemma le_bytes_le_val: "le_bytes (length bs) (le_val bs) = bs"
proof (induction bs)
  case Nil
  show ?case by simp
next
  case (Cons b bs)
  have b: "unat b < 256" by simp
  have "(unat b + 256 * le_val bs) mod 256 = unat b"
    and "(unat b + 256 * le_val bs) div 256 = le_val bs"
    using b by auto
  with Cons show ?case by simp
qed

lemma le_bytes_inject:
  assumes "x < 256 ^ n" and "y < 256 ^ n"
  shows "le_bytes n x = le_bytes n y \<longleftrightarrow> x = y"
proof
  assume "le_bytes n x = le_bytes n y"
  then have "le_val (le_bytes n x) = le_val (le_bytes n y)" by simp
  with assms show "x = y" by (simp add: le_val_le_bytes)
qed simp

lemma be_bytes_inject:
  assumes "x < 256 ^ n" and "y < 256 ^ n"
  shows "be_bytes n x = be_bytes n y \<longleftrightarrow> x = y"
  using assms by (simp add: be_bytes_def le_bytes_inject)

lemma be_bytes_uuid_inject: "be_bytes 16 (unat (a :: uuid)) = be_bytes 16 (unat b) \<longleftrightarrow> a = b"
  by (simp only: be_bytes_inject [OF unat_uuid_bound unat_uuid_bound] word_unat_eq_iff)

lemma be_bytes_256_inject:
  "be_bytes 32 (unat (a :: 256 word)) = be_bytes 32 (unat b) \<longleftrightarrow> a = b"
  by (simp only: be_bytes_inject [OF unat_256_bound unat_256_bound] word_unat_eq_iff)

text \<open>\<open>str::as_bytes\<close>.\<close>

definition as_bytes :: "string \<Rightarrow> byte list" where
  "as_bytes s = map (\<lambda>c. word_of_nat (of_char c)) s"

lemma byte_of_char_inject:
  "(word_of_nat (of_char c) :: byte) = word_of_nat (of_char d) \<longleftrightarrow> c = d"
proof
  assume "(word_of_nat (of_char c) :: byte) = word_of_nat (of_char d)"
  then have "unat (word_of_nat (of_char c) :: byte) = unat (word_of_nat (of_char d) :: byte)"
    by simp
  then have "(of_char c :: nat) mod 256 = of_char d mod 256"
    by (simp only: unat_of_nat) simp
  then have "(of_char c :: nat) = of_char d"
    by (simp only: of_char_mod_256)
  then show "c = d" by (simp only: of_char_eq_iff)
qed simp

lemma length_as_bytes [simp]: "length (as_bytes s) = length s"
  by (simp add: as_bytes_def)

lemma as_bytes_inject [simp]: "as_bytes s = as_bytes t \<longleftrightarrow> s = t"
proof -
  have "inj (\<lambda>c. word_of_nat (of_char c) :: byte)"
    by (rule injI) (simp add: byte_of_char_inject)
  then show ?thesis by (simp add: as_bytes_def inj_map_eq_map)
qed

section \<open>An example environment\<close>

lemma unat_widen [simp]: "unat (ucast (w :: u32) :: u64) = unat w"
  using unsigned_less [of w, where ?'a = nat] by (simp add: unsigned_ucast_eq take_bit_nat_eq_self)

section \<open>Decimal rendering\<close>

text \<open>\<open>Display\<close> of integers.\<close>

fun show_nat :: "nat \<Rightarrow> string" where
  "show_nat n = (if n < 10 then [char_of (48 + n)] else show_nat (n div 10) @ [char_of (48 + n mod 10)])"

declare show_nat.simps [simp del]

definition show_int :: "int \<Rightarrow> string" where
  "show_int i = (if i < 0 then CHR ''-'' # show_nat (nat (- i)) else show_nat (nat i))"

text \<open>
  One concrete choice of the outside functions, used only to instantiate theorems at
  concrete inputs: ASCII case mapping, and an injective rendering of addresses.
\<close>

definition ascii_lower_char :: "char \<Rightarrow> char" where
  "ascii_lower_char c =
     (if 65 \<le> (of_char c :: nat) \<and> (of_char c :: nat) \<le> 90 then char_of ((of_char c :: nat) + 32) else c)"

fun sample_show_ip :: "ip_addr \<Rightarrow> string" where
  "sample_show_ip (V4 w) = CHR ''4'' # replicate (unat w) CHR ''.''"
| "sample_show_ip (V6 w) = CHR ''6'' # replicate (unat w) CHR '':''"

fun sample_parse_ip :: "string \<Rightarrow> ip_addr option" where
  "sample_parse_ip (c # cs) =
     (if c = CHR ''4'' then Some (V4 (word_of_nat (length cs)))
      else if c = CHR ''6'' then Some (V6 (word_of_nat (length cs))) else None)"
| "sample_parse_ip [] = None"

definition sample_env :: env where
  "sample_env =
     \<lparr> lower = map ascii_lower_char, sql_lower = map ascii_lower_char,
       show_ip = sample_show_ip, parse_ip = sample_parse_ip,
       sha256 = (\<lambda>bs. word_of_nat (le_val bs)),
       hexlower = map (\<lambda>b. char_of (unat b)),
       show_uuid = (\<lambda>u. replicate (unat u) CHR ''-'') \<rparr>"

lemma sample_env_ip_text_ok: "ip_text_ok sample_env"
proof -
  have "sample_parse_ip (sample_show_ip a) = Some a" for a
    by (cases a) simp_all
  then show ?thesis by (simp add: ip_text_ok_def sample_env_def)
qed

lemma sample_env_case_maps_agree: "case_maps_agree sample_env"
  by (simp add: case_maps_agree_def sample_env_def)

end
