(* ===== verification/Credentials.thy ===== *)
theory Credentials
  imports Prelude
begin

text \<open>
  Credentials (\<open>warpgate-common/src/auth/cred.rs\<close>, the protocol enumeration of
  \<open>warpgate-common/src/types/aliases.rs\<close>, and the credential sets and approval
  keys of the first half of \<open>warpgate-common/src/auth/state.rs\<close>). The digests by
  which a remembered approval is matched are shown to separate any two different
  identities, up to a collision of the hash function itself.
\<close>

section \<open>Protocols\<close>

datatype protocol = Http | Ssh | MySql | Postgres | Kubernetes | Vnc | Rdp

text \<open>\<open>Protocol::all\<close>, \<open>Protocol::name\<close> (also its \<open>Display\<close>).\<close>

definition protocol_all :: "protocol list" where
  "protocol_all = [Http, Ssh, MySql, Postgres, Kubernetes, Vnc, Rdp]"

fun protocol_name :: "protocol \<Rightarrow> string" where
  "protocol_name Http = ''HTTP''"
| "protocol_name Ssh = ''SSH''"
| "protocol_name MySql = ''MySQL''"
| "protocol_name Postgres = ''PostgreSQL''"
| "protocol_name Kubernetes = ''Kubernetes''"
| "protocol_name Vnc = ''VNC''"
| "protocol_name Rdp = ''RDP''"

lemma protocol_name_inject: "protocol_name p = protocol_name q \<longleftrightarrow> p = q"
  by (cases p; cases q) simp_all

lemma protocol_all_complete: "set protocol_all = UNIV"
proof -
  have "p \<in> set protocol_all" for p
    by (cases p) (simp_all add: protocol_all_def)
  then show ?thesis by blast
qed

section \<open>Credential kinds\<close>

datatype credential_kind =
    Kind_Password | Kind_PublicKey | Kind_Certificate | Kind_Totp | Kind_Sso
  | Kind_WebUserApproval

fun kind_readable_description :: "credential_kind \<Rightarrow> string" where
  "kind_readable_description Kind_Password = ''password''"
| "kind_readable_description Kind_PublicKey = ''public key''"
| "kind_readable_description Kind_Certificate = ''client certificate''"
| "kind_readable_description Kind_Totp = ''one-time password''"
| "kind_readable_description Kind_Sso = ''SSO''"
| "kind_readable_description Kind_WebUserApproval = ''in-browser auth''"

datatype approval_kind = Approval_User | Approval_Admin

datatype approval_scope = Scope_Once | Scope_Target | Scope_AllTargets

section \<open>Submitted credentials\<close>

text \<open>
  A public key carries its algorithm name and its bytes; secrets are plain strings
  here (the \<open>Secret\<close> wrapper only affects printing).
\<close>

datatype auth_credential =
    Cred_Otp string
  | Cred_Password string
  | Cred_PublicKey string "byte list"
  | Cred_Certificate string
  | Cred_Sso string string
  | Cred_WebUserApproval

fun auth_credential_kind :: "auth_credential \<Rightarrow> credential_kind" where
  "auth_credential_kind (Cred_Password _) = Kind_Password"
| "auth_credential_kind (Cred_PublicKey _ _) = Kind_PublicKey"
| "auth_credential_kind (Cred_Certificate _) = Kind_Certificate"
| "auth_credential_kind (Cred_Otp _) = Kind_Totp"
| "auth_credential_kind (Cred_Sso _ _) = Kind_Sso"
| "auth_credential_kind Cred_WebUserApproval = Kind_WebUserApproval"

fun auth_credential_readable_description :: "auth_credential \<Rightarrow> string" where
  "auth_credential_readable_description (Cred_Sso provider _) = ''SSO ('' @ provider @ '')''"
| "auth_credential_readable_description c = kind_readable_description (auth_credential_kind c)"

section \<open>Stored credentials\<close>

datatype stored_credential_kind = Stored_Password | Stored_PublicKey | Stored_Totp | Stored_Sso

fun stored_kind_kind :: "stored_credential_kind \<Rightarrow> credential_kind" where
  "stored_kind_kind Stored_Password = Kind_Password"
| "stored_kind_kind Stored_PublicKey = Kind_PublicKey"
| "stored_kind_kind Stored_Totp = Kind_Totp"
| "stored_kind_kind Stored_Sso = Kind_Sso"

text \<open>
  The fingerprint is the SHA-256 digest of the stored verifier, 32 bytes. It is kept
  as a 256-bit word: the lexicographic order of the 32 bytes, which Rust derives, is
  the numeric order of the word, and the same holds for the 16 bytes of a UUID.
\<close>

type_synonym fingerprint = "256 word"

definition of_stored_verifier :: "env \<Rightarrow> byte list \<Rightarrow> fingerprint" where
  "of_stored_verifier E verifier = sha256 E verifier"

datatype stored_credential =
  StoredCredential (sc_kind: stored_credential_kind) (sc_id: uuid) (sc_fingerprint: fingerprint)

text \<open>The tag byte \<open>write_canonical_bytes\<close> starts with.\<close>

fun stored_kind_tag :: "stored_credential_kind \<Rightarrow> byte" where
  "stored_kind_tag Stored_Password = 1"
| "stored_kind_tag Stored_PublicKey = 2"
| "stored_kind_tag Stored_Totp = 3"
| "stored_kind_tag Stored_Sso = 4"

lemma stored_kind_tag_inject: "stored_kind_tag k = stored_kind_tag l \<longleftrightarrow> k = l"
  by (cases k; cases l) simp_all

definition write_canonical_bytes :: "stored_credential \<Rightarrow> byte list \<Rightarrow> byte list" where
  "write_canonical_bytes c out =
     out @ [stored_kind_tag (sc_kind c)] @ be_bytes 16 (unat (sc_id c))
         @ be_bytes 32 (unat (sc_fingerprint c))"

text \<open>
  The order derived in the source: by kind in declaration order, then identifier, then
  fingerprint.
\<close>

fun stored_kind_ord :: "stored_credential_kind \<Rightarrow> nat" where
  "stored_kind_ord Stored_Password = 0"
| "stored_kind_ord Stored_PublicKey = 1"
| "stored_kind_ord Stored_Totp = 2"
| "stored_kind_ord Stored_Sso = 3"

lemma stored_kind_ord_inject: "stored_kind_ord k = stored_kind_ord l \<longleftrightarrow> k = l"
  by (cases k; cases l) simp_all

definition sc_less :: "stored_credential \<Rightarrow> stored_credential \<Rightarrow> bool" where
  "sc_less a b \<longleftrightarrow>
     stored_kind_ord (sc_kind a) < stored_kind_ord (sc_kind b)
   \<or> sc_kind a = sc_kind b \<and> sc_id a < sc_id b
   \<or> sc_kind a = sc_kind b \<and> sc_id a = sc_id b \<and> sc_fingerprint a < sc_fingerprint b"

lemma sc_less_total: "sc_less a b \<or> a = b \<or> sc_less b a"
  unfolding sc_less_def
  by (cases a; cases b) (auto simp: stored_kind_ord_inject [symmetric])

lemma sc_less_trans: "sc_less a b \<Longrightarrow> sc_less b c \<Longrightarrow> sc_less a c"
  unfolding sc_less_def by (auto dest: less_trans)

lemma sc_less_irrefl: "\<not> sc_less a a"
  by (simp add: sc_less_def)

instantiation stored_credential :: linorder
begin

definition less_stored_credential :: "stored_credential \<Rightarrow> stored_credential \<Rightarrow> bool" where
  "less_stored_credential = sc_less"

definition less_eq_stored_credential :: "stored_credential \<Rightarrow> stored_credential \<Rightarrow> bool" where
  "less_eq_stored_credential a b \<longleftrightarrow> sc_less a b \<or> a = b"

instance
proof
  fix a b c :: stored_credential
  show "a < b \<longleftrightarrow> a \<le> b \<and> \<not> b \<le> a"
    unfolding less_stored_credential_def less_eq_stored_credential_def
    using sc_less_irrefl sc_less_trans by blast
  show "a \<le> a"
    by (simp add: less_eq_stored_credential_def)
  show "a \<le> b \<Longrightarrow> b \<le> c \<Longrightarrow> a \<le> c"
    unfolding less_eq_stored_credential_def using sc_less_trans by blast
  show "a \<le> b \<Longrightarrow> b \<le> a \<Longrightarrow> a = b"
    unfolding less_eq_stored_credential_def using sc_less_irrefl sc_less_trans by blast
  show "a \<le> b \<or> b \<le> a"
    unfolding less_eq_stored_credential_def using sc_less_total by blast
qed

end

section \<open>Validated credentials\<close>

datatype valid_credential = Valid_Stored stored_credential | Valid_WebUserApproval

fun valid_credential_kind :: "valid_credential \<Rightarrow> credential_kind" where
  "valid_credential_kind (Valid_Stored c) = stored_kind_kind (sc_kind c)"
| "valid_credential_kind Valid_WebUserApproval = Kind_WebUserApproval"

fun valid_credential_stored :: "valid_credential \<Rightarrow> stored_credential option" where
  "valid_credential_stored (Valid_Stored c) = Some c"
| "valid_credential_stored Valid_WebUserApproval = None"

fun valid_credential_readable_description :: "env \<Rightarrow> valid_credential \<Rightarrow> string" where
  "valid_credential_readable_description E (Valid_Stored c) =
     kind_readable_description (stored_kind_kind (sc_kind c)) @ '' ('' @ show_uuid E (sc_id c) @ '')''"
| "valid_credential_readable_description E Valid_WebUserApproval = ''in-browser auth''"

section \<open>Sets of stored credentials\<close>

text \<open>\<open>StoredCredentials::new\<close>: \<open>sort_unstable\<close>, then \<open>dedup\<close> of equal neighbours.\<close>

datatype stored_credentials = StoredCredentials "stored_credential list"

definition stored_credentials_new :: "stored_credential list \<Rightarrow> stored_credentials" where
  "stored_credentials_new cs = StoredCredentials (remdups_adj (sort cs))"

text \<open>The bytes \<open>StoredCredentials::digest\<close> hashes, and the digest.\<close>

fun stored_credentials_bytes :: "stored_credentials \<Rightarrow> byte list" where
  "stored_credentials_bytes (StoredCredentials cs) = foldl (\<lambda>out c. write_canonical_bytes c out) [2] cs"

definition sha256_hex :: "env \<Rightarrow> byte list \<Rightarrow> string" where
  "sha256_hex E bs = hexlower E (be_bytes 32 (unat (sha256 E bs)))"

definition stored_credentials_digest :: "env \<Rightarrow> stored_credentials \<Rightarrow> string" where
  "stored_credentials_digest E s = sha256_hex E (stored_credentials_bytes s)"

datatype remember_approval_by = Remember_Credentials stored_credentials | Remember_Nothing

definition remember_from_credentials :: "stored_credential list \<Rightarrow> remember_approval_by" where
  "remember_from_credentials cs = Remember_Credentials (stored_credentials_new cs)"

fun remember_credentials :: "remember_approval_by \<Rightarrow> stored_credentials option" where
  "remember_credentials (Remember_Credentials cs) = Some cs"
| "remember_credentials Remember_Nothing = None"

section \<open>Approval keys\<close>

datatype web_approval_scope_key = Untargeted | Scope_Key_Target string

record web_approval_identity =
  wi_kind :: approval_kind
  wi_remote_ip :: ip_addr
  wi_protocol :: protocol
  wi_username :: string
  wi_other_credentials :: stored_credentials

text \<open>\<open>kind as u8\<close>: the discriminant, in declaration order.\<close>

fun approval_kind_discriminant :: "approval_kind \<Rightarrow> byte" where
  "approval_kind_discriminant Approval_User = 0"
| "approval_kind_discriminant Approval_Admin = 1"

text \<open>The closure \<open>push\<close> of \<open>WebApprovalIdentity::digest\<close>: a length prefix, then the part.\<close>

definition push_part :: "byte list \<Rightarrow> byte list \<Rightarrow> byte list" where
  "push_part part bytes = bytes @ le_bytes 8 (length part) @ part"

definition web_approval_identity_bytes :: "env \<Rightarrow> web_approval_identity \<Rightarrow> byte list" where
  "web_approval_identity_bytes E i =
     push_part (as_bytes (stored_credentials_digest E (wi_other_credentials i)))
    (push_part (as_bytes (wi_username i))
    (push_part (as_bytes (protocol_name (wi_protocol i)))
    (push_part (as_bytes (show_ip E (wi_remote_ip i)))
    (push_part [approval_kind_discriminant (wi_kind i)] [1]))))"

definition web_approval_identity_digest :: "env \<Rightarrow> web_approval_identity \<Rightarrow> string" where
  "web_approval_identity_digest E i = sha256_hex E (web_approval_identity_bytes E i)"

record web_approval_key =
  mk_scope :: web_approval_scope_key
  mk_identity :: web_approval_identity

definition web_approval_match_key_build ::
  "env \<Rightarrow> approval_kind \<Rightarrow> ip_addr \<Rightarrow> protocol \<Rightarrow> string \<Rightarrow> string \<Rightarrow> remember_approval_by
   \<Rightarrow> web_approval_key option" where
  "web_approval_match_key_build E kind remote_ip prot username target_name remember_by =
     (case remember_credentials remember_by of
        None \<Rightarrow> None
      | Some cs \<Rightarrow> Some
          \<lparr> mk_scope = (if target_name = [] then Untargeted else Scope_Key_Target target_name),
            mk_identity =
              \<lparr> wi_kind = kind, wi_remote_ip = remote_ip, wi_protocol = prot,
                wi_username = lower E username, wi_other_credentials = cs \<rparr> \<rparr>)"

section \<open>What the digests separate\<close>

lemma remdups_adj_sorted_distinct: "sorted xs \<Longrightarrow> distinct (remdups_adj xs)"
proof (induction xs rule: remdups_adj.induct)
  case (3 x y xs)
  show ?case
  proof (cases "x = y")
    case True
    with 3 show ?thesis by simp
  next
    case False
    with 3 have "x \<notin> set (y # xs)" by auto
    with False 3 show ?thesis by simp
  qed
qed simp_all

lemma stored_credentials_new_eq_iff:
  "stored_credentials_new xs = stored_credentials_new ys \<longleftrightarrow> set xs = set ys"
proof
  assume "stored_credentials_new xs = stored_credentials_new ys"
  then have "set (remdups_adj (sort xs)) = set (remdups_adj (sort ys))"
    by (simp add: stored_credentials_new_def)
  then show "set xs = set ys" by simp
next
  assume eq: "set xs = set ys"
  have "remdups_adj (sort xs) = remdups_adj (sort ys)"
    by (rule sorted_distinct_set_unique)
       (simp_all add: eq remdups_adj_sorted_distinct sorted_remdups_adj)
  then show "stored_credentials_new xs = stored_credentials_new ys"
    by (simp add: stored_credentials_new_def)
qed

text \<open>Every credential contributes exactly 49 bytes, which determine it.\<close>

lemma length_canonical [simp, bytes_simps]: "length (write_canonical_bytes c []) = 49"
  by (simp add: write_canonical_bytes_def)

lemma write_canonical_bytes_append:
  "write_canonical_bytes c out = out @ write_canonical_bytes c []"
  by (simp add: write_canonical_bytes_def)

lemma canonical_inject: "write_canonical_bytes c [] = write_canonical_bytes d [] \<longleftrightarrow> c = d"
  by (cases c; cases d)
     (simp add: write_canonical_bytes_def stored_kind_tag_inject be_bytes_uuid_inject
        be_bytes_256_inject)

lemma foldl_canonical:
  "foldl (\<lambda>out c. write_canonical_bytes c out) out cs
     = out @ concat (map (\<lambda>c. write_canonical_bytes c []) cs)"
proof (induction cs arbitrary: out)
  case (Cons c cs)
  have "foldl (\<lambda>out c. write_canonical_bytes c out) out (c # cs)
      = write_canonical_bytes c out @ concat (map (\<lambda>c. write_canonical_bytes c []) cs)"
    by (simp add: Cons)
  then show ?case by (simp add: write_canonical_bytes_append [of c out])
qed simp

lemma concat_fixed_inject:
  assumes len: "\<And>x. length (f x) = Suc n" and inj: "\<And>x y. f x = f y \<Longrightarrow> x = y"
  shows "concat (map f xs) = concat (map f ys) \<Longrightarrow> xs = ys"
proof (induction xs arbitrary: ys)
  case Nil
  then show ?case using len by (cases ys) (auto dest: arg_cong [where f = length])
next
  case (Cons x xs)
  from Cons.prems len obtain y zs where ys: "ys = y # zs"
    by (cases ys) (auto dest: arg_cong [where f = length])
  with Cons.prems len have "f x = f y" and "concat (map f xs) = concat (map f zs)"
    by (auto simp: append_eq_append_conv)
  with ys Cons.IH inj show ?case by blast
qed

lemma stored_credentials_bytes_inject:
  "stored_credentials_bytes s = stored_credentials_bytes t \<longleftrightarrow> s = t"
proof
  obtain xs ys where st: "s = StoredCredentials xs" "t = StoredCredentials ys"
    by (cases s; cases t)
  assume "stored_credentials_bytes s = stored_credentials_bytes t"
  then have "concat (map (\<lambda>c. write_canonical_bytes c []) xs)
           = concat (map (\<lambda>c. write_canonical_bytes c []) ys)"
    by (simp add: st foldl_canonical)
  then have "xs = ys"
    by (rule concat_fixed_inject [where n = 48, rotated 2]) (simp_all add: canonical_inject)
  with st show "s = t" by simp
qed simp

text \<open>
  A length-prefixed part followed by the rest of the encoding: equal encodings have equal
  first parts and equal rests.
\<close>

definition frame :: "byte list \<Rightarrow> byte list \<Rightarrow> byte list" where
  "frame part rest = le_bytes 8 (length part) @ part @ rest"

lemma push_part_frame: "push_part p out @ r = out @ frame p r"
  by (simp add: push_part_def frame_def)

lemma frame_inject:
  assumes "length p < 2 ^ 64" and "length q < 2 ^ 64"
  shows "frame p r = frame q s \<longleftrightarrow> p = q \<and> r = s"
proof
  assume "frame p r = frame q s"
  then have "le_bytes 8 (length p) = le_bytes 8 (length q)" and pq: "p @ r = q @ s"
    by (auto simp: frame_def append_eq_append_conv)
  with assms have "length p = length q"
    by (simp add: le_bytes_inject)
  with pq show "p = q \<and> r = s" by (simp add: append_eq_append_conv)
qed simp

text \<open>
  The parts of an identity are shorter than \<open>2^64\<close> bytes, which every Rust allocation is.
\<close>

definition identity_encodable :: "env \<Rightarrow> web_approval_identity \<Rightarrow> bool" where
  "identity_encodable E i \<longleftrightarrow>
     length (show_ip E (wi_remote_ip i)) < 2 ^ 64 \<and> length (wi_username i) < 2 ^ 64
   \<and> length (stored_credentials_digest E (wi_other_credentials i)) < 2 ^ 64"

lemma approval_kind_discriminant_inject:
  "approval_kind_discriminant k = approval_kind_discriminant l \<longleftrightarrow> k = l"
  by (cases k; cases l) simp_all

lemma web_approval_identity_bytes_frames:
  "web_approval_identity_bytes E i =
     1 # frame [approval_kind_discriminant (wi_kind i)]
        (frame (as_bytes (show_ip E (wi_remote_ip i)))
        (frame (as_bytes (protocol_name (wi_protocol i)))
        (frame (as_bytes (wi_username i))
        (frame (as_bytes (stored_credentials_digest E (wi_other_credentials i))) []))))"
  using push_part_frame [where r = "[]"]
  by (simp add: web_approval_identity_bytes_def push_part_def frame_def)

lemma length_protocol_name: "length (protocol_name p) < 2 ^ 64"
  by (cases p) simp_all

lemma web_approval_identity_bytes_parts:
  assumes "identity_encodable E i" and "identity_encodable E j"
    and "web_approval_identity_bytes E i = web_approval_identity_bytes E j"
  shows "wi_kind i = wi_kind j \<and> show_ip E (wi_remote_ip i) = show_ip E (wi_remote_ip j)
    \<and> wi_protocol i = wi_protocol j \<and> wi_username i = wi_username j
    \<and> stored_credentials_digest E (wi_other_credentials i)
       = stored_credentials_digest E (wi_other_credentials j)"
  using assms length_protocol_name [of "wi_protocol i"] length_protocol_name [of "wi_protocol j"]
  by (simp add: web_approval_identity_bytes_frames frame_inject identity_encodable_def
      approval_kind_discriminant_inject protocol_name_inject)

section \<open>Properties\<close>

text \<open>
  What a remembered approval is matched by does not depend on the order in which the
  credentials of a login were validated nor on repetitions, and it separates any two
  different sets of stored credentials: the bytes that are hashed are equal exactly when
  the sets are.
\<close>

theorem credential_set_encoding:
  "stored_credentials_bytes (stored_credentials_new xs)
     = stored_credentials_bytes (stored_credentials_new ys) \<longleftrightarrow> set xs = set ys"
  by (simp add: stored_credentials_bytes_inject stored_credentials_new_eq_iff)

text \<open>
  Two sessions whose identity encodings are equal are the same identity (approval
  kind, address, protocol, user name, credential set), unless SHA-256 maps the encodings
  of their two credential sets to the same digest. The length prefixes rule out any
  confusion between the parts.
\<close>

theorem approval_identity_encoding:
  assumes "ip_text_ok E" and "identity_encodable E i" and "identity_encodable E j"
    and "web_approval_identity_bytes E i = web_approval_identity_bytes E j"
  shows "i = j \<or>
    (stored_credentials_bytes (wi_other_credentials i)
       \<noteq> stored_credentials_bytes (wi_other_credentials j)
     \<and> sha256_hex E (stored_credentials_bytes (wi_other_credentials i))
       = sha256_hex E (stored_credentials_bytes (wi_other_credentials j)))"
proof -
  note parts = web_approval_identity_bytes_parts [OF assms(2-4)]
  from parts assms(1) have "wi_remote_ip i = wi_remote_ip j"
    by (simp add: show_ip_inject)
  with parts show ?thesis
    by (auto simp: stored_credentials_digest_def stored_credentials_bytes_inject)
qed

definition sample_identity :: web_approval_identity where
  "sample_identity = \<lparr> wi_kind = Approval_Admin, wi_remote_ip = V4 1, wi_protocol = Ssh,
     wi_username = ''someone'', wi_other_credentials = StoredCredentials [] \<rparr>"

lemma sample_identity_encodable: "identity_encodable sample_env sample_identity"
  by (simp add: identity_encodable_def sample_identity_def sample_env_def
      stored_credentials_digest_def sha256_hex_def)

theorem approval_identity_encoding_witness:
  "ip_text_ok sample_env \<and> identity_encodable sample_env sample_identity
   \<and> (sample_identity = sample_identity \<or>
     (stored_credentials_bytes (wi_other_credentials sample_identity)
       \<noteq> stored_credentials_bytes (wi_other_credentials sample_identity)
     \<and> sha256_hex sample_env (stored_credentials_bytes (wi_other_credentials sample_identity))
       = sha256_hex sample_env (stored_credentials_bytes (wi_other_credentials sample_identity))))"
  using approval_identity_encoding [OF sample_env_ip_text_ok sample_identity_encodable
      sample_identity_encodable refl] sample_env_ip_text_ok sample_identity_encodable
  by blast

end
