(* ===== verification/Auth_Policy.thy ===== *)
theory Auth_Policy
  imports Credentials
begin

text \<open>
  Credential policies (\<open>warpgate-common/src/auth/policy.rs\<close>) and their construction
  for a user (\<open>get_credential_policy\<close> of \<open>warpgate-core/src/config_providers/db.rs\<close>
  and the MFA parameters of \<open>warpgate-db-entities/src/Parameters.rs\<close>). The laws every
  policy obeys form the locale \<open>credential_policy\<close>, the interface the authentication
  state machine relies on; each kind of policy the program builds is an
  interpretation of it.
\<close>

section \<open>Policies\<close>

datatype policy_response = Policy_Ok | Policy_Need "credential_kind set"

text \<open>A trait object \<open>dyn CredentialPolicy\<close> is its method \<open>is_sufficient\<close>.\<close>

type_synonym cred_policy = "protocol \<Rightarrow> credential_kind set \<Rightarrow> policy_response"

datatype policy =
    AnySingleCredentialPolicy (supported: "credential_kind set")
  | AllCredentialsPolicy (required: "credential_kind set") (supported_all: "credential_kind set")
  | PerProtocolCredentialPolicy "(protocol \<times> policy) list" policy
  | MfaEnforcementPolicy policy "protocol \<rightharpoonup> credential_kind"

lemma map_of_policy_size: "map_of ps p = Some q \<Longrightarrow> size q < size_list (size_prod (\<lambda>_. 0) size) ps"
  by (induction ps) (auto split: if_splits)

function is_sufficient :: "policy \<Rightarrow> cred_policy" where
  "is_sufficient (AnySingleCredentialPolicy sts) p valid =
     (if \<exists>kind\<in>valid. kind \<noteq> Kind_Totp then Policy_Ok else Policy_Need (sts - valid))"
| "is_sufficient (AllCredentialsPolicy req sts) p valid =
     (if valid \<noteq> {} \<and> req \<subseteq> valid then Policy_Ok else Policy_Need (req - valid))"
| "is_sufficient (PerProtocolCredentialPolicy protocols dflt) p valid =
     (case map_of protocols p of
        Some q \<Rightarrow> is_sufficient q p valid
      | None \<Rightarrow> is_sufficient dflt p valid)"
| "is_sufficient (MfaEnforcementPolicy inner req) p valid =
     (let response = is_sufficient inner p valid in
      case req p of
        None \<Rightarrow> response
      | Some factor \<Rightarrow>
          if factor \<in> valid then response
          else Policy_Need (insert factor
                 (case response of Policy_Ok \<Rightarrow> {} | Policy_Need needed \<Rightarrow> needed)))"
  by pat_completeness auto
termination
  by (relation "measure (\<lambda>(q, _, _). size q)") (auto dest: map_of_policy_size)

section \<open>The interface of a policy\<close>

text \<open>
  The laws: nothing is sufficient without a credential; what is asked for has not been
  given yet; and a further credential never turns sufficient into insufficient.
\<close>

locale credential_policy =
  fixes pol :: cred_policy
  assumes empty_insufficient: "pol p {} \<noteq> Policy_Ok"
    and need_missing: "pol p valid = Policy_Need ks \<Longrightarrow> ks \<inter> valid = {}"
    and ok_mono: "pol p valid = Policy_Ok \<Longrightarrow> valid \<subseteq> valid' \<Longrightarrow> pol p valid' = Policy_Ok"
begin

lemma ok_nonempty: "pol p valid = Policy_Ok \<Longrightarrow> valid \<noteq> {}"
  using empty_insufficient by blast

lemma insufficient_antimono:
  "pol p valid' \<noteq> Policy_Ok \<Longrightarrow> valid \<subseteq> valid' \<Longrightarrow> pol p valid \<noteq> Policy_Ok"
  using ok_mono by blast

end

lemma is_sufficient_empty: "is_sufficient q p {} \<noteq> Policy_Ok"
  by (induction q p "{} :: credential_kind set" rule: is_sufficient.induct)
     (auto simp: Let_def split: option.splits)

lemma is_sufficient_need_missing:
  "is_sufficient q p valid = Policy_Need ks \<Longrightarrow> ks \<inter> valid = {}"
proof (induction q p valid arbitrary: ks rule: is_sufficient.induct)
  case (4 inner req p valid)
  then show ?case
    by (auto simp: Let_def split: option.splits if_splits policy_response.splits)
qed (auto split: option.splits if_splits)

lemma is_sufficient_mono:
  "is_sufficient q p valid = Policy_Ok \<Longrightarrow> valid \<subseteq> valid' \<Longrightarrow> is_sufficient q p valid' = Policy_Ok"
proof (induction q p valid rule: is_sufficient.induct)
  case (1 sts p valid)
  then show ?case by (auto split: if_splits)
next
  case (2 req sts p valid)
  then show ?case by (auto split: if_splits)
next
  case (3 protocols dflt p valid)
  then show ?case by (auto split: option.splits)
next
  case (4 inner req p valid)
  then show ?case by (auto simp: Let_def split: option.splits if_splits)
qed

interpretation built_policy: credential_policy "is_sufficient q" for q
  by unfold_locales
     (simp_all add: is_sufficient_empty is_sufficient_need_missing is_sufficient_mono)

section \<open>Users and the parameters that shape their policy\<close>

datatype user_auth_credential =
    User_Password string
  | User_PublicKey string
  | User_Certificate string
  | User_Totp "byte list"
  | User_Sso "string option" string

fun user_auth_credential_kind :: "user_auth_credential \<Rightarrow> credential_kind" where
  "user_auth_credential_kind (User_Password _) = Kind_Password"
| "user_auth_credential_kind (User_PublicKey _) = Kind_PublicKey"
| "user_auth_credential_kind (User_Certificate _) = Kind_Certificate"
| "user_auth_credential_kind (User_Totp _) = Kind_Totp"
| "user_auth_credential_kind (User_Sso _ _) = Kind_Sso"

record user_require_credentials_policy =
  req_http :: "credential_kind list option"
  req_kubernetes :: "credential_kind list option"
  req_ssh :: "credential_kind list option"
  req_mysql :: "credential_kind list option"
  req_postgres :: "credential_kind list option"
  req_vnc :: "credential_kind list option"
  req_rdp :: "credential_kind list option"

text \<open>
  A user row with its credentials. The type of networks stands for \<open>IpNet\<close> of the
  \<open>ipnet\<close> crate.
\<close>

record 'net user =
  user_id :: uuid
  user_username :: string
  user_description :: string
  user_rate_limit_bytes_per_second :: "64 word option"
  user_ldap_server_id :: "uuid option"
  user_allowed_ip_ranges :: "'net list option"
  user_credential_policy :: "user_require_credentials_policy option"
  user_credentials :: "user_auth_credential list"
  user_roles :: "string list"

datatype mfa_enforcement = Mfa_Off | Mfa_Enroll | Mfa_Require

record mfa_parameters =
  mfa_enforcement :: mfa_enforcement
  mfa_policy_exempt_sso_users :: bool

definition effective_mfa_enforcement_for_user :: "mfa_parameters \<Rightarrow> bool \<Rightarrow> mfa_enforcement" where
  "effective_mfa_enforcement_for_user params has_sso_credential =
     (if mfa_policy_exempt_sso_users params \<and> has_sso_credential then Mfa_Off
      else mfa_enforcement params)"

definition mfa_required_factor ::
  "mfa_parameters \<Rightarrow> protocol \<Rightarrow> bool \<Rightarrow> bool \<Rightarrow> credential_kind option" where
  "mfa_required_factor params prot has_sso has_totp =
     (case (effective_mfa_enforcement_for_user params has_sso, prot) of
        (Mfa_Off, _) \<Rightarrow> None
      | (_, Http) \<Rightarrow> if has_totp then Some Kind_Totp else None
      | (Mfa_Enroll, _) \<Rightarrow> None
      | (Mfa_Require, Ssh) \<Rightarrow> Some (if has_totp then Kind_Totp else Kind_WebUserApproval)
      | (Mfa_Require, Rdp) \<Rightarrow> Some (if has_totp then Kind_Totp else Kind_WebUserApproval)
      | (Mfa_Require, Vnc) \<Rightarrow> Some (if has_totp then Kind_Totp else Kind_WebUserApproval)
      | (Mfa_Require, MySql) \<Rightarrow> Some Kind_WebUserApproval
      | (Mfa_Require, Postgres) \<Rightarrow> Some Kind_WebUserApproval
      | (Mfa_Require, Kubernetes) \<Rightarrow> Some Kind_WebUserApproval)"

text \<open>A hash map collected from pairs, as the list of the pairs.\<close>

definition mfa_required_factors ::
  "mfa_parameters \<Rightarrow> user_auth_credential list \<Rightarrow> (protocol \<times> credential_kind) list" where
  "mfa_required_factors params credentials =
     (let has = (\<lambda>kind. \<exists>c\<in>set credentials. user_auth_credential_kind c = kind);
          has_sso = has Kind_Sso; has_totp = has Kind_Totp
      in List.map_filter (\<lambda>prot. map_option (\<lambda>factor. (prot, factor))
           (mfa_required_factor params prot has_sso has_totp)) protocol_all)"

section \<open>The policy of a user\<close>

text \<open>
  The closure \<open>make_policy\<close>: only HTTP performs an SSO exchange inline; elsewhere a
  required SSO credential is satisfied by the in-browser approval.
\<close>

definition translate_required :: "protocol \<Rightarrow> credential_kind \<Rightarrow> credential_kind" where
  "translate_required prot kind =
     (case (kind, prot) of
        (Kind_Sso, Http) \<Rightarrow> Kind_Sso
      | (Kind_Sso, _) \<Rightarrow> Kind_WebUserApproval
      | (k, _) \<Rightarrow> k)"

definition make_policy :: "credential_kind set \<Rightarrow> protocol \<Rightarrow> credential_kind list \<Rightarrow> policy" where
  "make_policy supported_types prot required_list =
     AllCredentialsPolicy (set (map (translate_required prot) required_list)) supported_types"

definition per_protocol_entries ::
  "user_require_credentials_policy \<Rightarrow> (protocol \<times> credential_kind list option) list" where
  "per_protocol_entries req =
     [(Http, req_http req), (Kubernetes, req_kubernetes req), (Ssh, req_ssh req),
      (MySql, req_mysql req), (Postgres, req_postgres req), (Vnc, req_vnc req),
      (Rdp, req_rdp req)]"

definition default_credential_policy :: "credential_kind set \<Rightarrow> policy" where
  "default_credential_policy supported_types =
     AnySingleCredentialPolicy
       (if 1 < card supported_types then supported_types - {Kind_WebUserApproval}
        else supported_types)"

definition user_credential_policy_tree ::
  "mfa_parameters \<Rightarrow> 'net user \<Rightarrow> credential_kind list \<Rightarrow> policy" where
  "user_credential_policy_tree params user supported_credential_types =
     (let available = insert Kind_WebUserApproval
            (set (map user_auth_credential_kind (user_credentials user)));
          supported_types = set supported_credential_types \<inter> available;
          default_policy = default_credential_policy supported_types;
          pol = (case user_credential_policy user of
                   Some req \<Rightarrow> PerProtocolCredentialPolicy
                     (List.map_filter (\<lambda>(prot, r). map_option
                        (\<lambda>required_list. (prot, make_policy supported_types prot required_list)) r)
                        (per_protocol_entries req))
                     default_policy
                 | None \<Rightarrow> default_policy);
          mfa_factors = mfa_required_factors params (user_credentials user)
      in if mfa_factors = [] then pol else MfaEnforcementPolicy pol (map_of mfa_factors))"

definition get_credential_policy ::
  "env \<Rightarrow> 'net user list \<Rightarrow> mfa_parameters \<Rightarrow> string \<Rightarrow> credential_kind list \<Rightarrow> policy option" where
  "get_credential_policy E users params username supported_credential_types =
     (case find (\<lambda>u. sql_lower E (user_username u) = lower E username) users of
        None \<Rightarrow> None
      | Some user \<Rightarrow> Some (user_credential_policy_tree params user supported_credential_types))"

section \<open>What the constructed policy accepts\<close>

fun required_for :: "user_require_credentials_policy \<Rightarrow> protocol \<Rightarrow> credential_kind list option" where
  "required_for req Http = req_http req"
| "required_for req Kubernetes = req_kubernetes req"
| "required_for req Ssh = req_ssh req"
| "required_for req MySql = req_mysql req"
| "required_for req Postgres = req_postgres req"
| "required_for req Vnc = req_vnc req"
| "required_for req Rdp = req_rdp req"

definition has_kind :: "'net user \<Rightarrow> credential_kind \<Rightarrow> bool" where
  "has_kind user kind \<longleftrightarrow> (\<exists>c\<in>set (user_credentials user). user_auth_credential_kind c = kind)"

definition user_mfa_factor :: "mfa_parameters \<Rightarrow> 'net user \<Rightarrow> protocol \<Rightarrow> credential_kind option" where
  "user_mfa_factor params user prot =
     mfa_required_factor params prot (has_kind user Kind_Sso) (has_kind user Kind_Totp)"

lemma map_of_map_filter_entries:
  "distinct (map fst es) \<Longrightarrow>
   map_of (List.map_filter (\<lambda>(k, r). map_option (\<lambda>x. (k, f k x)) r) es) k
     = (case map_of es k of Some (Some x) \<Rightarrow> Some (f k x) | _ \<Rightarrow> None)"
proof (induction es)
  case (Cons e es)
  obtain k' r where e: "e = (k', r)" by (cases e)
  have notin: "k = k' \<Longrightarrow> map_of es k = None"
    using Cons.prems by (auto simp: e map_of_eq_None_iff)
  show ?case using Cons notin
    by (cases r) (auto simp: e List.map_filter_simps)
qed (simp add: List.map_filter_simps)

lemma map_of_map_filter_keys:
  "map_of (List.map_filter (\<lambda>k. map_option (\<lambda>x. (k, x)) (g k)) ks) k
     = (if k \<in> set ks then g k else None)"
  by (induction ks) (auto simp: List.map_filter_simps split: option.splits)

lemma map_of_per_protocol_entries:
  "distinct (map fst (per_protocol_entries req))"
  "map_of (per_protocol_entries req) p = Some (required_for req p)"
  by (simp add: per_protocol_entries_def) (cases p; simp add: per_protocol_entries_def)

lemma map_of_mfa_required_factors:
  "map_of (mfa_required_factors params (user_credentials user)) p = user_mfa_factor params user p"
  by (simp add: mfa_required_factors_def user_mfa_factor_def has_kind_def map_of_map_filter_keys
      protocol_all_complete Let_def)

lemma mfa_wrapper_accepts:
  "is_sufficient (if fs = [] then q else MfaEnforcementPolicy q (map_of fs)) p valid = Policy_Ok
   \<longleftrightarrow> is_sufficient q p valid = Policy_Ok
     \<and> (case map_of fs p of None \<Rightarrow> True | Some f \<Rightarrow> f \<in> valid)"
  by (auto simp: Let_def split: option.splits)

text \<open>The specification: what a user has to have presented on a protocol.\<close>

definition requirement_met ::
  "mfa_parameters \<Rightarrow> 'net user \<Rightarrow> protocol \<Rightarrow> credential_kind set \<Rightarrow> bool" where
  "requirement_met params user p valid \<longleftrightarrow>
     (case Option.bind (user_credential_policy user) (\<lambda>req. required_for req p) of
        Some ks \<Rightarrow> valid \<noteq> {} \<and> translate_required p ` set ks \<subseteq> valid
      | None \<Rightarrow> (\<exists>k\<in>valid. k \<noteq> Kind_Totp))
   \<and> (case user_mfa_factor params user p of None \<Rightarrow> True | Some f \<Rightarrow> f \<in> valid)"

lemma user_policy_tree_ok_iff:
  "is_sufficient (user_credential_policy_tree params user types) p valid = Policy_Ok \<longleftrightarrow>
     requirement_met params user p valid"
proof (cases "user_credential_policy user")
  case None
  then show ?thesis
    by (simp add: requirement_met_def user_credential_policy_tree_def Let_def mfa_wrapper_accepts
        map_of_mfa_required_factors default_credential_policy_def)
next
  case (Some req)
  show ?thesis
    by (cases "required_for req p")
       (simp_all add: requirement_met_def Some user_credential_policy_tree_def Let_def
         mfa_wrapper_accepts map_of_mfa_required_factors map_of_map_filter_entries
         map_of_per_protocol_entries default_credential_policy_def make_policy_def)
qed

lemma user_mfa_factor_totp:
  assumes "mfa_enforcement params = Mfa_Require"
    and "\<not> (mfa_policy_exempt_sso_users params \<and> has_kind user Kind_Sso)"
    and "has_kind user Kind_Totp" and "p \<in> {Http, Ssh, Rdp, Vnc}"
  shows "user_mfa_factor params user p = Some Kind_Totp"
  using assms by (auto simp: user_mfa_factor_def mfa_required_factor_def
      effective_mfa_enforcement_for_user_def)

section \<open>Properties\<close>

text \<open>
  C5: the policy the program builds for a user accepts a set of validated credential kinds
  exactly when it meets the requirement configured for the protocol (every listed kind,
  with SSO read as the in-browser approval outside HTTP) or, without one, contains
  something else than a one-time password, and contains the MFA factor demanded of this
  user on this protocol, if any. No policy is built exactly when no such user exists.
\<close>

theorem user_policy_accepts_iff:
  "map_option (\<lambda>q. is_sufficient q p valid = Policy_Ok)
     (get_credential_policy E users params username types)
   = map_option (\<lambda>user. requirement_met params user p valid)
     (find (\<lambda>u. sql_lower E (user_username u) = lower E username) users)"
  by (simp add: get_credential_policy_def user_policy_tree_ok_iff split: option.splits)

text \<open>
  With MFA required, a user who has enrolled a one-time password and has no requirement
  of their own is accepted on a protocol that can prompt for it only with the one-time
  password and a further credential; the one-time password alone is never enough.
\<close>

theorem mfa_needs_second_factor:
  assumes "mfa_enforcement params = Mfa_Require"
    and "\<not> (mfa_policy_exempt_sso_users params \<and> has_kind user Kind_Sso)"
    and "has_kind user Kind_Totp" and "p \<in> {Http, Ssh, Rdp, Vnc}"
    and "user_credential_policy user = None"
    and "is_sufficient (user_credential_policy_tree params user types) p valid = Policy_Ok"
  shows "Kind_Totp \<in> valid \<and> (\<exists>k\<in>valid. k \<noteq> Kind_Totp)"
  using assms(5,6) user_mfa_factor_totp [OF assms(1-4)]
  by (simp add: user_policy_tree_ok_iff requirement_met_def)

definition sample_user :: "nat user" where
  "sample_user = \<lparr> user_id = 7, user_username = ''alice'', user_description = [],
     user_rate_limit_bytes_per_second = None, user_ldap_server_id = None,
     user_allowed_ip_ranges = None, user_credential_policy = None,
     user_credentials = [User_Password ''hash'', User_Totp []], user_roles = [] \<rparr>"

definition sample_mfa :: mfa_parameters where
  "sample_mfa = \<lparr> mfa_enforcement = Mfa_Require, mfa_policy_exempt_sso_users = False \<rparr>"

lemma sample_user_policy_ok:
  "is_sufficient (user_credential_policy_tree sample_mfa sample_user [Kind_Password, Kind_Totp]) Ssh
     {Kind_Password, Kind_Totp} = Policy_Ok"
  by (simp add: user_policy_tree_ok_iff requirement_met_def sample_user_def sample_mfa_def
      user_mfa_factor_def mfa_required_factor_def effective_mfa_enforcement_for_user_def has_kind_def)

theorem mfa_needs_second_factor_witness:
  "Kind_Totp \<in> {Kind_Password, Kind_Totp} \<and> (\<exists>k\<in>{Kind_Password, Kind_Totp}. k \<noteq> Kind_Totp)"
  by (rule mfa_needs_second_factor [OF _ _ _ _ _ sample_user_policy_ok])
     (simp_all add: sample_mfa_def sample_user_def has_kind_def)

end
