(* ===== verification/Auth_State.thy ===== *)
theory Auth_State
  imports Auth_Policy
begin

text \<open>
  The authentication state machine (\<open>AuthState\<close> of \<open>warpgate-common/src/auth/state.rs\<close>):
  one login attempt, from its creation to acceptance or rejection. The broadcast channel
  is the list of the values sent on it, the audit log the list of the audit events.
\<close>

section \<open>Results\<close>

record auth_state_user_info =
  info_id :: uuid
  info_username :: string

datatype auth_result =
    is_Accepted: Accepted auth_state_user_info
  | Need "credential_kind set"
  | Rejected

datatype submit_outcome = Outcome_Valid auth_result | Outcome_Invalid auth_result

record rejected_submission =
  credential_rejected :: bool
  rejected_state :: auth_result

fun outcome_is_valid :: "submit_outcome \<Rightarrow> bool" where
  "outcome_is_valid (Outcome_Valid _) = True"
| "outcome_is_valid (Outcome_Invalid _) = False"

fun outcome_result :: "submit_outcome \<Rightarrow> auth_result" where
  "outcome_result (Outcome_Valid r) = r"
| "outcome_result (Outcome_Invalid r) = r"

fun into_accepted :: "submit_outcome \<Rightarrow> rejected_submission + auth_state_user_info" where
  "into_accepted (Outcome_Valid (Accepted user_info)) = Inr user_info"
| "into_accepted (Outcome_Valid state) =
     Inl \<lparr> credential_rejected = False, rejected_state = state \<rparr>"
| "into_accepted (Outcome_Invalid state) =
     Inl \<lparr> credential_rejected = True, rejected_state = state \<rparr>"

section \<open>The state\<close>

datatype audit_event =
    UserAuthenticated uuid auth_state_user_info string
  | WebApprovalBypassed uuid auth_state_user_info
  | UserAuthenticationFailed uuid auth_state_user_info string string

record auth_state =
  as_session_id :: uuid
  as_user_info :: auth_state_user_info
  as_remote_ip :: "ip_addr option"
  as_protocol :: protocol
  as_target_name :: string
  as_force_rejected :: bool
  as_policy :: cred_policy
  as_valid_credentials :: "valid_credential list"
  as_started :: timestamp
  as_identification_string :: string
  as_last_result :: "auth_result option"
  as_signals :: "auth_result list"
  as_authenticated_event_emitted :: bool
  as_pending_step_up :: bool
  as_web_approval_from_grace_bypass :: bool
  as_audit :: "audit_event list"

section \<open>Verification\<close>

definition valid_credential_kinds :: "auth_state \<Rightarrow> credential_kind set" where
  "valid_credential_kinds s = set (map valid_credential_kind (as_valid_credentials s))"

definition has_real_web_approval :: "auth_state \<Rightarrow> bool" where
  "has_real_web_approval s \<longleftrightarrow>
     \<not> as_web_approval_from_grace_bypass s
   \<and> Valid_WebUserApproval \<in> set (as_valid_credentials s)"

definition current_verification_state :: "auth_state \<Rightarrow> auth_result" where
  "current_verification_state s =
     (if as_force_rejected s then Rejected
      else if as_pending_step_up s \<and> \<not> has_real_web_approval s
      then Need {Kind_WebUserApproval}
      else case as_policy s (as_protocol s) (valid_credential_kinds s) of
             Policy_Ok \<Rightarrow> Accepted (as_user_info s)
           | Policy_Need kinds \<Rightarrow> Need kinds)"

definition verify :: "auth_state \<Rightarrow> auth_result" where
  "verify s = current_verification_state s"

text \<open>\<open>join(", ")\<close> over the descriptions.\<close>

fun join_comma :: "string list \<Rightarrow> string" where
  "join_comma [] = []"
| "join_comma [x] = x"
| "join_comma (x # xs) = x @ '', '' @ join_comma xs"

definition valid_credentials_description :: "env \<Rightarrow> auth_state \<Rightarrow> string" where
  "valid_credentials_description E s =
     join_comma (map (valid_credential_readable_description E) (as_valid_credentials s))"

definition emit_authenticated_event_once :: "env \<Rightarrow> auth_state \<Rightarrow> auth_state" where
  "emit_authenticated_event_once E s =
     (if as_authenticated_event_emitted s then s
      else case current_verification_state s of
             Accepted _ \<Rightarrow>
               s\<lparr> as_audit := as_audit s @ [UserAuthenticated (as_session_id s) (as_user_info s)
                                (valid_credentials_description E s)],
                  as_authenticated_event_emitted := True \<rparr>
           | _ \<Rightarrow> s)"

definition emit_web_approval_bypassed_event :: "auth_state \<Rightarrow> auth_state" where
  "emit_web_approval_bypassed_event s =
     s\<lparr> as_audit := as_audit s @ [WebApprovalBypassed (as_session_id s) (as_user_info s)] \<rparr>"

definition emit_authentication_failed_event ::
  "auth_credential option \<Rightarrow> string \<Rightarrow> auth_state \<Rightarrow> auth_state" where
  "emit_authentication_failed_event credential reason s =
     (let credentials = (case credential of
            None \<Rightarrow> ''<unknown>''
          | Some c \<Rightarrow> auth_credential_readable_description c)
      in s\<lparr> as_audit := as_audit s @
              [UserAuthenticationFailed (as_session_id s) (as_user_info s) credentials reason] \<rparr>)"

definition maybe_update_verification_state :: "env \<Rightarrow> auth_state \<Rightarrow> auth_state \<times> auth_result" where
  "maybe_update_verification_state E s =
     (let new_result = current_verification_state s in
      if as_last_result s \<noteq> Some new_result then
        let s' = emit_authenticated_event_once E s in
        (s'\<lparr> as_signals := as_signals s' @ [new_result], as_last_result := Some new_result \<rparr>,
         new_result)
      else (s, new_result))"

section \<open>Operations\<close>

text \<open>
  Four random hexadecimal digits, printed in upper case; the digits drawn are an
  argument.
\<close>

definition hex_digit_upper :: "nat \<Rightarrow> char" where
  "hex_digit_upper n = (if n < 10 then char_of (48 + n) else char_of (55 + n))"

definition generate_identification_string :: "nat \<times> nat \<times> nat \<times> nat \<Rightarrow> string" where
  "generate_identification_string rnd =
     (case rnd of (a, b, c, d) \<Rightarrow> map (\<lambda>n. hex_digit_upper (n mod 16)) [a, b, c, d])"

definition auth_state_new ::
  "env \<Rightarrow> timestamp \<Rightarrow> nat \<times> nat \<times> nat \<times> nat \<Rightarrow> uuid \<Rightarrow> ip_addr option \<Rightarrow> auth_state_user_info
   \<Rightarrow> protocol \<Rightarrow> string \<Rightarrow> cred_policy \<Rightarrow> auth_state" where
  "auth_state_new E now rnd session_id remote_ip user_info prot target_name pol =
     fst (maybe_update_verification_state E
       \<lparr> as_session_id = session_id, as_user_info = user_info, as_remote_ip = remote_ip,
         as_protocol = prot, as_target_name = target_name, as_force_rejected = False,
         as_policy = pol, as_valid_credentials = [], as_started = now,
         as_identification_string = generate_identification_string rnd,
         as_last_result = None, as_signals = [], as_authenticated_event_emitted = False,
         as_pending_step_up = False, as_web_approval_from_grace_bypass = False,
         as_audit = [] \<rparr>)"

definition remembered_by :: "auth_state \<Rightarrow> remember_approval_by" where
  "remembered_by s =
     remember_from_credentials (List.map_filter valid_credential_stored (as_valid_credentials s))"

definition web_approval_match_key :: "env \<Rightarrow> auth_state \<Rightarrow> web_approval_key option" where
  "web_approval_match_key E s =
     Option.bind (as_remote_ip s) (\<lambda>ip.
       web_approval_match_key_build E Approval_User ip (as_protocol s)
         (info_username (as_user_info s)) (as_target_name s) (remembered_by s))"

definition require_step_up :: "env \<Rightarrow> auth_state \<Rightarrow> auth_state" where
  "require_step_up E s =
     (if \<not> as_pending_step_up s
      then fst (maybe_update_verification_state E (s\<lparr> as_pending_step_up := True \<rparr>))
      else s)"

definition is_step_up_pending :: "auth_state \<Rightarrow> bool" where
  "is_step_up_pending s = as_pending_step_up s"

definition matched_public_key_ids :: "auth_state \<Rightarrow> uuid list" where
  "matched_public_key_ids s =
     map sc_id (filter (\<lambda>stored. sc_kind stored = Stored_PublicKey)
       (List.map_filter valid_credential_stored (as_valid_credentials s)))"

text \<open>
  The validator is the configuration provider's \<open>validate_credential\<close>, an argument here
  as in the source: \<open>Inr None\<close> is a rejected credential, \<open>Inl\<close> a failure of the lookup.
\<close>

type_synonym validator = "string \<Rightarrow> auth_credential \<Rightarrow> stored_credential option result"

definition submit_credential ::
  "env \<Rightarrow> validator \<Rightarrow> auth_credential \<Rightarrow> auth_state \<Rightarrow> auth_state \<times> submit_outcome result" where
  "submit_credential E validate credential s =
     (case validate (info_username (as_user_info s)) credential of
        Inl e \<Rightarrow> (s, Inl e)
      | Inr (Some stored) \<Rightarrow>
          (let (s', r) = maybe_update_verification_state E
                 (s\<lparr> as_valid_credentials := as_valid_credentials s @ [Valid_Stored stored] \<rparr>)
           in (s', Inr (Outcome_Valid r)))
      | Inr None \<Rightarrow>
          (let s' = emit_authentication_failed_event (Some credential) ''invalid credential'' s
           in (s', Inr (Outcome_Invalid (current_verification_state s')))))"

definition add_web_user_approval :: "env \<Rightarrow> auth_state \<Rightarrow> auth_state \<times> auth_result" where
  "add_web_user_approval E s =
     maybe_update_verification_state E
       (s\<lparr> as_pending_step_up := False, as_web_approval_from_grace_bypass := False,
          as_valid_credentials := as_valid_credentials s @ [Valid_WebUserApproval] \<rparr>)"

definition add_web_user_approval_via_grace_bypass :: "env \<Rightarrow> auth_state \<Rightarrow> auth_state \<times> auth_result" where
  "add_web_user_approval_via_grace_bypass E s =
     maybe_update_verification_state E
       (s\<lparr> as_web_approval_from_grace_bypass := True,
          as_valid_credentials := as_valid_credentials s @ [Valid_WebUserApproval] \<rparr>)"

definition reject :: "env \<Rightarrow> auth_state \<Rightarrow> auth_state" where
  "reject E s = fst (maybe_update_verification_state E (s\<lparr> as_force_rejected := True \<rparr>))"

lemmas auth_op_defs =
  require_step_up_def submit_credential_def add_web_user_approval_def
  add_web_user_approval_via_grace_bypass_def reject_def

section \<open>Steps\<close>

text \<open>
  Everything that can happen to an attempt after its creation, one rule per operation that
  takes the state mutably.
\<close>

datatype auth_op =
    Op_Submit auth_credential
  | Op_RequireStepUp
  | Op_WebApproval
  | Op_GraceBypass
  | Op_Reject
  | Op_EmitAuthenticated
  | Op_EmitBypassed
  | Op_EmitFailed "auth_credential option" string

inductive auth_step :: "env \<Rightarrow> validator \<Rightarrow> auth_op \<Rightarrow> auth_state \<Rightarrow> auth_state \<Rightarrow> bool"
  for E :: env and V :: validator where
  submit: "auth_step E V (Op_Submit c) s (fst (submit_credential E V c s))"
| step_up: "auth_step E V Op_RequireStepUp s (require_step_up E s)"
| approval: "auth_step E V Op_WebApproval s (fst (add_web_user_approval E s))"
| bypass: "auth_step E V Op_GraceBypass s (fst (add_web_user_approval_via_grace_bypass E s))"
| rejection: "auth_step E V Op_Reject s (reject E s)"
| emit_authenticated: "auth_step E V Op_EmitAuthenticated s (emit_authenticated_event_once E s)"
| emit_bypassed: "auth_step E V Op_EmitBypassed s (emit_web_approval_bypassed_event s)"
| emit_failed: "auth_step E V (Op_EmitFailed c r) s (emit_authentication_failed_event c r s)"

inductive_simps auth_step_simps [simp]:
  "auth_step E V (Op_Submit c) s t" "auth_step E V Op_RequireStepUp s t"
  "auth_step E V Op_WebApproval s t" "auth_step E V Op_GraceBypass s t"
  "auth_step E V Op_Reject s t" "auth_step E V Op_EmitAuthenticated s t"
  "auth_step E V Op_EmitBypassed s t" "auth_step E V (Op_EmitFailed c r) s t"

inductive auth_run :: "env \<Rightarrow> validator \<Rightarrow> auth_op list \<Rightarrow> auth_state \<Rightarrow> auth_state \<Rightarrow> bool"
  for E :: env and V :: validator where
  run_nil: "auth_run E V [] s s"
| run_cons: "auth_step E V op s t \<Longrightarrow> auth_run E V ops t u \<Longrightarrow> auth_run E V (op # ops) s u"

inductive_cases auth_run_NilE [elim!]: "auth_run E V [] s t"
inductive_cases auth_run_ConsE [elim!]: "auth_run E V (op # ops) s t"

text \<open>The states of an attempt: what a run of operations makes of a new state.\<close>

definition auth_reachable :: "env \<Rightarrow> validator \<Rightarrow> auth_state \<Rightarrow> bool" where
  "auth_reachable E V s \<longleftrightarrow>
     (\<exists>now rnd sid ip info prot tgt pol ops.
        auth_run E V ops (auth_state_new E now rnd sid ip info prot tgt pol) s)"

section \<open>Frames\<close>

text \<open>The verdict depends on neither the log, the channel nor the last result sent.\<close>

lemma current_verification_state_frame [simp]:
  "current_verification_state (s\<lparr> as_audit := a \<rparr>) = current_verification_state s"
  "current_verification_state (s\<lparr> as_signals := sg \<rparr>) = current_verification_state s"
  "current_verification_state (s\<lparr> as_last_result := lr \<rparr>) = current_verification_state s"
  "current_verification_state (s\<lparr> as_authenticated_event_emitted := b \<rparr>)
     = current_verification_state s"
  by (auto simp: current_verification_state_def valid_credential_kinds_def
      has_real_web_approval_def split: policy_response.splits)

lemma emit_authenticated_frame [simp]:
  "as_session_id (emit_authenticated_event_once E s) = as_session_id s"
  "as_user_info (emit_authenticated_event_once E s) = as_user_info s"
  "as_remote_ip (emit_authenticated_event_once E s) = as_remote_ip s"
  "as_protocol (emit_authenticated_event_once E s) = as_protocol s"
  "as_target_name (emit_authenticated_event_once E s) = as_target_name s"
  "as_force_rejected (emit_authenticated_event_once E s) = as_force_rejected s"
  "as_policy (emit_authenticated_event_once E s) = as_policy s"
  "as_valid_credentials (emit_authenticated_event_once E s) = as_valid_credentials s"
  "as_started (emit_authenticated_event_once E s) = as_started s"
  "as_identification_string (emit_authenticated_event_once E s) = as_identification_string s"
  "as_pending_step_up (emit_authenticated_event_once E s) = as_pending_step_up s"
  "as_web_approval_from_grace_bypass (emit_authenticated_event_once E s) = as_web_approval_from_grace_bypass s"
  "as_signals (emit_authenticated_event_once E s) = as_signals s"
  "as_last_result (emit_authenticated_event_once E s) = as_last_result s"
  "current_verification_state (emit_authenticated_event_once E s) = current_verification_state s"
  by (simp_all add: emit_authenticated_event_once_def split: auth_result.splits)

lemma emit_bypassed_frame [simp]:
  "as_session_id (emit_web_approval_bypassed_event s) = as_session_id s"
  "as_user_info (emit_web_approval_bypassed_event s) = as_user_info s"
  "as_remote_ip (emit_web_approval_bypassed_event s) = as_remote_ip s"
  "as_protocol (emit_web_approval_bypassed_event s) = as_protocol s"
  "as_target_name (emit_web_approval_bypassed_event s) = as_target_name s"
  "as_force_rejected (emit_web_approval_bypassed_event s) = as_force_rejected s"
  "as_policy (emit_web_approval_bypassed_event s) = as_policy s"
  "as_valid_credentials (emit_web_approval_bypassed_event s) = as_valid_credentials s"
  "as_started (emit_web_approval_bypassed_event s) = as_started s"
  "as_identification_string (emit_web_approval_bypassed_event s) = as_identification_string s"
  "as_pending_step_up (emit_web_approval_bypassed_event s) = as_pending_step_up s"
  "as_web_approval_from_grace_bypass (emit_web_approval_bypassed_event s) = as_web_approval_from_grace_bypass s"
  "as_signals (emit_web_approval_bypassed_event s) = as_signals s"
  "as_last_result (emit_web_approval_bypassed_event s) = as_last_result s"
  "as_authenticated_event_emitted (emit_web_approval_bypassed_event s)
     = as_authenticated_event_emitted s"
  "current_verification_state (emit_web_approval_bypassed_event s) = current_verification_state s"
  by (simp_all add: emit_web_approval_bypassed_event_def)

lemma emit_failed_frame [simp]:
  "as_session_id (emit_authentication_failed_event c r s) = as_session_id s"
  "as_user_info (emit_authentication_failed_event c r s) = as_user_info s"
  "as_remote_ip (emit_authentication_failed_event c r s) = as_remote_ip s"
  "as_protocol (emit_authentication_failed_event c r s) = as_protocol s"
  "as_target_name (emit_authentication_failed_event c r s) = as_target_name s"
  "as_force_rejected (emit_authentication_failed_event c r s) = as_force_rejected s"
  "as_policy (emit_authentication_failed_event c r s) = as_policy s"
  "as_valid_credentials (emit_authentication_failed_event c r s) = as_valid_credentials s"
  "as_started (emit_authentication_failed_event c r s) = as_started s"
  "as_identification_string (emit_authentication_failed_event c r s) = as_identification_string s"
  "as_pending_step_up (emit_authentication_failed_event c r s) = as_pending_step_up s"
  "as_web_approval_from_grace_bypass (emit_authentication_failed_event c r s) = as_web_approval_from_grace_bypass s"
  "as_signals (emit_authentication_failed_event c r s) = as_signals s"
  "as_last_result (emit_authentication_failed_event c r s) = as_last_result s"
  "as_authenticated_event_emitted (emit_authentication_failed_event c r s)
     = as_authenticated_event_emitted s"
  "current_verification_state (emit_authentication_failed_event c r s) = current_verification_state s"
  by (simp_all add: emit_authentication_failed_event_def Let_def)

lemma maybe_update_frame [simp]:
  "as_session_id (fst (maybe_update_verification_state E s)) = as_session_id s"
  "as_user_info (fst (maybe_update_verification_state E s)) = as_user_info s"
  "as_remote_ip (fst (maybe_update_verification_state E s)) = as_remote_ip s"
  "as_protocol (fst (maybe_update_verification_state E s)) = as_protocol s"
  "as_target_name (fst (maybe_update_verification_state E s)) = as_target_name s"
  "as_force_rejected (fst (maybe_update_verification_state E s)) = as_force_rejected s"
  "as_policy (fst (maybe_update_verification_state E s)) = as_policy s"
  "as_valid_credentials (fst (maybe_update_verification_state E s)) = as_valid_credentials s"
  "as_started (fst (maybe_update_verification_state E s)) = as_started s"
  "as_identification_string (fst (maybe_update_verification_state E s)) = as_identification_string s"
  "as_pending_step_up (fst (maybe_update_verification_state E s)) = as_pending_step_up s"
  "as_web_approval_from_grace_bypass (fst (maybe_update_verification_state E s)) = as_web_approval_from_grace_bypass s"
  "current_verification_state (fst (maybe_update_verification_state E s))
     = current_verification_state s"
  by (simp_all add: maybe_update_verification_state_def Let_def)

lemma maybe_update_result [simp]:
  "snd (maybe_update_verification_state E s) = current_verification_state s"
  by (simp add: maybe_update_verification_state_def Let_def)

lemma maybe_update_last_result [simp]:
  "as_last_result (fst (maybe_update_verification_state E s)) = Some (current_verification_state s)"
  by (simp add: maybe_update_verification_state_def Let_def)

lemma fst_submit_credential:
  "fst (submit_credential E V c s) =
     (case V (info_username (as_user_info s)) c of
        Inl e \<Rightarrow> s
      | Inr (Some stored) \<Rightarrow> fst (maybe_update_verification_state E
          (s\<lparr> as_valid_credentials := as_valid_credentials s @ [Valid_Stored stored] \<rparr>))
      | Inr None \<Rightarrow> emit_authentication_failed_event (Some c) ''invalid credential'' s)"
  by (simp add: submit_credential_def Let_def split: sum.splits option.splits prod.splits)

lemmas auth_step_defs =
  fst_submit_credential require_step_up_def add_web_user_approval_def
  add_web_user_approval_via_grace_bypass_def reject_def

section \<open>Steps keep invariants\<close>

text \<open>
  A property of states that creation establishes and every step keeps holds in every
  reachable state.
\<close>

lemma auth_run_invariant:
  assumes "auth_run E V ops s t" and "P s"
    and "\<And>op s t. P s \<Longrightarrow> auth_step E V op s t \<Longrightarrow> P t"
  shows "P t"
  using assms(1,2) by (induction rule: auth_run.induct) (auto intro: assms(3))

lemma auth_reachable_invariant:
  assumes "auth_reachable E V s"
    and "\<And>now rnd sid ip info prot tgt pol. P (auth_state_new E now rnd sid ip info prot tgt pol)"
    and "\<And>op s t. P s \<Longrightarrow> auth_step E V op s t \<Longrightarrow> P t"
  shows "P s"
proof -
  obtain now rnd sid ip info prot tgt pol ops
    where run: "auth_run E V ops (auth_state_new E now rnd sid ip info prot tgt pol) s"
    using assms(1) unfolding auth_reachable_def by blast
  show ?thesis
    using auth_run_invariant [where P = P, OF run assms(2)] assms(3) by blast
qed

lemma auth_step_identity:
  assumes "auth_step E V op s t"
  shows "as_user_info t = as_user_info s \<and> as_policy t = as_policy s \<and> as_protocol t = as_protocol s
    \<and> as_session_id t = as_session_id s \<and> as_target_name t = as_target_name s
    \<and> as_remote_ip t = as_remote_ip s"
  using assms
  by (induction rule: auth_step.induct)
     (auto simp: auth_step_defs split: sum.splits option.splits)

text \<open>Every stored credential on the state was returned by the validator for its user.\<close>

definition validated :: "validator \<Rightarrow> auth_state \<Rightarrow> bool" where
  "validated V s \<longleftrightarrow>
     (\<forall>stored. Valid_Stored stored \<in> set (as_valid_credentials s) \<longrightarrow>
        (\<exists>c. V (info_username (as_user_info s)) c = Inr (Some stored)))"

lemma validated_new: "validated V (auth_state_new E now rnd sid ip info prot tgt pol)"
  by (simp add: validated_def auth_state_new_def)

lemma validated_step:
  assumes "validated V s" and "auth_step E V op s t"
  shows "validated V t"
  using assms(2,1)
  by (induction rule: auth_step.induct)
     (auto simp: auth_step_defs validated_def split: sum.splits option.splits)

text \<open>The channel: its last value is the current verdict, and no two neighbours are equal.\<close>

definition signals_in_sync :: "auth_state \<Rightarrow> bool" where
  "signals_in_sync s \<longleftrightarrow>
     as_signals s \<noteq> [] \<and> last (as_signals s) = current_verification_state s
   \<and> as_last_result s = Some (current_verification_state s) \<and> distinct_adj (as_signals s)"

lemma distinct_adj_snoc:
  "distinct_adj xs \<Longrightarrow> (xs \<noteq> [] \<Longrightarrow> last xs \<noteq> x) \<Longrightarrow> distinct_adj (xs @ [x])"
  by (cases "xs = []") (simp_all add: distinct_adj_append_iff)

text \<open>Whatever an operation did to the verdict, the update brings the channel in step.\<close>

lemma maybe_update_in_sync:
  assumes "distinct_adj (as_signals s)"
    and "as_signals s = [] \<longleftrightarrow> as_last_result s = None"
    and "\<And>r. as_last_result s = Some r \<Longrightarrow> last (as_signals s) = r"
  shows "signals_in_sync (fst (maybe_update_verification_state E s))"
  using assms
  by (auto simp: signals_in_sync_def maybe_update_verification_state_def Let_def
      intro!: distinct_adj_snoc)

lemma signals_in_sync_new: "signals_in_sync (auth_state_new E now rnd sid ip info prot tgt pol)"
  unfolding auth_state_new_def by (rule maybe_update_in_sync) simp_all

lemma signals_in_sync_update:
  "signals_in_sync s \<Longrightarrow> as_signals s' = as_signals s \<Longrightarrow> as_last_result s' = as_last_result s \<Longrightarrow>
   signals_in_sync (fst (maybe_update_verification_state E s'))"
  by (rule maybe_update_in_sync) (auto simp: signals_in_sync_def)

lemma signals_in_sync_step:
  assumes "signals_in_sync s" and "auth_step E V op s t"
  shows "signals_in_sync t"
  using assms(2,1)
proof (induction rule: auth_step.induct)
  case (submit c s)
  then show ?case
    by (auto simp: fst_submit_credential signals_in_sync_update split: sum.splits option.splits)
       (simp_all add: signals_in_sync_def)
next
  case (emit_authenticated s)
  then show ?case by (simp add: signals_in_sync_def)
next
  case (emit_bypassed s)
  then show ?case by (simp add: signals_in_sync_def)
next
  case (emit_failed c r s)
  then show ?case by (simp add: signals_in_sync_def)
qed (simp_all add: auth_step_defs signals_in_sync_update)

text \<open>The audit log: the authenticated event appears at most once, and with the flag.\<close>

fun is_authenticated_event :: "audit_event \<Rightarrow> bool" where
  "is_authenticated_event (UserAuthenticated _ _ _) = True"
| "is_authenticated_event _ = False"

definition authenticated_events :: "auth_state \<Rightarrow> audit_event list" where
  "authenticated_events s = filter is_authenticated_event (as_audit s)"

definition audit_consistent :: "auth_state \<Rightarrow> bool" where
  "audit_consistent s \<longleftrightarrow>
     length (authenticated_events s) = (if as_authenticated_event_emitted s then 1 else 0)"

definition accepted_audited :: "auth_state \<Rightarrow> bool" where
  "accepted_audited s \<longleftrightarrow>
     audit_consistent s
   \<and> ((\<exists>r\<in>set (as_signals s). is_Accepted r) \<longrightarrow> as_authenticated_event_emitted s)
   \<and> ((\<exists>r. as_last_result s = Some r \<and> is_Accepted r) \<longrightarrow> as_authenticated_event_emitted s)"

lemma accepted_audited_frame:
  "accepted_audited s \<Longrightarrow> as_signals t = as_signals s \<Longrightarrow> as_last_result t = as_last_result s \<Longrightarrow>
   as_audit t = as_audit s \<Longrightarrow> as_authenticated_event_emitted t = as_authenticated_event_emitted s \<Longrightarrow>
   accepted_audited t"
  by (simp add: accepted_audited_def audit_consistent_def authenticated_events_def)

lemma emit_authenticated_audited:
  "accepted_audited s \<Longrightarrow> accepted_audited (emit_authenticated_event_once E s)"
  by (auto simp: accepted_audited_def audit_consistent_def authenticated_events_def
      emit_authenticated_event_once_def split: auth_result.splits)

lemma emit_authenticated_flag:
  "is_Accepted (current_verification_state s) \<Longrightarrow>
   as_authenticated_event_emitted (emit_authenticated_event_once E s)"
  by (auto simp: emit_authenticated_event_once_def split: auth_result.splits)

lemma maybe_update_audited:
  assumes "accepted_audited s"
  shows "accepted_audited (fst (maybe_update_verification_state E s))"
proof -
  have "accepted_audited (emit_authenticated_event_once E s)"
    using assms by (rule emit_authenticated_audited)
  then show ?thesis
    using assms emit_authenticated_flag [of s E]
    by (auto simp: maybe_update_verification_state_def Let_def accepted_audited_def
        audit_consistent_def authenticated_events_def)
qed

lemma accepted_audited_new: "accepted_audited (auth_state_new E now rnd sid ip info prot tgt pol)"
  unfolding auth_state_new_def
  by (rule maybe_update_audited)
     (simp add: accepted_audited_def audit_consistent_def authenticated_events_def)

lemma accepted_audited_log:
  "accepted_audited s \<Longrightarrow> accepted_audited (emit_web_approval_bypassed_event s)"
  "accepted_audited s \<Longrightarrow> accepted_audited (emit_authentication_failed_event c r s)"
  by (auto simp: accepted_audited_def audit_consistent_def authenticated_events_def
      emit_web_approval_bypassed_event_def emit_authentication_failed_event_def Let_def)

lemma accepted_audited_step:
  assumes "accepted_audited s" and "auth_step E V op s t"
  shows "accepted_audited t"
  using assms(2,1)
  by (induction rule: auth_step.induct)
     (auto simp: auth_step_defs emit_authenticated_audited accepted_audited_log
       split: sum.splits option.splits
       intro!: maybe_update_audited intro: accepted_audited_frame)

section \<open>Clients of the policy interface\<close>

context credential_policy
begin

lemma new_state_not_accepted:
  "current_verification_state (auth_state_new E now rnd sid ip info prot tgt pol) \<noteq> Accepted u"
  by (simp add: auth_state_new_def current_verification_state_def valid_credential_kinds_def
      has_real_web_approval_def split: policy_response.splits)
     (use empty_insufficient in blast)

lemma submit_keeps_accepted:
  assumes "as_policy s = pol" and "current_verification_state s = Accepted u"
  shows "current_verification_state (fst (submit_credential E V c s)) = Accepted u"
proof -
  have "pol (as_protocol s) (insert k (valid_credential_kinds s)) = Policy_Ok" for k
    using assms ok_mono [of "as_protocol s" "valid_credential_kinds s"]
    by (auto simp: current_verification_state_def split: if_splits policy_response.splits)
  then show ?thesis
    using assms
    by (auto simp: fst_submit_credential current_verification_state_def valid_credential_kinds_def
        has_real_web_approval_def split: if_splits sum.splits option.splits policy_response.splits)
qed

lemma accepted_has_credential:
  "as_policy s = pol \<Longrightarrow> current_verification_state s = Accepted u \<Longrightarrow> as_valid_credentials s \<noteq> []"
  using ok_nonempty
  by (auto simp: current_verification_state_def valid_credential_kinds_def
      split: if_splits policy_response.splits)

end

section \<open>Further invariants\<close>

text \<open>The authenticated event is only emitted for a verdict that is also sent.\<close>

definition emission_signalled :: "auth_state \<Rightarrow> bool" where
  "emission_signalled s \<longleftrightarrow>
     signals_in_sync s
   \<and> (as_authenticated_event_emitted s \<longrightarrow> (\<exists>r\<in>set (as_signals s). is_Accepted r))"

lemma emit_authenticated_cases:
  "as_authenticated_event_emitted (emit_authenticated_event_once E s) \<Longrightarrow>
   as_authenticated_event_emitted s \<or> is_Accepted (current_verification_state s)"
  by (auto simp: emit_authenticated_event_once_def split: if_splits auth_result.splits)

lemma maybe_update_signalled:
  assumes "signals_in_sync (fst (maybe_update_verification_state E s))"
    and "as_authenticated_event_emitted s \<longrightarrow> (\<exists>r\<in>set (as_signals s). is_Accepted r)"
  shows "emission_signalled (fst (maybe_update_verification_state E s))"
  using assms emit_authenticated_cases [of E s]
  by (auto simp: emission_signalled_def maybe_update_verification_state_def Let_def)

lemma emission_signalled_new: "emission_signalled (auth_state_new E now rnd sid ip info prot tgt pol)"
  using signals_in_sync_new unfolding auth_state_new_def
  by (rule maybe_update_signalled) simp

lemma emission_signalled_emit:
  assumes "emission_signalled s"
  shows "emission_signalled (emit_authenticated_event_once E s)"
proof -
  have "last (as_signals s) = current_verification_state s" and "as_signals s \<noteq> []"
    using assms by (auto simp: emission_signalled_def signals_in_sync_def)
  then have "current_verification_state s \<in> set (as_signals s)"
    by (metis last_in_set)
  then show ?thesis
    using assms emit_authenticated_cases [of E s]
    by (auto simp: emission_signalled_def signals_in_sync_def)
qed

lemma emission_signalled_update:
  "emission_signalled s \<Longrightarrow> as_signals s' = as_signals s \<Longrightarrow> as_last_result s' = as_last_result s \<Longrightarrow>
   as_authenticated_event_emitted s' = as_authenticated_event_emitted s \<Longrightarrow>
   emission_signalled (fst (maybe_update_verification_state E s'))"
  by (rule maybe_update_signalled) (auto simp: emission_signalled_def signals_in_sync_update)

lemma emission_signalled_step:
  assumes "emission_signalled s" and "auth_step E V op s t"
  shows "emission_signalled t"
proof -
  have sync: "signals_in_sync t"
    using assms signals_in_sync_step by (auto simp: emission_signalled_def)
  from assms(2,1) show ?thesis
    by (induction rule: auth_step.induct)
       (auto simp: auth_step_defs emission_signalled_emit emission_signalled_update
          split: sum.splits option.splits,
        simp_all add: emission_signalled_def signals_in_sync_def)
qed

text \<open>A pending step-up that has no approval collected by this attempt stays unsatisfied.\<close>

lemma step_up_unsatisfied_step:
  assumes "as_pending_step_up s \<and> \<not> has_real_web_approval s" and "auth_step E V op s t"
    and "op \<noteq> Op_WebApproval"
  shows "as_pending_step_up t \<and> \<not> has_real_web_approval t"
  using assms(2,1,3)
  by (induction rule: auth_step.induct)
     (auto simp: auth_step_defs has_real_web_approval_def split: sum.splits option.splits)

lemma step_up_unsatisfied_run:
  assumes "auth_run E V ops s t" and "as_pending_step_up s \<and> \<not> has_real_web_approval s"
    and "Op_WebApproval \<notin> set ops"
  shows "as_pending_step_up t \<and> \<not> has_real_web_approval t"
  using assms
proof (induction rule: auth_run.induct)
  case (run_cons op s t ops u)
  have "as_pending_step_up t \<and> \<not> has_real_web_approval t"
    using step_up_unsatisfied_step [OF run_cons.prems(1) run_cons.hyps(1)] run_cons.prems(2) by auto
  with run_cons show ?case by simp
qed simp

lemma force_rejected_step:
  assumes "as_force_rejected s" and "auth_step E V op s t"
  shows "as_force_rejected t"
  using assms(2,1)
  by (induction rule: auth_step.induct) (auto simp: auth_step_defs split: sum.splits option.splits)

lemma submits_keep_accepted:
  assumes "auth_run E V ops s t" and "set ops \<subseteq> range Op_Submit" and "credential_policy (as_policy s)"
    and "current_verification_state s = Accepted u"
  shows "current_verification_state t = Accepted u"
  using assms
proof (induction rule: auth_run.induct)
  case (run_cons op s t ops w)
  then obtain c where op: "op = Op_Submit c" by auto
  with run_cons.hyps(1) have t: "t = fst (submit_credential E V c s)" by simp
  have "current_verification_state t = Accepted u"
    unfolding t
    by (rule credential_policy.submit_keeps_accepted [OF run_cons.prems(2) refl run_cons.prems(3)])
  moreover have "as_policy t = as_policy s"
    using auth_step_identity [OF run_cons.hyps(1)] by simp
  ultimately show ?case using run_cons by simp
qed simp

section \<open>Properties\<close>

text \<open>
  C2: an attempt that reports acceptance has not been rejected, its policy is satisfied by
  the kinds validated so far, every stored credential it counts was returned by the
  validator for this very user name, and if a step-up is pending then a web approval
  was collected by this attempt.
\<close>

theorem accepted_is_justified:
  assumes "auth_reachable E V s" and "verify s = Accepted u"
  shows "u = as_user_info s \<and> \<not> as_force_rejected s
    \<and> as_policy s (as_protocol s) (valid_credential_kinds s) = Policy_Ok
    \<and> (\<forall>stored. Valid_Stored stored \<in> set (as_valid_credentials s) \<longrightarrow>
          (\<exists>c. V (info_username u) c = Inr (Some stored)))
    \<and> (as_pending_step_up s \<longrightarrow> has_real_web_approval s)"
proof -
  have "validated V s"
    by (rule auth_reachable_invariant [where P = "validated V", OF assms(1)])
       (auto intro: validated_new validated_step)
  with assms(2) show ?thesis
    by (auto simp: verify_def current_verification_state_def validated_def
        split: if_splits policy_response.splits)
qed

text \<open>Rejection is final: no further operation makes the attempt anything but rejected.\<close>

theorem rejection_is_final:
  assumes "auth_run E V ops (reject E s) t"
  shows "verify t = Rejected"
proof -
  have "as_force_rejected t"
    by (rule auth_run_invariant [where P = as_force_rejected, OF assms])
       (auto simp: reject_def dest: force_rejected_step)
  then show ?thesis by (simp add: verify_def current_verification_state_def)
qed

text \<open>
  The broadcast channel of a reachable attempt has carried its current verdict last, and
  never the same verdict twice in a row; so whoever subscribes under the lock and then
  listens sees every change of the verdict.
\<close>

theorem channel_carries_current_verdict:
  assumes "auth_reachable E V s"
  shows "as_signals s \<noteq> [] \<and> last (as_signals s) = verify s \<and> distinct_adj (as_signals s)"
proof -
  have "signals_in_sync s"
    by (rule auth_reachable_invariant [where P = "signals_in_sync", OF assms])
       (auto intro: signals_in_sync_new signals_in_sync_step)
  then show ?thesis by (simp add: signals_in_sync_def verify_def)
qed

text \<open>
  The audit log of a reachable attempt has at most one authentication event, and has one
  exactly when the attempt was accepted at some moment.
\<close>

theorem authenticated_event_once:
  assumes "auth_reachable E V s"
  shows "length (authenticated_events s) =
    (if \<exists>r\<in>set (as_signals s). is_Accepted r then 1 else 0)"
proof -
  have "accepted_audited s"
    by (rule auth_reachable_invariant [where P = "accepted_audited", OF assms])
       (auto intro: accepted_audited_new accepted_audited_step)
  moreover have "emission_signalled s"
    by (rule auth_reachable_invariant [where P = "emission_signalled", OF assms])
       (auto intro: emission_signalled_new emission_signalled_step)
  ultimately show ?thesis
    by (auto simp: accepted_audited_def audit_consistent_def emission_signalled_def)
qed

text \<open>
  C33: once a step-up gate has fired on an attempt without a web approval of its own, no
  sequence of operations without a real approval gets it accepted: further credentials do
  not, and an approval remembered from an earlier attempt (the grace-period bypass) does
  not either.
\<close>

theorem step_up_needs_fresh_approval:
  assumes "\<not> has_real_web_approval s" and "auth_run E V ops (require_step_up E s) t"
    and "Op_WebApproval \<notin> set ops"
  shows "\<not> is_Accepted (verify t)"
proof -
  have "as_pending_step_up (require_step_up E s) \<and> \<not> has_real_web_approval (require_step_up E s)"
    using assms(1) by (auto simp: require_step_up_def has_real_web_approval_def)
  from step_up_unsatisfied_run [OF assms(2) this assms(3)] show ?thesis
    by (simp add: verify_def current_verification_state_def)
qed

text \<open>
  Submitting a credential authorises exactly when this credential was validated and the
  resulting verdict is acceptance; a wrong credential changes neither the verdict nor the
  credentials counted, and so a wrong credential on an already accepted attempt never
  authorises.
\<close>

theorem submission_authorises_iff:
  "case submit_credential E V c s of
     (t, Inl e) \<Rightarrow> t = s \<and> V (info_username (as_user_info s)) c = Inl e
   | (t, Inr outcome) \<Rightarrow>
       (into_accepted outcome = Inr u \<longleftrightarrow>
          (\<exists>stored. V (info_username (as_user_info s)) c = Inr (Some stored)) \<and> verify t = Accepted u)
     \<and> (V (info_username (as_user_info s)) c = Inr None \<longrightarrow>
          verify t = verify s \<and> as_valid_credentials t = as_valid_credentials s
        \<and> \<not> outcome_is_valid outcome)"
proof (cases "V (info_username (as_user_info s)) c")
  case (Inl e)
  then show ?thesis by (simp add: submit_credential_def)
next
  case (Inr r)
  show ?thesis
  proof (cases r)
    case None
    with Inr show ?thesis by (simp add: submit_credential_def Let_def verify_def)
  next
    case (Some stored)
    let ?s = "s\<lparr> as_valid_credentials := as_valid_credentials s @ [Valid_Stored stored] \<rparr>"
    have "submit_credential E V c s =
        (fst (maybe_update_verification_state E ?s), Inr (Outcome_Valid (current_verification_state ?s)))"
      using Inr Some by (simp add: submit_credential_def Let_def case_prod_unfold)
    then show ?thesis
      using Inr Some by (cases "current_verification_state ?s") (simp_all add: verify_def)
  qed
qed

text \<open>
  Under every policy the program builds, a new attempt is never accepted before a
  credential arrives, and once accepted it stays accepted whatever credentials are
  submitted afterwards.
\<close>

theorem built_policies_accept_stably:
  "\<not> is_Accepted (verify (auth_state_new E now rnd sid ip info prot tgt (is_sufficient q)))
   \<and> (as_policy s = is_sufficient q \<longrightarrow> verify s = Accepted u \<longrightarrow>
        set ops \<subseteq> range Op_Submit \<longrightarrow> auth_run E V ops s t \<longrightarrow> verify t = Accepted u)"
  using submits_keep_accepted [of E V ops s t u] built_policy.credential_policy_axioms [of q]
    built_policy.new_state_not_accepted [of E now rnd sid ip info prot tgt q]
  by (auto simp: verify_def is_Accepted_def)

section \<open>A concrete attempt\<close>

text \<open>A password login over SSH, for the theorems above at concrete inputs.\<close>

definition sample_info :: auth_state_user_info where
  "sample_info = \<lparr> info_id = 7, info_username = ''alice'' \<rparr>"

definition sample_stored :: stored_credential where
  "sample_stored = StoredCredential Stored_Password 1 2"

definition sample_validator :: validator where
  "sample_validator username c =
     (if username = ''alice'' \<and> c = Cred_Password ''secret'' then Inr (Some sample_stored)
      else Inr None)"

definition sample_policy :: policy where
  "sample_policy = AnySingleCredentialPolicy {Kind_Password, Kind_PublicKey}"

definition sample_attempt :: auth_state where
  "sample_attempt = auth_state_new sample_env 0 (1, 2, 3, 4) 5 (Some (V4 1)) sample_info Ssh ''host''
     (is_sufficient sample_policy)"

definition sample_accepted :: auth_state where
  "sample_accepted = fst (submit_credential sample_env sample_validator (Cred_Password ''secret'')
     sample_attempt)"

lemmas sample_defs = sample_attempt_def sample_accepted_def sample_info_def sample_stored_def
  sample_validator_def sample_policy_def

lemma sample_attempt_frame:
  "as_user_info sample_attempt = sample_info" "as_policy sample_attempt = is_sufficient sample_policy"
  "as_protocol sample_attempt = Ssh" "as_valid_credentials sample_attempt = []"
  "as_force_rejected sample_attempt = False" "as_pending_step_up sample_attempt = False"
  "as_web_approval_from_grace_bypass sample_attempt = False"
  by (simp_all add: sample_attempt_def auth_state_new_def)

lemma sample_verify: "verify sample_accepted = Accepted sample_info"
  by (simp add: sample_accepted_def verify_def fst_submit_credential sample_validator_def
      sample_attempt_frame sample_info_def current_verification_state_def valid_credential_kinds_def
      has_real_web_approval_def sample_policy_def sample_stored_def)

lemma sample_run:
  "auth_run sample_env sample_validator [Op_Submit (Cred_Password ''secret'')]
     sample_attempt sample_accepted"
  by (auto simp: sample_accepted_def intro!: auth_run.intros)

lemma sample_reachable: "auth_reachable sample_env sample_validator sample_accepted"
  unfolding auth_reachable_def by (intro exI, rule sample_run [unfolded sample_attempt_def])

theorem accepted_is_justified_witness:
  "sample_info = as_user_info sample_accepted \<and> \<not> as_force_rejected sample_accepted
    \<and> as_policy sample_accepted (as_protocol sample_accepted) (valid_credential_kinds sample_accepted)
        = Policy_Ok"
  using accepted_is_justified [OF sample_reachable sample_verify] by blast

lemma sample_reject_run:
  "auth_run sample_env sample_validator [Op_Submit (Cred_Password ''secret'')]
     (reject sample_env sample_attempt)
     (fst (submit_credential sample_env sample_validator (Cred_Password ''secret'')
        (reject sample_env sample_attempt)))"
  by (auto intro!: auth_run.intros)

theorem rejection_is_final_witness:
  "verify (fst (submit_credential sample_env sample_validator (Cred_Password ''secret'')
     (reject sample_env sample_attempt))) = Rejected"
  by (rule rejection_is_final [OF sample_reject_run])

theorem channel_carries_current_verdict_witness:
  "last (as_signals sample_accepted) = Accepted sample_info"
  using channel_carries_current_verdict [OF sample_reachable] sample_verify by simp

theorem authenticated_event_once_witness:
  "length (authenticated_events sample_accepted)
     = (if \<exists>r\<in>set (as_signals sample_accepted). is_Accepted r then 1 else 0)"
  by (rule authenticated_event_once [OF sample_reachable])

lemma sample_step_up_run:
  "auth_run sample_env sample_validator [Op_GraceBypass]
     (require_step_up sample_env sample_accepted)
     (fst (add_web_user_approval_via_grace_bypass sample_env
        (require_step_up sample_env sample_accepted)))"
  by (auto intro!: auth_run.intros)

lemma sample_no_web_approval: "\<not> has_real_web_approval sample_accepted"
  by (simp add: has_real_web_approval_def sample_accepted_def fst_submit_credential
      sample_validator_def sample_attempt_frame sample_info_def)

theorem step_up_needs_fresh_approval_witness:
  "\<not> is_Accepted (verify (fst (add_web_user_approval_via_grace_bypass sample_env
        (require_step_up sample_env sample_accepted))))"
  by (rule step_up_needs_fresh_approval [OF sample_no_web_approval sample_step_up_run]) simp

theorem submission_authorises_iff_witness:
  "verify (fst (submit_credential sample_env sample_validator (Cred_Password ''wrong'') sample_accepted))
     = verify sample_accepted"
proof -
  let ?r = "submit_credential sample_env sample_validator (Cred_Password ''wrong'') sample_accepted"
  have v: "sample_validator (info_username (as_user_info sample_accepted)) (Cred_Password ''wrong'')
      = Inr None"
    by (simp add: sample_validator_def)
  obtain t r where r: "?r = (t, r)" by (cases ?r) auto
  show ?thesis
    using submission_authorises_iff [where E = sample_env and V = sample_validator
        and c = "Cred_Password ''wrong''" and s = sample_accepted] v
    unfolding r by (cases r) simp_all
qed

theorem built_policies_accept_stably_witness:
  "verify (fst (submit_credential sample_env sample_validator (Cred_Password ''wrong'') sample_accepted))
     = Accepted sample_info"
proof -
  have pol: "as_policy sample_accepted = is_sufficient sample_policy"
    using auth_step_identity [OF auth_step.submit] sample_attempt_frame
    unfolding sample_accepted_def by metis
  have run: "auth_run sample_env sample_validator [Op_Submit (Cred_Password ''wrong'')] sample_accepted
      (fst (submit_credential sample_env sample_validator (Cred_Password ''wrong'') sample_accepted))"
    by (auto intro!: auth_run.intros)
  show ?thesis
    by (rule built_policies_accept_stably [THEN conjunct2, rule_format, OF pol sample_verify _ run]) simp
qed

end
