(* ===== verification/Tables.thy ===== *)
theory Tables
  imports Prelude
begin

text \<open>
  Database tables as lists of rows: what \<open>find\<close>, \<open>update_many\<close>, \<open>delete_many\<close> and
  \<open>insert\<close> of the entity layer do, with the number of rows affected. A locale states what
  an update of rows promises to the readers of a table keyed by a column.
\<close>

definition find_by :: "('r \<Rightarrow> 'k) \<Rightarrow> 'k \<Rightarrow> 'r list \<Rightarrow> 'r option" where
  "find_by key k rows = find (\<lambda>r. key r = k) rows"

definition rows_affected :: "('r \<Rightarrow> bool) \<Rightarrow> 'r list \<Rightarrow> nat" where
  "rows_affected P rows = length (filter P rows)"

definition update_many :: "('r \<Rightarrow> bool) \<Rightarrow> ('r \<Rightarrow> 'r) \<Rightarrow> 'r list \<Rightarrow> 'r list" where
  "update_many P f rows = map (\<lambda>r. if P r then f r else r) rows"

definition delete_many :: "('r \<Rightarrow> bool) \<Rightarrow> 'r list \<Rightarrow> 'r list" where
  "delete_many P rows = filter (\<lambda>r. \<not> P r) rows"

definition unique_keys :: "('r \<Rightarrow> 'k) \<Rightarrow> 'r list \<Rightarrow> bool" where
  "unique_keys key rows \<longleftrightarrow> distinct (map key rows)"

section \<open>Finding rows\<close>

lemma find_by_Nil [simp]: "find_by key k [] = None"
  by (simp add: find_by_def)

lemma find_by_Cons [simp]:
  "find_by key k (r # rows) = (if key r = k then Some r else find_by key k rows)"
  by (simp add: find_by_def)

lemma find_by_append [simp]:
  "find_by key k (xs @ ys) = (case find_by key k xs of None \<Rightarrow> find_by key k ys | Some r \<Rightarrow> Some r)"
  by (induction xs) auto

lemma find_by_SomeD: "find_by key k rows = Some r \<Longrightarrow> r \<in> set rows \<and> key r = k"
  by (induction rows) (auto split: if_splits)

lemma find_by_None_iff: "find_by key k rows = None \<longleftrightarrow> k \<notin> key ` set rows"
  by (induction rows) auto

lemma find_by_unique:
  assumes "unique_keys key rows" and "r \<in> set rows"
  shows "find_by key (key r) rows = Some r"
  using assms by (induction rows) (auto simp: unique_keys_def)

lemma find_by_unique_iff:
  assumes "unique_keys key rows"
  shows "find_by key k rows = Some r \<longleftrightarrow> r \<in> set rows \<and> key r = k"
  using find_by_unique [OF assms] find_by_SomeD by metis

lemma find_filter: "find P xs = (case filter P xs of [] \<Rightarrow> None | x # _ \<Rightarrow> Some x)"
  by (induction xs) auto

section \<open>Updating and deleting rows\<close>

lemma update_many_Nil [simp]: "update_many P f [] = []"
  by (simp add: update_many_def)

lemma update_many_Cons [simp]:
  "update_many P f (r # rows) = (if P r then f r else r) # update_many P f rows"
  by (simp add: update_many_def)

lemma update_many_append [simp]:
  "update_many P f (xs @ ys) = update_many P f xs @ update_many P f ys"
  by (simp add: update_many_def)

lemma length_update_many [simp]: "length (update_many P f rows) = length rows"
  by (simp add: update_many_def)

lemma set_update_many:
  "set (update_many P f rows) = (\<lambda>r. if P r then f r else r) ` set rows"
  by (simp add: update_many_def)

lemma update_many_none [simp]: "(\<And>r. r \<in> set rows \<Longrightarrow> \<not> P r) \<Longrightarrow> update_many P f rows = rows"
  by (simp add: update_many_def map_idI)

lemma update_many_same: "(\<And>r. r \<in> set rows \<Longrightarrow> P r \<Longrightarrow> f r = r) \<Longrightarrow> update_many P f rows = rows"
  by (simp add: update_many_def map_idI)

lemma update_many_cong:
  "(\<And>r. r \<in> set rows \<Longrightarrow> P r \<longleftrightarrow> Q r) \<Longrightarrow> update_many P f rows = update_many Q f rows"
  by (simp add: update_many_def)

lemma rows_affected_0_iff: "rows_affected P rows = 0 \<longleftrightarrow> (\<forall>r\<in>set rows. \<not> P r)"
  by (auto simp: rows_affected_def filter_empty_conv)

lemma rows_affected_pos_iff: "0 < rows_affected P rows \<longleftrightarrow> (\<exists>r\<in>set rows. P r)"
  using rows_affected_0_iff [of P rows] by auto

lemma rows_affected_unique_le:
  assumes "unique_keys key rows" and "\<And>r. P r \<Longrightarrow> key r = k"
  shows "rows_affected P rows \<le> 1"
  using assms(1)
proof (induction rows)
  case Nil
  then show ?case by (simp add: rows_affected_def)
next
  case (Cons r rows)
  show ?case
  proof (cases "P r")
    case True
    have "\<not> P r'" if "r' \<in> set rows" for r'
    proof
      assume "P r'"
      with True have "key r' = key r" using assms(2) by simp
      moreover have "key r \<notin> key ` set rows" using Cons.prems by (simp add: unique_keys_def)
      ultimately show False using that by (metis image_eqI)
    qed
    then have "filter P rows = []" by (simp add: filter_empty_conv)
    with True show ?thesis by (simp add: rows_affected_def)
  next
    case False
    with Cons show ?thesis by (simp add: rows_affected_def unique_keys_def)
  qed
qed

lemma set_delete_many [simp]: "set (delete_many P rows) = {r \<in> set rows. \<not> P r}"
  by (auto simp: delete_many_def)

lemma unique_keys_delete_many [intro]: "unique_keys key rows \<Longrightarrow> unique_keys key (delete_many P rows)"
  by (simp add: unique_keys_def delete_many_def distinct_map_filter)

lemma unique_keys_append1:
  "unique_keys key rows \<Longrightarrow> find_by key (key r) rows = None \<Longrightarrow> unique_keys key (rows @ [r])"
  by (auto simp: unique_keys_def find_by_None_iff)

lemma find_by_delete_many:
  "(\<And>r. r \<in> set rows \<Longrightarrow> key r = k \<Longrightarrow> \<not> P r) \<Longrightarrow> find_by key k (delete_many P rows) = find_by key k rows"
  by (induction rows) (auto simp: delete_many_def)

lemma unique_keys_eq:
  "unique_keys key rows \<Longrightarrow> r \<in> set rows \<Longrightarrow> r' \<in> set rows \<Longrightarrow> key r = key r' \<Longrightarrow> r = r'"
  by (auto simp: unique_keys_def distinct_map dest: inj_onD)

text \<open>Replacing the row of a key.\<close>

lemma map_replace_row:
  assumes "unique_keys key rows" and "e \<in> set rows" and "g m = g e"
  shows "map g (update_many (\<lambda>r. key r = key e) (\<lambda>_. m) rows) = map g rows"
  using assms by (auto simp: update_many_def dest: unique_keys_eq)

lemma set_replace_row:
  assumes "unique_keys key rows" and "e \<in> set rows"
  shows "set (update_many (\<lambda>r. key r = key e) (\<lambda>_. m) rows) = insert m (set rows - {e})"
  using assms by (auto simp: set_update_many image_iff dest: unique_keys_eq)

text \<open>An update that hits one row of a keyed table.\<close>

lemma update_one_split:
  assumes "unique_keys key rows" and "row \<in> set rows" and "P row" and "\<And>r. P r \<Longrightarrow> key r = key row"
  shows "\<exists>xs ys. rows = xs @ row # ys \<and> update_many P f rows = xs @ f row # ys \<and> rows_affected P rows = 1"
proof -
  obtain xs ys where rows: "rows = xs @ row # ys" using assms(2) by (auto dest: split_list)
  have "\<not> P r" if "r \<in> set xs \<union> set ys" for r
    using assms(1,4) that by (auto simp: rows unique_keys_def) (metis image_eqI)+
  then have "update_many P f xs = xs" "update_many P f ys = ys" "filter P xs = []" "filter P ys = []"
    by (auto simp: filter_empty_conv)
  with assms(3) show ?thesis
    by (intro exI [of _ xs] exI [of _ ys]) (simp add: rows rows_affected_def)
qed

lemma find_unique_and:
  assumes "unique_keys key rows"
  shows "(case find (\<lambda>r. key r = k) rows of None \<Rightarrow> None | Some r \<Rightarrow> if Q r then Some r else None)
     = find (\<lambda>r. key r = k \<and> Q r) rows"
  using assms
proof (induction rows)
  case (Cons r rows)
  have "find (\<lambda>r. key r = k \<and> Q r) rows = None" if "key r = k"
    using that Cons.prems by (auto simp: find_None_iff unique_keys_def) (metis image_eqI)
  with Cons show ?case by (auto simp: unique_keys_def)
qed simp

text \<open>An update of rows that leaves their key alone: the contract of \<open>UPDATE ... SET\<close>.\<close>

locale row_update =
  fixes key :: "'r \<Rightarrow> 'k" and f :: "'r \<Rightarrow> 'r"
  assumes key_kept: "key (f r) = key r"
begin

lemma map_key_update: "map key (update_many P f rows) = map key rows"
  by (simp add: update_many_def key_kept)

lemma unique_update: "unique_keys key (update_many P f rows) \<longleftrightarrow> unique_keys key rows"
  by (simp add: unique_keys_def map_key_update)

lemma find_update:
  "find_by key k (update_many P f rows)
     = map_option (\<lambda>r. if P r then f r else r) (find_by key k rows)"
  by (induction rows) (auto simp: key_kept)

lemma find_update_key:
  "find_by key k (update_many (\<lambda>r. key r = k') f rows)
     = (if k = k' then map_option f (find_by key k rows) else find_by key k rows)"
  by (induction rows) (auto simp: key_kept)

end

end
