(* ===== verification/Step_Up.thy ===== *)
theory Step_Up
  imports Auth_State Tables
begin

text \<open>
  Periodic re-authentication (\<open>step-up\<close>): the freshness decision of
  \<open>warpgate-core/src/auth/step_up.rs\<close>, the gate at an SSH login and the window of an open SSH
  connection (\<open>warpgate-protocol-ssh/src/server/session.rs\<close>), and the gate of an HTTP session
  (\<open>warpgate-protocol-http/src/step_up.rs\<close>). A \<open>std::time::Duration\<close> is a number of
  nanoseconds; \<open>dmax\<close> is the last instant the \<open>time\<close> crate represents.
\<close>

section \<open>Freshness\<close>

type_synonym duration = nat

definition duration_max :: duration where
  "duration_max = (2 ^ 64 - 1) * 10 ^ 9 + 999999999"

text \<open>\<open>time::Duration::try_from\<close>: the whole seconds must fit an \<open>i64\<close>.\<close>

definition duration_try_from :: "duration \<Rightarrow> int option" where
  "duration_try_from d = (if d div 10 ^ 9 < 2 ^ 63 then Some (int d) else None)"

definition date_checked_add :: "timestamp \<Rightarrow> timestamp \<Rightarrow> int \<Rightarrow> timestamp option" where
  "date_checked_add dmax t d = (if t + d \<le> dmax then Some (t + d) else None)"

definition is_fresh :: "timestamp option \<Rightarrow> duration \<Rightarrow> timestamp \<Rightarrow> bool" where
  "is_fresh last_sso_at interval now =
     (case last_sso_at of
        None \<Rightarrow> False
      | Some lst \<Rightarrow>
          (case duration_try_from interval of
             None \<Rightarrow> False
           | Some interval_td \<Rightarrow> now - lst \<le> interval_td))"

datatype step_up_window_state = NotApplicable | Remaining duration | Expired

definition step_up_window ::
  "timestamp \<Rightarrow> timestamp option \<Rightarrow> duration option \<Rightarrow> timestamp \<Rightarrow> step_up_window_state" where
  "step_up_window dmax last_sso_at interval now =
     (case interval of
        None \<Rightarrow> NotApplicable
      | Some interval \<Rightarrow>
          if \<not> is_fresh last_sso_at interval now then Expired
          else case last_sso_at of
            None \<Rightarrow> Expired
          | Some lst \<Rightarrow>
              (case duration_try_from interval of
                 None \<Rightarrow> Expired
               | Some interval_td \<Rightarrow>
                   (case date_checked_add dmax lst interval_td of
                      None \<Rightarrow> Remaining (86400 * 10 ^ 9)
                    | Some deadline \<Rightarrow>
                        if deadline - now < 0 then Expired else Remaining (nat (deadline - now)))))"

record public_key_row =
  pk_id :: uuid
  pk_user_id :: uuid
  pk_label :: string
  pk_date_added :: "timestamp option"
  pk_last_used :: "timestamp option"
  pk_last_sso_at :: "timestamp option"
  pk_openssh_public_key :: string

definition get_pubkey_last_sso_at :: "public_key_row list \<Rightarrow> uuid \<Rightarrow> timestamp option" where
  "get_pubkey_last_sso_at db pubkey_id =
     (case find_by pk_id pubkey_id db of None \<Rightarrow> None | Some row \<Rightarrow> pk_last_sso_at row)"

definition update_pubkey_last_sso_at ::
  "public_key_row list \<Rightarrow> uuid \<Rightarrow> timestamp \<Rightarrow> public_key_row list \<times> nat" where
  "update_pubkey_last_sso_at db pubkey_id now =
     (update_many (\<lambda>r. pk_id r = pubkey_id) (\<lambda>r. r\<lparr> pk_last_sso_at := Some now \<rparr>) db,
      rows_affected (\<lambda>r. pk_id r = pubkey_id) db)"

interpretation sso_stamp: row_update pk_id "\<lambda>r. r\<lparr> pk_last_sso_at := Some now \<rparr>" for now
  by unfold_locales simp

section \<open>The gate at an SSH login\<close>

definition web_approval_proves_step_up :: "bool \<Rightarrow> bool \<Rightarrow> bool" where
  "web_approval_proves_step_up approval_present approval_was_bypassed
     \<longleftrightarrow> approval_present \<and> \<not> approval_was_bypassed"

text \<open>
  \<open>read\<close> is the query for the stamp of a key, which may fail; \<open>clock\<close> is the instant at which
  the gate looks at a key.
\<close>

type_synonym stamp_read = "uuid \<Rightarrow> timestamp option result"

fun all_keys_fresh ::
  "stamp_read \<Rightarrow> (uuid \<Rightarrow> timestamp) \<Rightarrow> duration \<Rightarrow> bool \<Rightarrow> uuid list \<Rightarrow> bool result" where
  "all_keys_fresh read clock interval all_fresh [] = Inr all_fresh"
| "all_keys_fresh read clock interval all_fresh (pubkey_id # ids) =
     (case read pubkey_id of
        Inl e \<Rightarrow> Inl e
      | Inr lst \<Rightarrow> all_keys_fresh read clock interval
          (all_fresh \<and> is_fresh lst interval (clock pubkey_id)) ids)"

definition matched_key_set :: "auth_state \<Rightarrow> uuid list" where
  "matched_key_set s = remdups_adj (sort (matched_public_key_ids s))"

text \<open>\<open>Inr True\<close>: the login goes on; \<open>Inr False\<close>: a fresh web approval is demanded.\<close>

definition ssh_step_up_gate ::
  "stamp_read \<Rightarrow> (uuid \<Rightarrow> timestamp) \<Rightarrow> duration option \<Rightarrow> auth_state \<Rightarrow> bool result" where
  "ssh_step_up_gate read clock step_up_ssh s =
     (case step_up_ssh of
        None \<Rightarrow> Inr True
      | Some interval \<Rightarrow>
          (let has_stepup = web_approval_proves_step_up
                 (Kind_WebUserApproval \<in> valid_credential_kinds s) (as_web_approval_from_grace_bypass s);
               pubkey_used = Kind_PublicKey \<in> valid_credential_kinds s
           in if pubkey_used \<and> \<not> has_stepup
              then all_keys_fresh read clock interval (matched_key_set s \<noteq> []) (matched_key_set s)
              else Inr True))"

definition ssh_step_up_login ::
  "env \<Rightarrow> stamp_read \<Rightarrow> (uuid \<Rightarrow> timestamp) \<Rightarrow> duration option \<Rightarrow> auth_state
   \<Rightarrow> auth_state \<times> auth_result option result" where
  "ssh_step_up_login E read clock step_up_ssh s =
     (case ssh_step_up_gate read clock step_up_ssh s of
        Inl e \<Rightarrow> (s, Inl e)
      | Inr True \<Rightarrow> (s, Inr None)
      | Inr False \<Rightarrow> (require_step_up E s, Inr (Some (Need {Kind_WebUserApproval}))))"

text \<open>After the login is accepted: the stamps of the matched keys, in order.\<close>

fun stamp_keys ::
  "(uuid \<Rightarrow> timestamp) \<Rightarrow> uuid list \<Rightarrow> public_key_row list \<Rightarrow> public_key_row list" where
  "stamp_keys clock [] db = db"
| "stamp_keys clock (pubkey_id # ids) db =
     stamp_keys clock ids (fst (update_pubkey_last_sso_at db pubkey_id (clock pubkey_id)))"

definition ssh_step_up_stamp ::
  "(uuid \<Rightarrow> timestamp) \<Rightarrow> duration option \<Rightarrow> auth_state \<Rightarrow> public_key_row list
   \<Rightarrow> public_key_row list" where
  "ssh_step_up_stamp clock step_up_ssh s db =
     (if step_up_ssh \<noteq> None \<and> web_approval_proves_step_up
           (Kind_WebUserApproval \<in> valid_credential_kinds s) (as_web_approval_from_grace_bypass s)
      then stamp_keys clock (matched_key_set s) db else db)"

section \<open>The window of an open SSH connection\<close>

record step_up_watch =
  su_pubkeys :: "uuid list option"
  su_recheck :: "timestamp option"
  su_known_deadline :: "timestamp option"
  su_read_failures :: u32
  su_disconnected :: bool
  su_disconnect_description :: string

definition step_up_recheck_max :: duration where "step_up_recheck_max = 10 * 10 ^ 9"
definition step_up_recheck_min :: duration where "step_up_recheck_min = 250 * 10 ^ 6"
definition step_up_max_read_failures :: u32 where "step_up_max_read_failures = 6"

definition close_for_step_up :: "step_up_watch \<Rightarrow> step_up_watch" where
  "close_for_step_up s =
     s\<lparr> su_disconnect_description := ''SSO step-up window expired; reconnect to sign in again'',
        su_recheck := None, su_disconnected := True \<rparr>"

text \<open>\<open>inst\<close> is the monotonic clock (\<open>Instant::now\<close>), \<open>now\<close> the wall clock.\<close>

definition step_up_read_failed ::
  "timestamp \<Rightarrow> timestamp \<Rightarrow> step_up_watch \<Rightarrow> step_up_watch \<times> bool" where
  "step_up_read_failed inst now s =
     (let s = s\<lparr> su_read_failures := su_read_failures s + 1 \<rparr>;
          past_deadline = (case su_known_deadline s of None \<Rightarrow> False | Some d \<Rightarrow> now > d)
      in if past_deadline \<or> su_read_failures s \<ge> step_up_max_read_failures
         then (close_for_step_up s, True)
         else (s\<lparr> su_recheck := Some (inst + int step_up_recheck_max) \<rparr>, False))"

fun window_join :: "step_up_window_state \<Rightarrow> step_up_window_state \<Rightarrow> step_up_window_state" where
  "window_join Expired _ = Expired"
| "window_join _ Expired = Expired"
| "window_join (Remaining a) (Remaining b) = Remaining (min a b)"
| "window_join _ other = other"

fun windows_of ::
  "stamp_read \<Rightarrow> timestamp \<Rightarrow> duration option \<Rightarrow> timestamp \<Rightarrow> step_up_window_state \<Rightarrow> uuid list
   \<Rightarrow> step_up_window_state result" where
  "windows_of read dmax interval now window [] = Inr window"
| "windows_of read dmax interval now window (pubkey_id # ids) =
     (case read pubkey_id of
        Inl e \<Rightarrow> Inl e
      | Inr lst \<Rightarrow> windows_of read dmax interval now
          (window_join window (step_up_window dmax lst interval now)) ids)"

definition enforce_step_up_window ::
  "stamp_read \<Rightarrow> timestamp \<Rightarrow> duration option \<Rightarrow> timestamp \<Rightarrow> timestamp \<Rightarrow> step_up_watch
   \<Rightarrow> step_up_watch \<times> bool" where
  "enforce_step_up_window read dmax interval inst now s =
     (case su_pubkeys s of
        None \<Rightarrow> (s\<lparr> su_recheck := None \<rparr>, False)
      | Some pubkeys \<Rightarrow>
          (case (if interval = None then Inr NotApplicable
                 else windows_of read dmax interval now
                   (if pubkeys = [] then Expired else Remaining duration_max) pubkeys) of
             Inl e \<Rightarrow> step_up_read_failed inst now s
           | Inr window \<Rightarrow>
               (let s = s\<lparr> su_read_failures := 0 \<rparr>
                in case window of
                     Expired \<Rightarrow> (close_for_step_up s, True)
                   | NotApplicable \<Rightarrow>
                       (s\<lparr> su_known_deadline := None,
                           su_recheck := Some (inst + int step_up_recheck_max) \<rparr>, False)
                   | Remaining left \<Rightarrow>
                       (s\<lparr> su_known_deadline :=
                             Option.bind (duration_try_from left) (date_checked_add dmax now),
                           su_recheck := Some (inst + int
                             (max step_up_recheck_min (min step_up_recheck_max left))) \<rparr>, False))))"

section \<open>The gate of an HTTP session\<close>

datatype session_authorization =
    Session_User uuid string
  | Session_Ticket uuid string uuid "uuid option"

text \<open>The claim of a browser session, in whole seconds since the epoch.\<close>

type_synonym http_session = "string \<rightharpoonup> int"

definition last_sso_at_session_key :: string where
  "last_sso_at_session_key = ''last_sso_at''"

definition http_get_last_sso_at :: "timestamp \<Rightarrow> timestamp \<Rightarrow> http_session \<Rightarrow> timestamp option" where
  "http_get_last_sso_at dmin dmax session =
     (case session last_sso_at_session_key of
        None \<Rightarrow> None
      | Some secs \<Rightarrow> if dmin \<le> seconds secs \<and> seconds secs \<le> dmax then Some (seconds secs) else None)"

definition http_set_last_sso_at :: "timestamp \<Rightarrow> http_session \<Rightarrow> http_session" where
  "http_set_last_sso_at now session = session(last_sso_at_session_key \<mapsto> now div 10 ^ 9)"

definition http_clear_last_sso_at :: "http_session \<Rightarrow> http_session" where
  "http_clear_last_sso_at session = session(last_sso_at_session_key := None)"

definition is_session_step_up_stale ::
  "session_authorization option \<Rightarrow> timestamp option \<Rightarrow> duration option \<Rightarrow> timestamp \<Rightarrow> bool" where
  "is_session_step_up_stale auth last_sso_at interval now =
     (case interval of
        None \<Rightarrow> False
      | Some interval \<Rightarrow>
          (case auth of
             Some (Session_User _ _) \<Rightarrow> \<not> is_fresh last_sso_at interval now
           | Some (Session_Ticket _ _ _ _) \<Rightarrow> False
           | None \<Rightarrow> False))"

section \<open>Lemmas\<close>

lemma is_fresh_Some:
  "is_fresh (Some l) i now \<longleftrightarrow> duration_try_from i \<noteq> None \<and> now - l \<le> int i"
  by (auto simp: is_fresh_def duration_try_from_def)

lemma is_fresh_None [simp]: "\<not> is_fresh None i now"
  by (simp add: is_fresh_def)

lemma is_fresh_antimono: "is_fresh l i now \<Longrightarrow> now' \<le> now \<Longrightarrow> is_fresh l i now'"
  by (cases l) (auto simp: is_fresh_Some)

lemma step_up_window_None [simp]: "step_up_window dmax l None now = NotApplicable"
  by (simp add: step_up_window_def)

lemma step_up_window_Expired_iff:
  "step_up_window dmax l (Some i) now = Expired \<longleftrightarrow> \<not> is_fresh l i now"
  by (auto simp: step_up_window_def is_fresh_def date_checked_add_def duration_try_from_def
      split: option.splits if_splits)

lemma step_up_window_not_NotApplicable: "step_up_window dmax l (Some i) now \<noteq> NotApplicable"
  by (auto simp: step_up_window_def split: option.splits if_splits)

lemma all_keys_fresh_ok:
  assumes "\<And>p. p \<in> set ids \<Longrightarrow> read p = Inr (lst p)"
  shows "all_keys_fresh read clock i b ids = Inr (b \<and> (\<forall>p\<in>set ids. is_fresh (lst p) i (clock p)))"
  using assms by (induction ids arbitrary: b) auto

lemma window_join_Expired_right [simp]: "window_join w Expired = Expired"
  by (cases w) simp_all

lemma window_join_Remaining:
  "w \<noteq> Expired \<Longrightarrow> w \<noteq> NotApplicable \<Longrightarrow> \<exists>d. window_join (Remaining a) w = Remaining d"
  by (cases w) auto

lemma windows_of_Expired:
  "(\<And>p. p \<in> set ids \<Longrightarrow> read p = Inr (lst p)) \<Longrightarrow> windows_of read dmax i now Expired ids = Inr Expired"
  by (induction ids) auto

lemma windows_of_Remaining:
  assumes "\<And>p. p \<in> set ids \<Longrightarrow> read p = Inr (lst p)"
  shows "if \<forall>p\<in>set ids. is_fresh (lst p) i now
    then \<exists>d. windows_of read dmax (Some i) now (Remaining a) ids = Inr (Remaining d)
    else windows_of read dmax (Some i) now (Remaining a) ids = Inr Expired"
  using assms
proof (induction ids arbitrary: a)
  case Nil
  then show ?case by simp
next
  case (Cons p ids)
  let ?w = "step_up_window dmax (lst p) (Some i) now"
  show ?case
  proof (cases "is_fresh (lst p) i now")
    case True
    then obtain d where "window_join (Remaining a) ?w = Remaining d"
      using window_join_Remaining step_up_window_Expired_iff step_up_window_not_NotApplicable
      by metis
    with Cons.IH [of d] Cons.prems True show ?thesis by simp
  next
    case False
    then have "?w = Expired" by (simp add: step_up_window_Expired_iff)
    with Cons.prems False show ?thesis by (simp add: windows_of_Expired [where lst = lst])
  qed
qed

lemma windows_of_error:
  "p \<in> set ids \<Longrightarrow> read p = Inl e \<Longrightarrow> \<exists>e. windows_of read dmax i now w ids = Inl e"
  by (induction ids arbitrary: w) (auto split: sum.splits)

text \<open>What an evaluation decides when every stamp can be read.\<close>

lemma enforce_closes_iff:
  assumes "su_pubkeys s = Some ids" and "\<And>p. p \<in> set ids \<Longrightarrow> read p = Inr (lst p)"
  shows "snd (enforce_step_up_window read dmax interval inst now s) \<longleftrightarrow>
    (\<exists>i. interval = Some i \<and> (ids = [] \<or> (\<exists>p\<in>set ids. \<not> is_fresh (lst p) i now)))"
proof (cases interval)
  case None
  with assms show ?thesis by (simp add: enforce_step_up_window_def Let_def)
next
  case (Some i)
  show ?thesis
  proof (cases "ids = []")
    case True
    with Some assms show ?thesis by (simp add: enforce_step_up_window_def Let_def)
  next
    case False
    have "if \<forall>p\<in>set ids. is_fresh (lst p) i now
      then \<exists>d. windows_of read dmax (Some i) now (Remaining duration_max) ids = Inr (Remaining d)
      else windows_of read dmax (Some i) now (Remaining duration_max) ids = Inr Expired"
      by (rule windows_of_Remaining [OF assms(2)])
    with False Some assms(1) show ?thesis
      by (auto simp: enforce_step_up_window_def Let_def split: if_splits)
  qed
qed

lemma stored_kind_not_web: "stored_kind_kind k \<noteq> Kind_WebUserApproval"
  by (cases k) simp_all

lemma valid_kind_web_iff: "valid_credential_kind c = Kind_WebUserApproval \<longleftrightarrow> c = Valid_WebUserApproval"
  by (cases c) (simp_all add: stored_kind_not_web)

lemma web_kind_present:
  "Kind_WebUserApproval \<in> valid_credential_kinds s \<longleftrightarrow> Valid_WebUserApproval \<in> set (as_valid_credentials s)"
  unfolding valid_credential_kinds_def by (metis (no_types) image_iff list.set_map valid_kind_web_iff)

lemma proves_step_up_real:
  "web_approval_proves_step_up (Kind_WebUserApproval \<in> valid_credential_kinds s)
     (as_web_approval_from_grace_bypass s) \<longleftrightarrow> has_real_web_approval s"
  by (auto simp: web_approval_proves_step_up_def has_real_web_approval_def web_kind_present)

lemma gate_demands_iff:
  assumes "\<And>p. p \<in> set (matched_key_set s) \<Longrightarrow> read p = Inr (lst p)"
  shows "ssh_step_up_gate read clock interval s = Inr
    (\<not> (\<exists>i. interval = Some i \<and> Kind_PublicKey \<in> valid_credential_kinds s \<and> \<not> has_real_web_approval s
        \<and> (matched_key_set s = [] \<or> (\<exists>p\<in>set (matched_key_set s). \<not> is_fresh (lst p) i (clock p)))))"
  using all_keys_fresh_ok [OF assms, where b = "matched_key_set s \<noteq> []" and clock = clock]
  by (auto simp: ssh_step_up_gate_def proves_step_up_real split: option.splits)

lemma last_sso_at_update:
  "get_pubkey_last_sso_at (fst (update_pubkey_last_sso_at db p now)) k
     = (if k = p \<and> find_by pk_id k db \<noteq> None then Some now else get_pubkey_last_sso_at db k)"
  "(find_by pk_id k (fst (update_pubkey_last_sso_at db p now)) = None) = (find_by pk_id k db = None)"
  by (auto simp: update_pubkey_last_sso_at_def get_pubkey_last_sso_at_def
      sso_stamp.find_update_key split: option.splits)

lemma stamp_keys_lookup:
  "get_pubkey_last_sso_at (stamp_keys clock ids db) k
     = (if k \<in> set ids \<and> find_by pk_id k db \<noteq> None then Some (clock k)
        else get_pubkey_last_sso_at db k)"
  by (induction ids arbitrary: db) (auto simp: last_sso_at_update simp del: not_None_eq)

section \<open>Repeated evaluation of an open connection\<close>

text \<open>The event loop of a connection: evaluations until one of them closes it.\<close>

record window_check =
  wc_read :: stamp_read
  wc_interval :: "duration option"
  wc_inst :: timestamp
  wc_now :: timestamp

fun run_window_checks :: "timestamp \<Rightarrow> window_check list \<Rightarrow> step_up_watch \<Rightarrow> step_up_watch \<times> bool" where
  "run_window_checks dmax [] s = (s, False)"
| "run_window_checks dmax (c # cs) s =
     (case enforce_step_up_window (wc_read c) dmax (wc_interval c) (wc_inst c) (wc_now c) s of
        (s', True) \<Rightarrow> (s', True)
      | (s', False) \<Rightarrow> run_window_checks dmax cs s')"

definition check_fails :: "uuid list \<Rightarrow> window_check \<Rightarrow> bool" where
  "check_fails ids c \<longleftrightarrow> wc_interval c \<noteq> None \<and> (\<exists>p\<in>set ids. \<exists>e. wc_read c p = Inl e)"

lemma failing_check:
  assumes "su_pubkeys s = Some ids" and "check_fails ids c"
  shows "enforce_step_up_window (wc_read c) dmax (wc_interval c) (wc_inst c) (wc_now c) s
    = step_up_read_failed (wc_inst c) (wc_now c) s"
proof -
  obtain p e where "p \<in> set ids" "wc_read c p = Inl e" "wc_interval c \<noteq> None"
    using assms(2) by (auto simp: check_fails_def)
  with windows_of_error obtain e' where
    "windows_of (wc_read c) dmax (wc_interval c) (wc_now c) (Remaining duration_max) ids = Inl e'"
    by metis
  with assms(1) \<open>p \<in> set ids\<close> \<open>wc_interval c \<noteq> None\<close> show ?thesis
    by (auto simp: enforce_step_up_window_def)
qed

lemma read_failed_cases:
  assumes "unat (su_read_failures s) < 6"
  shows "snd (step_up_read_failed inst now s) \<or>
    (unat (su_read_failures (fst (step_up_read_failed inst now s))) = Suc (unat (su_read_failures s))
     \<and> Suc (unat (su_read_failures s)) < 6
     \<and> su_pubkeys (fst (step_up_read_failed inst now s)) = su_pubkeys s)"
proof -
  have "unat (su_read_failures s + 1) = Suc (unat (su_read_failures s))"
    using assms by (simp add: unat_word_ariths(1))
  then show ?thesis
    using assms by (auto simp: step_up_read_failed_def Let_def step_up_max_read_failures_def
        word_le_nat_alt split: option.splits)
qed

lemma failing_checks_close:
  assumes "su_pubkeys s = Some ids" and "\<forall>c\<in>set cs. check_fails ids c"
    and "unat (su_read_failures s) < 6" and "6 \<le> unat (su_read_failures s) + length cs"
  shows "snd (run_window_checks dmax cs s)"
  using assms
proof (induction cs arbitrary: s)
  case Nil
  then show ?case by simp
next
  case (Cons c cs)
  obtain s' b where s': "step_up_read_failed (wc_inst c) (wc_now c) s = (s', b)"
    by (cases "step_up_read_failed (wc_inst c) (wc_now c) s") simp
  have step: "enforce_step_up_window (wc_read c) dmax (wc_interval c) (wc_inst c) (wc_now c) s = (s', b)"
    using failing_check [OF Cons.prems(1)] Cons.prems(2) s' by simp
  show ?case
  proof (cases b)
    case True
    with step show ?thesis by simp
  next
    case False
    with read_failed_cases [OF Cons.prems(3), where inst = "wc_inst c" and now = "wc_now c"] s'
    have "unat (su_read_failures s') = Suc (unat (su_read_failures s))"
      "Suc (unat (su_read_failures s)) < 6" "su_pubkeys s' = su_pubkeys s"
      by auto
    with Cons.IH [of s'] Cons.prems False step show ?thesis by simp
  qed
qed

section \<open>Properties\<close>


text \<open>
  An open connection that logged in with keys is closed by an evaluation exactly when
  the login gate would at that moment demand a fresh web approval of an attempt with the
  same keys and no approval of its own.
\<close>

theorem open_connection_follows_gate:
  assumes "su_pubkeys w = Some (matched_key_set s)"
    and "\<And>p. p \<in> set (matched_key_set s) \<Longrightarrow> read p = Inr (lst p)"
    and "Kind_PublicKey \<in> valid_credential_kinds s" and "\<not> has_real_web_approval s"
  shows "snd (enforce_step_up_window read dmax interval inst now w)
    \<longleftrightarrow> ssh_step_up_gate read (\<lambda>_. now) interval s = Inr False"
proof -
  have "ssh_step_up_gate read (\<lambda>_. now) interval s = Inr
    (\<not> (\<exists>i. interval = Some i \<and> Kind_PublicKey \<in> valid_credential_kinds s \<and> \<not> has_real_web_approval s
        \<and> (matched_key_set s = [] \<or> (\<exists>p\<in>set (matched_key_set s). \<not> is_fresh (lst p) i now))))"
    by (rule gate_demands_iff [OF assms(2)])
  with assms(3,4) enforce_closes_iff [where read = read and lst = lst, OF assms(1,2)] show ?thesis by simp
qed

text \<open>
  The time an evaluation reports as remaining is exact: the stamp stays fresh up to and
  including that moment and is stale right after it.
\<close>

theorem window_is_time_left:
  assumes "step_up_window dmax (Some l) (Some i) now = Remaining d" and "l + int i \<le> dmax"
  shows "is_fresh (Some l) i t \<longleftrightarrow> t \<le> now + int d"
  using assms
  by (auto simp: step_up_window_def is_fresh_Some date_checked_add_def duration_try_from_def
      split: if_splits)

text \<open>
  A connection whose stamps cannot be read does not stay open: six evaluations in a row
  that fail to read them close it, whatever deadline was known.
\<close>

theorem unreadable_stamps_close:
  assumes "su_pubkeys w = Some ids" and "su_read_failures w < step_up_max_read_failures"
    and "\<forall>c\<in>set cs. check_fails ids c" and "length cs = 6"
  shows "snd (run_window_checks dmax cs w)"
proof -
  have "unat (su_read_failures w) < 6"
    using assms(2) by (simp add: step_up_max_read_failures_def word_less_nat_alt)
  with failing_checks_close [OF assms(1,3)] assms(4) show ?thesis by simp
qed

text \<open>
  Accepting an SSH login moves the SSO clock of a key only when this attempt collected a
  web approval of its own with step-up on; then every matched key that still has a row is
  fresh for exactly the interval, and the clock of every other key is left alone.
\<close>

theorem login_stamps_only_real_approvals:
  "get_pubkey_last_sso_at (ssh_step_up_stamp clock interval s db) k =
     (if interval \<noteq> None \<and> has_real_web_approval s \<and> k \<in> set (matched_key_set s)
         \<and> find_by pk_id k db \<noteq> None
      then Some (clock k) else get_pubkey_last_sso_at db k)"
  by (simp add: ssh_step_up_stamp_def proves_step_up_real stamp_keys_lookup
      del: not_None_eq)

text \<open>
  A browser session is never trusted beyond its interval and loses at most one second of
  it: the stamp kept on the session is cut to whole seconds, so a user session is stale
  whenever more than the interval has passed since its SSO, and is not stale while at
  least a second of the interval is left. Tickets and anonymous requests are never stale.
\<close>

theorem http_session_window:
  fixes now t dmin dmax :: timestamp and session :: http_session
  defines "stamp \<equiv> http_get_last_sso_at dmin dmax (http_set_last_sso_at t session)"
  assumes "dmin \<le> t - 10 ^ 9" and "t \<le> dmax" and "duration_try_from i \<noteq> None"
  shows "(int i < now - t \<longrightarrow> is_session_step_up_stale (Some (Session_User u n)) stamp (Some i) now)
    \<and> (now - t + 10 ^ 9 \<le> int i \<longrightarrow>
         \<not> is_session_step_up_stale (Some (Session_User u n)) stamp (Some i) now)
    \<and> (case auth of Some (Session_User _ _) \<Rightarrow> True
       | _ \<Rightarrow> \<not> is_session_step_up_stale auth stamp (Some i) now)"
proof -
  have "t - 10 ^ 9 \<le> seconds (t div 10 ^ 9)" "seconds (t div 10 ^ 9) \<le> t"
    by (simp_all add: seconds_def minus_mod_eq_div_mult [symmetric])
  then have "\<exists>l. stamp = Some l \<and> t - 10 ^ 9 \<le> l \<and> l \<le> t"
    using assms(2,3) by (auto simp: stamp_def http_get_last_sso_at_def http_set_last_sso_at_def)
  with assms(4) show ?thesis
    by (auto simp: is_session_step_up_stale_def is_fresh_Some
        split: option.splits session_authorization.splits)
qed

section \<open>Concrete logins\<close>

definition sample_key_login :: auth_state where
  "sample_key_login = sample_attempt\<lparr> as_valid_credentials :=
     [Valid_Stored (StoredCredential Stored_PublicKey 11 1)] \<rparr>"

definition sample_two_key_login :: auth_state where
  "sample_two_key_login = sample_attempt\<lparr> as_valid_credentials :=
     [Valid_Stored (StoredCredential Stored_PublicKey 12 1),
      Valid_Stored (StoredCredential Stored_PublicKey 11 1)] \<rparr>"

lemma sample_key_login_keys:
  "matched_key_set sample_key_login = [11]" "matched_key_set sample_two_key_login = [11, 12]"
  by (simp_all add: matched_key_set_def matched_public_key_ids_def sample_key_login_def
      sample_two_key_login_def List.map_filter_def)

lemma sample_key_login_kinds:
  "Kind_PublicKey \<in> valid_credential_kinds sample_key_login" "\<not> has_real_web_approval sample_key_login"
  by (simp_all add: valid_credential_kinds_def has_real_web_approval_def sample_key_login_def)

definition sample_read :: "stamp_read" where
  "sample_read p = Inr (Some 100)"

lemma sample_fresh: "is_fresh (Some 100) 50 150" "\<not> is_fresh (Some 100) 50 151"
  by (simp_all add: is_fresh_def duration_try_from_def)


text \<open>Two different keys, both fresh, pass the gate: it does not insist on exactly one key.\<close>

lemma two_fresh_keys_pass:
  "length (matched_key_set sample_two_key_login) = 2
   \<and> ssh_step_up_login sample_env sample_read (\<lambda>_. 150) (Some 50) sample_two_key_login
     = (sample_two_key_login, Inr None)"
  by (simp add: ssh_step_up_login_def ssh_step_up_gate_def sample_key_login_keys sample_read_def
      sample_fresh Let_def)

text \<open>A stamp taken at an earlier instant overwrites a later one.\<close>

lemma stamp_moves_backwards:
  "get_pubkey_last_sso_at (fst (update_pubkey_last_sso_at
     (fst (update_pubkey_last_sso_at [row] (pk_id row) 200)) (pk_id row) 100)) (pk_id row) = Some 100"
  by (simp add: last_sso_at_update)

definition sample_watch :: step_up_watch where
  "sample_watch = \<lparr> su_pubkeys = Some [11], su_recheck = None, su_known_deadline = None,
     su_read_failures = 0, su_disconnected = False, su_disconnect_description = [] \<rparr>"

theorem open_connection_follows_gate_witness:
  "snd (enforce_step_up_window sample_read (10 ^ 20) (Some 50) 0 151 sample_watch)
    \<longleftrightarrow> ssh_step_up_gate sample_read (\<lambda>_. 151) (Some 50) sample_key_login = Inr False"
  by (rule open_connection_follows_gate [where lst = "\<lambda>_. Some 100"])
     (simp_all add: sample_watch_def sample_key_login_keys sample_key_login_kinds sample_read_def)

theorem window_is_time_left_witness:
  "is_fresh (Some 100) 50 150 \<longleftrightarrow> (150::int) \<le> 120 + int 30"
  by (rule window_is_time_left [where dmax = 1000])
     (simp_all add: step_up_window_def is_fresh_def duration_try_from_def date_checked_add_def)

definition failing_window_check :: window_check where
  "failing_window_check = \<lparr> wc_read = (\<lambda>_. Inl ValidatorFailed), wc_interval = Some 50,
     wc_inst = 0, wc_now = 0 \<rparr>"

theorem unreadable_stamps_close_witness:
  "snd (run_window_checks 1000 (replicate 6 failing_window_check) sample_watch)"
  by (rule unreadable_stamps_close [where ids = "[11]"])
     (simp_all add: sample_watch_def step_up_max_read_failures_def check_fails_def failing_window_check_def)

theorem http_session_window_witness:
  "is_session_step_up_stale (Some (Session_User 7 ''alice''))
     (http_get_last_sso_at 0 (10 ^ 20) (http_set_last_sso_at (5 * 10 ^ 9) Map.empty)) (Some 50)
     (6 * 10 ^ 9)"
  using http_session_window [where dmin = 0 and dmax = "10 ^ 20" and t = "5 * 10 ^ 9"
      and session = Map.empty and i = 50 and now = "6 * 10 ^ 9" and u = 7 and n = "''alice''"]
  by (simp add: duration_try_from_def)

end
