(* ===== verification/Login_Cache.thy ===== *)
theory Login_Cache
  imports Auth_Policy Tables
begin

text \<open>
  The in-memory cache of active blocks and lockouts
  (\<open>warpgate-core/src/login_protection/cache.rs\<close>), the tables it mirrors
  (\<open>IpBlock\<close>, \<open>UserLockout\<close>), and the contract of a cache that mirrors rows of a table.
  The clock is read once per operation and is an argument.
\<close>

section \<open>The tables\<close>

record ip_block_row =
  ipb_id :: uuid
  ipb_ip_address :: string
  ipb_block_count :: i32
  ipb_blocked_at :: timestamp
  ipb_expires_at :: timestamp
  ipb_reason :: string
  ipb_last_attempt_at :: timestamp

record user_lockout_row =
  ulo_id :: uuid
  ulo_username :: string
  ulo_locked_at :: timestamp
  ulo_expires_at :: "timestamp option"
  ulo_reason :: string
  ulo_failed_attempt_count :: i32

section \<open>The cache\<close>

record ip_block_info =
  bi_ip_address :: ip_addr
  bi_blocked_at :: timestamp
  bi_expires_at :: timestamp
  bi_block_count :: i32
  bi_reason :: string

record user_lock_info =
  li_username :: string
  li_locked_at :: timestamp
  li_expires_at :: "timestamp option"
  li_reason :: string

record login_protection_cache =
  blocked_ips :: "ip_addr \<rightharpoonup> ip_block_info"
  locked_users :: "string \<rightharpoonup> user_lock_info"

definition cache_new :: login_protection_cache where
  "cache_new = \<lparr> blocked_ips = Map.empty, locked_users = Map.empty \<rparr>"

definition block_info_of :: "ip_addr \<Rightarrow> ip_block_row \<Rightarrow> ip_block_info" where
  "block_info_of ip block = \<lparr> bi_ip_address = ip, bi_blocked_at = ipb_blocked_at block,
     bi_expires_at = ipb_expires_at block, bi_block_count = ipb_block_count block,
     bi_reason = ipb_reason block \<rparr>"

definition lock_info_of :: "user_lockout_row \<Rightarrow> user_lock_info" where
  "lock_info_of lockout = \<lparr> li_username = ulo_username lockout, li_locked_at = ulo_locked_at lockout,
     li_expires_at = ulo_expires_at lockout, li_reason = ulo_reason lockout \<rparr>"

definition none_or_later :: "timestamp option \<Rightarrow> timestamp \<Rightarrow> bool" where
  "none_or_later expires now = (case expires of None \<Rightarrow> True | Some e \<Rightarrow> e > now)"

fun load_blocks :: "env \<Rightarrow> ip_block_row list \<Rightarrow> (ip_addr \<rightharpoonup> ip_block_info) \<Rightarrow> (ip_addr \<rightharpoonup> ip_block_info)" where
  "load_blocks E [] m = m"
| "load_blocks E (block # blocks) m = load_blocks E blocks
     (case map_option to_canonical (parse_ip E (ipb_ip_address block)) of
        Some ip \<Rightarrow> m(ip \<mapsto> block_info_of ip block)
      | None \<Rightarrow> m)"

fun load_lockouts ::
  "env \<Rightarrow> timestamp \<Rightarrow> user_lockout_row list \<Rightarrow> (string \<rightharpoonup> user_lock_info) \<Rightarrow> (string \<rightharpoonup> user_lock_info)" where
  "load_lockouts E now [] m = m"
| "load_lockouts E now (lockout # lockouts) m = load_lockouts E now lockouts
     (if none_or_later (ulo_expires_at lockout) now
      then m(lower E (ulo_username lockout) \<mapsto> lock_info_of lockout) else m)"

definition load_from_db ::
  "env \<Rightarrow> timestamp \<Rightarrow> ip_block_row list \<Rightarrow> user_lockout_row list \<Rightarrow> login_protection_cache" where
  "load_from_db E now blocks lockouts =
     \<lparr> blocked_ips = load_blocks E (filter (\<lambda>b. ipb_expires_at b > now) blocks) Map.empty,
       locked_users = load_lockouts E now lockouts Map.empty \<rparr>"

text \<open>The entry for a key, if it is still live.\<close>

definition live_entry :: "('info \<Rightarrow> bool) \<Rightarrow> ('k \<rightharpoonup> 'info) \<Rightarrow> 'k \<Rightarrow> 'info option" where
  "live_entry live m k = (case m k of None \<Rightarrow> None | Some info \<Rightarrow> if live info then Some info else None)"

definition retain_live :: "('info \<Rightarrow> bool) \<Rightarrow> ('k \<rightharpoonup> 'info) \<Rightarrow> ('k \<rightharpoonup> 'info)" where
  "retain_live live m = live_entry live m"

definition block_live :: "timestamp \<Rightarrow> ip_block_info \<Rightarrow> bool" where
  "block_live now info \<longleftrightarrow> bi_expires_at info > now"

definition lock_live :: "timestamp \<Rightarrow> user_lock_info \<Rightarrow> bool" where
  "lock_live now info \<longleftrightarrow> none_or_later (li_expires_at info) now"

definition is_ip_blocked :: "timestamp \<Rightarrow> login_protection_cache \<Rightarrow> ip_addr \<Rightarrow> ip_block_info option" where
  "is_ip_blocked now cache ip = live_entry (block_live now) (blocked_ips cache) ip"

definition is_user_locked ::
  "env \<Rightarrow> timestamp \<Rightarrow> login_protection_cache \<Rightarrow> string \<Rightarrow> user_lock_info option" where
  "is_user_locked E now cache username =
     live_entry (lock_live now) (locked_users cache) (lower E username)"

definition cache_block_ip :: "ip_addr \<Rightarrow> ip_block_info \<Rightarrow> login_protection_cache \<Rightarrow> login_protection_cache" where
  "cache_block_ip ip info cache = cache\<lparr> blocked_ips := (blocked_ips cache)(ip \<mapsto> info) \<rparr>"

definition cache_lock_user ::
  "env \<Rightarrow> string \<Rightarrow> user_lock_info \<Rightarrow> login_protection_cache \<Rightarrow> login_protection_cache" where
  "cache_lock_user E username info cache =
     cache\<lparr> locked_users := (locked_users cache)(lower E username \<mapsto> info) \<rparr>"

definition cache_unblock_ip :: "ip_addr \<Rightarrow> login_protection_cache \<Rightarrow> login_protection_cache" where
  "cache_unblock_ip ip cache = cache\<lparr> blocked_ips := (blocked_ips cache)(ip := None) \<rparr>"

definition cache_unlock_user :: "env \<Rightarrow> string \<Rightarrow> login_protection_cache \<Rightarrow> login_protection_cache" where
  "cache_unlock_user E username cache =
     cache\<lparr> locked_users := (locked_users cache)(lower E username := None) \<rparr>"

definition clear_expired :: "timestamp \<Rightarrow> login_protection_cache \<Rightarrow> login_protection_cache" where
  "clear_expired now cache =
     \<lparr> blocked_ips = retain_live (block_live now) (blocked_ips cache),
       locked_users = retain_live (lock_live now) (locked_users cache) \<rparr>"

section \<open>A cache that mirrors rows\<close>

text \<open>
  Every entry of the cache is the information of a row of the table with that key. Entries
  may be missing, and rows may be: what is there is right.
\<close>

definition mirrors ::
  "('k \<Rightarrow> 'rk) \<Rightarrow> ('row \<Rightarrow> 'rk) \<Rightarrow> ('k \<Rightarrow> 'row \<Rightarrow> 'info) \<Rightarrow> 'row list \<Rightarrow> ('k \<rightharpoonup> 'info) \<Rightarrow> bool" where
  "mirrors enc key info rows cache \<longleftrightarrow>
     (\<forall>k i. cache k = Some i \<longrightarrow> (\<exists>r\<in>set rows. key r = enc k \<and> info k r = i))"

text \<open>What a lookup that falls through to the table returns.\<close>

definition stored_entry ::
  "('k \<Rightarrow> 'rk) \<Rightarrow> ('row \<Rightarrow> 'rk) \<Rightarrow> ('k \<Rightarrow> 'row \<Rightarrow> 'info) \<Rightarrow> ('info \<Rightarrow> bool) \<Rightarrow> 'row list \<Rightarrow> 'k
   \<Rightarrow> 'info option" where
  "stored_entry enc key info live rows k =
     map_option (info k) (find (\<lambda>r. key r = enc k \<and> live (info k r)) rows)"

locale mirror_cache =
  fixes enc :: "'k \<Rightarrow> 'rk" and key :: "'row \<Rightarrow> 'rk" and info :: "'k \<Rightarrow> 'row \<Rightarrow> 'info"
  assumes enc_inj: "enc k = enc k' \<Longrightarrow> k = k'"
begin

lemma empty_mirrors: "mirrors enc key info rows Map.empty"
  by (simp add: mirrors_def)

lemma fill_mirrors:
  "mirrors enc key info rows m \<Longrightarrow> r \<in> set rows \<Longrightarrow> key r = enc k \<Longrightarrow>
   mirrors enc key info rows (m(k \<mapsto> info k r))"
  by (auto simp: mirrors_def)

lemma grow_mirrors:
  "mirrors enc key info rows m \<Longrightarrow> set rows \<subseteq> set rows' \<Longrightarrow> mirrors enc key info rows' m"
  by (fastforce simp: mirrors_def)

lemma forget_mirrors: "mirrors enc key info rows m \<Longrightarrow> mirrors enc key info rows (m(k := None))"
  by (auto simp: mirrors_def)

lemma delete_mirrors:
  assumes "mirrors enc key info rows m" and "\<And>r. r \<in> set rows \<Longrightarrow> P r \<Longrightarrow> key r = enc k"
  shows "mirrors enc key info (delete_many P rows) (m(k := None))"
proof -
  have "key r \<noteq> enc k" if "key r = enc k'" "k' \<noteq> k" for r k'
    using that enc_inj by metis
  with assms show ?thesis by (fastforce simp: mirrors_def)
qed

lemma retain_mirrors:
  assumes "mirrors enc key info rows m"
    and "\<And>r k. r \<in> set rows \<Longrightarrow> live (info k r) \<Longrightarrow> \<not> P r"
  shows "mirrors enc key info (delete_many P rows) (retain_live live m)"
  unfolding mirrors_def
proof (intro allI impI)
  fix k i
  assume "retain_live live m k = Some i"
  then have "m k = Some i" "live i"
    by (auto simp: retain_live_def live_entry_def split: option.splits if_splits)
  with assms(1) obtain r where "r \<in> set rows" "key r = enc k" "info k r = i"
    by (auto simp: mirrors_def)
  with \<open>live i\<close> assms(2) show "\<exists>r\<in>set (delete_many P rows). key r = enc k \<and> info k r = i"
    by auto
qed

lemma replace_mirrors:
  assumes "mirrors enc key info rows m"
    and "set rows' = insert r' {r \<in> set rows. key r \<noteq> enc k}" and "key r' = enc k"
  shows "mirrors enc key info rows' (m(k \<mapsto> info k r'))"
  unfolding mirrors_def
proof (intro allI impI)
  fix k' i
  assume i: "(m(k \<mapsto> info k r')) k' = Some i"
  show "\<exists>r\<in>set rows'. key r = enc k' \<and> info k' r = i"
  proof (cases "k' = k")
    case True
    with i assms(2,3) show ?thesis by auto
  next
    case False
    with i assms(1) obtain r where r: "r \<in> set rows" "key r = enc k'" "info k' r = i"
      by (auto simp: mirrors_def)
    with False enc_inj have "key r \<noteq> enc k" by metis
    with r assms(2) show ?thesis by auto
  qed
qed

text \<open>A hit in the cache is what the table would have answered.\<close>

lemma hit_is_stored:
  assumes "mirrors enc key info rows m" and "unique_keys key rows" and "live_entry live m k = Some i"
  shows "stored_entry enc key info live rows k = Some i"
proof -
  have "m k = Some i" "live i"
    using assms(3) by (auto simp: live_entry_def split: option.splits if_splits)
  with assms(1) obtain r where r: "r \<in> set rows" "key r = enc k" "info k r = i"
    by (auto simp: mirrors_def)
  have "find (\<lambda>r'. key r' = enc k \<and> live (info k r')) rows = Some r"
    using assms(2) r \<open>live i\<close>
    by (induction rows) (auto simp: unique_keys_def image_iff)
  with r show ?thesis by (simp add: stored_entry_def)
qed

end

interpretation lockouts: mirror_cache "\<lambda>k. k" "\<lambda>l. sql_lower E (ulo_username l)" "\<lambda>_. lock_info_of" for E
  by unfold_locales simp

text \<open>
  For the blocks the cache is keyed by address and the rows by its text, so the contract
  rests on the text determining the address.
\<close>

locale address_text =
  fixes E :: env
  assumes text_ok: "ip_text_ok E"

sublocale address_text \<subseteq> blocks: mirror_cache "show_ip E" ipb_ip_address block_info_of
  by unfold_locales (simp add: show_ip_inject [OF text_ok])

interpretation sample_text: address_text sample_env
  by unfold_locales (rule sample_env_ip_text_ok)

end
