(* ===== verification/Login_Protection.thy ===== *)
theory Login_Protection
  imports Login_Cache
begin

text \<open>
  The login protection service (\<open>warpgate-core/src/login_protection/service.rs\<close>): blocking of
  addresses and lockout of accounts after failed logins. The tables are lists of rows; a
  transaction is one state change. The clock is read once per operation. The networks and
  \<open>contains\<close> stand for \<open>IpNet\<close>; \<open>backoff\<close> stands for the \<open>f32\<close> expression
  \<open>(base as f32 * multiplier.powi(n)) as u64\<close>, whose precision the language leaves open.
\<close>

section \<open>Configuration\<close>

type_synonym f64 = "64 word"
type_synonym backoff = "f64 \<Rightarrow> u64 \<Rightarrow> i32 \<Rightarrow> u64"

text \<open>The columns of the parameters row the service reads, with the networks parsed.\<close>

record 'net lp_parameters =
  login_protection_enabled :: bool
  login_protection_retention_seconds :: i32
  lp_ip_max_attempts :: i32
  lp_ip_time_window_seconds :: i32
  lp_ip_base_block_duration_seconds :: i32
  lp_ip_block_duration_multiplier :: f64
  lp_ip_max_block_duration_seconds :: i32
  lp_ip_cooldown_reset_seconds :: i32
  lp_user_max_attempts :: i32
  lp_user_time_window_seconds :: i32
  lp_user_auto_unlock :: bool
  lp_user_lockout_duration_seconds :: i32
  lp_user_exempt_admins :: bool
  lp_ip_exempt_networks :: "'net list"

record ip_rate_limit_config =
  ip_max_attempts :: u32
  ip_time_window_seconds :: u32
  base_block_duration_seconds :: u32
  block_duration_multiplier :: f64
  max_block_duration_seconds :: u32
  cooldown_reset_seconds :: u32

record user_lockout_config =
  user_max_attempts :: u32
  user_time_window_seconds :: u32
  auto_unlock :: bool
  lockout_duration_seconds :: u32
  exempt_admins :: bool

record 'net login_protection_config =
  lpc_enabled :: bool
  lpc_retention_seconds :: u32
  lpc_ip_rate_limit :: ip_rate_limit_config
  lpc_user_lockout :: user_lockout_config
  lpc_ip_exempt :: "'net list"

text \<open>An \<open>as u32\<close> cast of an \<open>i32\<close> keeps the bits.\<close>

definition config_from_params :: "'net lp_parameters \<Rightarrow> 'net login_protection_config" where
  "config_from_params params =
     \<lparr> lpc_enabled = login_protection_enabled params,
       lpc_retention_seconds = login_protection_retention_seconds params,
       lpc_ip_rate_limit =
         \<lparr> ip_max_attempts = lp_ip_max_attempts params,
           ip_time_window_seconds = lp_ip_time_window_seconds params,
           base_block_duration_seconds = lp_ip_base_block_duration_seconds params,
           block_duration_multiplier = lp_ip_block_duration_multiplier params,
           max_block_duration_seconds = lp_ip_max_block_duration_seconds params,
           cooldown_reset_seconds = lp_ip_cooldown_reset_seconds params \<rparr>,
       lpc_user_lockout =
         \<lparr> user_max_attempts = lp_user_max_attempts params,
           user_time_window_seconds = lp_user_time_window_seconds params,
           auto_unlock = lp_user_auto_unlock params,
           lockout_duration_seconds = lp_user_lockout_duration_seconds params,
           exempt_admins = lp_user_exempt_admins params \<rparr>,
       lpc_ip_exempt = lp_ip_exempt_networks params \<rparr>"

definition is_ip_exempt :: "('net \<Rightarrow> ip_addr \<Rightarrow> bool) \<Rightarrow> 'net login_protection_config \<Rightarrow> ip_addr \<Rightarrow> bool" where
  "is_ip_exempt contains config ip \<longleftrightarrow>
     (\<exists>network\<in>set (lpc_ip_exempt config). contains network (to_canonical ip))"

text \<open>A number of seconds of a \<open>u32\<close>, as a duration.\<close>

definition secs32 :: "u32 \<Rightarrow> int" where
  "secs32 w = seconds (int (unat w))"

section \<open>The database and the service\<close>

record failed_attempt_row =
  fa_id :: uuid
  fa_username :: string
  fa_remote_ip :: string
  fa_protocol :: string
  fa_credential_type :: string
  fa_timestamp :: timestamp

record failed_attempt_info =
  att_username :: string
  att_remote_ip :: ip_addr
  att_protocol :: protocol
  att_credential_type :: string

record 'net lp_db =
  db_parameters :: "'net lp_parameters"
  db_users :: "'net user list"
  db_user_admin_roles :: "(uuid \<times> uuid) list"
  db_failed_attempts :: "failed_attempt_row list"
  db_ip_blocks :: "ip_block_row list"
  db_user_lockouts :: "user_lockout_row list"

record 'net lp_service =
  svc_db :: "'net lp_db"
  svc_cache :: login_protection_cache

definition read_config :: "'net lp_db \<Rightarrow> 'net login_protection_config" where
  "read_config db = config_from_params (db_parameters db)"

definition username_eq_ci :: "env \<Rightarrow> string \<Rightarrow> string \<Rightarrow> bool" where
  "username_eq_ci E username column \<longleftrightarrow> sql_lower E column = lower E username"

definition user_admin_status :: "env \<Rightarrow> 'net lp_db \<Rightarrow> string \<Rightarrow> bool option" where
  "user_admin_status E db username =
     (case find (\<lambda>u. username_eq_ci E username (user_username u)) (db_users db) of
        None \<Rightarrow> None
      | Some user \<Rightarrow> Some (\<exists>a\<in>set (db_user_admin_roles db). fst a = user_id user))"

definition lp_new :: "env \<Rightarrow> timestamp \<Rightarrow> 'net lp_db \<Rightarrow> 'net lp_service" where
  "lp_new E now db =
     \<lparr> svc_db = db,
       svc_cache = (if lpc_enabled (read_config db)
                    then load_from_db E now (db_ip_blocks db) (db_user_lockouts db)
                    else cache_new) \<rparr>"

section \<open>The read path\<close>

definition check_ip_blocked ::
  "env \<Rightarrow> ('net \<Rightarrow> ip_addr \<Rightarrow> bool) \<Rightarrow> timestamp \<Rightarrow> ip_addr \<Rightarrow> 'net lp_service
   \<Rightarrow> 'net lp_service \<times> ip_block_info option" where
  "check_ip_blocked E contains now ip svc =
     (let ip = to_canonical ip; config = read_config (svc_db svc)
      in if \<not> lpc_enabled config \<or> is_ip_exempt contains config ip then (svc, None)
         else case is_ip_blocked now (svc_cache svc) ip of
           Some info \<Rightarrow> (svc, Some info)
         | None \<Rightarrow>
             (case find (\<lambda>b. ipb_ip_address b = show_ip E ip \<and> ipb_expires_at b > now)
                     (db_ip_blocks (svc_db svc)) of
                None \<Rightarrow> (svc, None)
              | Some block \<Rightarrow>
                  (let info = block_info_of ip block
                   in (svc\<lparr> svc_cache := cache_block_ip ip info (svc_cache svc) \<rparr>, Some info))))"

definition check_user_locked ::
  "env \<Rightarrow> timestamp \<Rightarrow> string \<Rightarrow> 'net lp_service \<Rightarrow> 'net lp_service \<times> user_lock_info option" where
  "check_user_locked E now username svc =
     (let config = read_config (svc_db svc)
      in if \<not> lpc_enabled config then (svc, None)
         else let (svc, info) =
           (case is_user_locked E now (svc_cache svc) username of
              Some info \<Rightarrow> (svc, Some info)
            | None \<Rightarrow>
                (case find (\<lambda>l. username_eq_ci E username (ulo_username l)) (db_user_lockouts (svc_db svc)) of
                   None \<Rightarrow> (svc, None)
                 | Some lockout \<Rightarrow>
                     if none_or_later (ulo_expires_at lockout) now
                     then (svc\<lparr> svc_cache := cache_lock_user E username (lock_info_of lockout)
                                 (svc_cache svc) \<rparr>, Some (lock_info_of lockout))
                     else (svc, None)))
         in if info \<noteq> None \<and> exempt_admins (lpc_user_lockout config)
               \<and> user_admin_status E (svc_db svc) username = Some True
            then (svc, None) else (svc, info))"

section \<open>The write path\<close>

text \<open>\<open>saturating_sub\<close> on \<open>u32\<close>; the result is in nanoseconds.\<close>

definition saturating_sub32 :: "u32 \<Rightarrow> u32 \<Rightarrow> u32" where
  "saturating_sub32 a b = (if b \<le> a then a - b else 0)"

definition calculate_block_duration :: "backoff \<Rightarrow> u32 \<Rightarrow> ip_rate_limit_config \<Rightarrow> int" where
  "calculate_block_duration backoff block_count config =
     (let base_secs = ucast (base_block_duration_seconds config) :: u64;
          max_secs = ucast (max_block_duration_seconds config) :: u64;
          duration_secs = backoff (block_duration_multiplier config) base_secs
            (saturating_sub32 block_count 1)
      in seconds (int (unat (min duration_secs max_secs))))"

definition ip_block_reason :: "u32 \<Rightarrow> i32 \<Rightarrow> string" where
  "ip_block_reason max_attempts block_count =
     ''Exceeded '' @ show_nat (unat max_attempts) @ '' failed login attempts (block #''
       @ show_int (sint block_count) @ '')''"

definition next_block_count :: "timestamp \<Rightarrow> ip_rate_limit_config \<Rightarrow> ip_block_row option \<Rightarrow> i32" where
  "next_block_count now config existing =
     (case existing of
        Some e \<Rightarrow>
          if now - ipb_last_attempt_at e \<le> secs32 (cooldown_reset_seconds config)
          then ipb_block_count e + 1 else 1
      | None \<Rightarrow> 1)"

text \<open>The model written for an address that is to be blocked now.\<close>

definition ip_block_model ::
  "env \<Rightarrow> backoff \<Rightarrow> uuid \<Rightarrow> ip_addr \<Rightarrow> timestamp \<Rightarrow> ip_rate_limit_config \<Rightarrow> ip_block_row option
   \<Rightarrow> ip_block_row" where
  "ip_block_model E backoff new_id ip now limits existing =
     (let block_count = next_block_count now limits existing
      in \<lparr> ipb_id = (case existing of None \<Rightarrow> new_id | Some e \<Rightarrow> ipb_id e),
           ipb_ip_address = show_ip E ip, ipb_block_count = block_count, ipb_blocked_at = now,
           ipb_expires_at = now + calculate_block_duration backoff block_count limits,
           ipb_reason = ip_block_reason (ip_max_attempts limits) block_count,
           ipb_last_attempt_at = now \<rparr>)"

definition create_or_update_ip_block ::
  "env \<Rightarrow> backoff \<Rightarrow> uuid \<Rightarrow> ip_addr \<Rightarrow> timestamp \<Rightarrow> 'net login_protection_config \<Rightarrow> ip_block_row list
   \<Rightarrow> ip_block_row list \<times> ip_block_info option" where
  "create_or_update_ip_block E backoff new_id ip now config blocks =
     (let existing = find_by ipb_ip_address (show_ip E ip) blocks
      in if (case existing of None \<Rightarrow> False | Some e \<Rightarrow> ipb_expires_at e > now) then (blocks, None)
         else
           let model = ip_block_model E backoff new_id ip now (lpc_ip_rate_limit config) existing
           in (case existing of
                 Some e \<Rightarrow> update_many (\<lambda>r. ipb_id r = ipb_id model) (\<lambda>_. model) blocks
               | None \<Rightarrow> blocks @ [model],
               Some (block_info_of ip model)))"

definition user_lockout_reason :: "u32 \<Rightarrow> string" where
  "user_lockout_reason max_attempts =
     ''Exceeded '' @ show_nat (unat max_attempts) @ '' failed login attempts''"

definition create_user_lockout ::
  "env \<Rightarrow> uuid \<Rightarrow> string \<Rightarrow> i32 \<Rightarrow> timestamp \<Rightarrow> 'net login_protection_config \<Rightarrow> user_lockout_row list
   \<Rightarrow> user_lockout_row list \<times> user_lock_info option" where
  "create_user_lockout E new_id username failed_count now config lockouts =
     (let already_locked = find (\<lambda>l. username_eq_ci E username (ulo_username l)) lockouts \<noteq> None
      in if already_locked then (lockouts, None)
         else
           let limits = lpc_user_lockout config;
               row = \<lparr> ulo_id = new_id, ulo_username = username, ulo_locked_at = now,
                       ulo_expires_at = (if auto_unlock limits
                         then Some (now + secs32 (lockout_duration_seconds limits)) else None),
                       ulo_reason = user_lockout_reason (user_max_attempts limits),
                       ulo_failed_attempt_count = failed_count \<rparr>
           in (lockouts @ [row], Some (lock_info_of row)))"

text \<open>The identifiers the database rows of one recording get.\<close>

record fresh_ids =
  new_attempt_id :: uuid
  new_block_id :: uuid
  new_lockout_id :: uuid

definition attempts_of_ip :: "string \<Rightarrow> timestamp \<Rightarrow> failed_attempt_row list \<Rightarrow> nat" where
  "attempts_of_ip ip_str window_start rows =
     length (filter (\<lambda>a. fa_remote_ip a = ip_str \<and> fa_timestamp a \<ge> window_start) rows)"

definition attempts_of_user :: "env \<Rightarrow> string \<Rightarrow> timestamp \<Rightarrow> failed_attempt_row list \<Rightarrow> nat" where
  "attempts_of_user E username window_start rows =
     length (filter (\<lambda>a. username_eq_ci E username (fa_username a) \<and> fa_timestamp a \<ge> window_start) rows)"

definition maybe_block_ip ::
  "env \<Rightarrow> ('net \<Rightarrow> ip_addr \<Rightarrow> bool) \<Rightarrow> backoff \<Rightarrow> uuid \<Rightarrow> ip_addr \<Rightarrow> timestamp
   \<Rightarrow> 'net login_protection_config \<Rightarrow> failed_attempt_row list \<Rightarrow> ip_block_row list
   \<Rightarrow> ip_block_row list \<times> ip_block_info option" where
  "maybe_block_ip E contains backoff new_id remote_ip now config attempts blocks =
     (if \<not> is_ip_exempt contains config remote_ip
      then let ip_window_start = now - secs32 (ip_time_window_seconds (lpc_ip_rate_limit config));
               ip_count = attempts_of_ip (show_ip E remote_ip) ip_window_start attempts
           in if ip_count \<ge> unat (ip_max_attempts (lpc_ip_rate_limit config))
              then create_or_update_ip_block E backoff new_id remote_ip now config blocks
              else (blocks, None)
      else (blocks, None))"

definition maybe_lock_user ::
  "env \<Rightarrow> uuid \<Rightarrow> string \<Rightarrow> timestamp \<Rightarrow> 'net login_protection_config \<Rightarrow> failed_attempt_row list
   \<Rightarrow> 'net lp_db \<Rightarrow> user_lockout_row list \<times> user_lock_info option" where
  "maybe_lock_user E new_id username now config attempts db =
     (let user_window_start = now - secs32 (user_time_window_seconds (lpc_user_lockout config));
          user_count = attempts_of_user E username user_window_start attempts
      in if user_count \<ge> unat (user_max_attempts (lpc_user_lockout config))
         then case user_admin_status E db username of
                None \<Rightarrow> (db_user_lockouts db, None)
              | Some is_admin \<Rightarrow>
                  if is_admin \<and> exempt_admins (lpc_user_lockout config)
                  then (db_user_lockouts db, None)
                  else create_user_lockout E new_id username (word_of_nat user_count) now config
                         (db_user_lockouts db)
         else (db_user_lockouts db, None))"

definition attempt_row :: "env \<Rightarrow> uuid \<Rightarrow> timestamp \<Rightarrow> failed_attempt_info \<Rightarrow> failed_attempt_row" where
  "attempt_row E new_id now attempt =
     \<lparr> fa_id = new_id, fa_username = att_username attempt,
       fa_remote_ip = show_ip E (to_canonical (att_remote_ip attempt)),
       fa_protocol = protocol_name (att_protocol attempt),
       fa_credential_type = att_credential_type attempt, fa_timestamp = now \<rparr>"

definition record_failed_attempt ::
  "env \<Rightarrow> ('net \<Rightarrow> ip_addr \<Rightarrow> bool) \<Rightarrow> backoff \<Rightarrow> fresh_ids \<Rightarrow> timestamp \<Rightarrow> failed_attempt_info
   \<Rightarrow> 'net lp_service \<Rightarrow> 'net lp_service" where
  "record_failed_attempt E contains backoff ids now attempt svc =
     (let remote_ip = to_canonical (att_remote_ip attempt); username = att_username attempt;
          db = svc_db svc; config = read_config db
      in if \<not> lpc_enabled config then svc
         else
           let attempts = db_failed_attempts db @ [attempt_row E (new_attempt_id ids) now attempt];
               (blocks, new_block) = maybe_block_ip E contains backoff (new_block_id ids) remote_ip now
                 config attempts (db_ip_blocks db);
               (lockouts, new_lock) = maybe_lock_user E (new_lockout_id ids) username now config attempts db;
               cache = (case new_block of None \<Rightarrow> svc_cache svc
                        | Some info \<Rightarrow> cache_block_ip remote_ip info (svc_cache svc));
               cache = (case new_lock of None \<Rightarrow> cache
                        | Some info \<Rightarrow> cache_lock_user E username info cache)
           in svc\<lparr> svc_db := db\<lparr> db_failed_attempts := attempts, db_ip_blocks := blocks,
                                  db_user_lockouts := lockouts \<rparr>,
                   svc_cache := cache \<rparr>)"

definition clear_failed_attempts :: "env \<Rightarrow> ip_addr \<Rightarrow> string \<Rightarrow> 'net lp_service \<Rightarrow> 'net lp_service" where
  "clear_failed_attempts E ip username svc =
     (let ip = to_canonical ip; db = svc_db svc
      in if \<not> lpc_enabled (read_config db) then svc
         else svc\<lparr> svc_db := db\<lparr> db_failed_attempts := delete_many
                (\<lambda>a. fa_remote_ip a = show_ip E ip \<and> username_eq_ci E username (fa_username a))
                (db_failed_attempts db) \<rparr> \<rparr>)"

section \<open>Administration\<close>

definition unblock_ip :: "env \<Rightarrow> ip_addr \<Rightarrow> 'net lp_service \<Rightarrow> 'net lp_service" where
  "unblock_ip E ip svc =
     (let db = svc_db svc; forms = [show_ip E ip, show_ip E (to_canonical ip)]
      in svc\<lparr> svc_db := db\<lparr>
                db_ip_blocks := delete_many (\<lambda>b. ipb_ip_address b \<in> set forms) (db_ip_blocks db),
                db_failed_attempts := delete_many (\<lambda>a. fa_remote_ip a \<in> set forms)
                  (db_failed_attempts db) \<rparr>,
              svc_cache := cache_unblock_ip (to_canonical ip) (svc_cache svc) \<rparr>)"

definition unlock_user :: "env \<Rightarrow> string \<Rightarrow> 'net lp_service \<Rightarrow> 'net lp_service" where
  "unlock_user E username svc =
     (let db = svc_db svc
      in svc\<lparr> svc_db := db\<lparr>
                db_user_lockouts := delete_many (\<lambda>l. username_eq_ci E username (ulo_username l))
                  (db_user_lockouts db),
                db_failed_attempts := delete_many (\<lambda>a. username_eq_ci E username (fa_username a))
                  (db_failed_attempts db) \<rparr>,
              svc_cache := cache_unlock_user E username (svc_cache svc) \<rparr>)"

record security_status =
  blocked_ip_count :: nat
  locked_user_count :: nat
  failed_attempts_last_hour :: nat
  failed_attempts_last_24h :: nat

definition get_security_status :: "timestamp \<Rightarrow> 'net lp_service \<Rightarrow> security_status" where
  "get_security_status now svc =
     (let db = svc_db svc
      in \<lparr> blocked_ip_count = rows_affected (\<lambda>b. ipb_expires_at b > now) (db_ip_blocks db),
           locked_user_count = rows_affected (\<lambda>l. none_or_later (ulo_expires_at l) now) (db_user_lockouts db),
           failed_attempts_last_hour =
             rows_affected (\<lambda>a. fa_timestamp a \<ge> now - seconds 3600) (db_failed_attempts db),
           failed_attempts_last_24h =
             rows_affected (\<lambda>a. fa_timestamp a \<ge> now - seconds 86400) (db_failed_attempts db) \<rparr>)"

record blocked_ip_entry =
  be_info :: ip_block_info
  be_is_exempt :: bool

definition list_blocked_ips ::
  "env \<Rightarrow> ('net \<Rightarrow> ip_addr \<Rightarrow> bool) \<Rightarrow> timestamp \<Rightarrow> 'net lp_service \<Rightarrow> blocked_ip_entry list" where
  "list_blocked_ips E contains now svc =
     (let db = svc_db svc; config = read_config db
      in List.map_filter (\<lambda>block. map_option
             (\<lambda>ip. \<lparr> be_info = block_info_of ip block, be_is_exempt = is_ip_exempt contains config ip \<rparr>)
             (parse_ip E (ipb_ip_address block)))
           (filter (\<lambda>b. ipb_expires_at b > now) (db_ip_blocks db)))"

definition list_locked_users :: "timestamp \<Rightarrow> 'net lp_service \<Rightarrow> user_lock_info list" where
  "list_locked_users now svc =
     map lock_info_of
       (filter (\<lambda>l. none_or_later (ulo_expires_at l) now) (db_user_lockouts (svc_db svc)))"

record cleanup_stats =
  expired_blocks_removed :: nat
  expired_lockouts_removed :: nat
  old_attempts_removed :: nat

definition lockout_expired :: "timestamp \<Rightarrow> user_lockout_row \<Rightarrow> bool" where
  "lockout_expired now l = (case ulo_expires_at l of None \<Rightarrow> False | Some e \<Rightarrow> e < now)"

definition cleanup_expired :: "timestamp \<Rightarrow> 'net lp_service \<Rightarrow> 'net lp_service \<times> cleanup_stats" where
  "cleanup_expired now svc =
     (let db = svc_db svc; config = read_config db
      in if \<not> lpc_enabled config
         then (svc, \<lparr> expired_blocks_removed = 0, expired_lockouts_removed = 0, old_attempts_removed = 0 \<rparr>)
         else
           let retention_cutoff = now - secs32 (lpc_retention_seconds config);
               old_block = (\<lambda>b. ipb_expires_at b < now);
               old_attempt = (\<lambda>a. fa_timestamp a < retention_cutoff)
           in (svc\<lparr> svc_db := db\<lparr>
                      db_ip_blocks := delete_many old_block (db_ip_blocks db),
                      db_user_lockouts := delete_many (lockout_expired now) (db_user_lockouts db),
                      db_failed_attempts := delete_many old_attempt (db_failed_attempts db) \<rparr>,
                    svc_cache := clear_expired now (svc_cache svc) \<rparr>,
               \<lparr> expired_blocks_removed = rows_affected old_block (db_ip_blocks db),
                 expired_lockouts_removed = rows_affected (lockout_expired now) (db_user_lockouts db),
                 old_attempts_removed = rows_affected old_attempt (db_failed_attempts db) \<rparr>))"

section \<open>The service as a step relation\<close>

datatype 'net lp_op =
    Op_CheckIp ip_addr
  | Op_CheckUser string
  | Op_Record fresh_ids failed_attempt_info
  | Op_ClearAttempts ip_addr string
  | Op_UnblockIp ip_addr
  | Op_UnlockUser string
  | Op_Cleanup
  | Op_SaveParameters "'net lp_parameters"
  | Op_ChangeUsers "'net user list" "(uuid \<times> uuid) list"

inductive lp_step ::
  "env \<Rightarrow> ('net \<Rightarrow> ip_addr \<Rightarrow> bool) \<Rightarrow> backoff \<Rightarrow> timestamp \<Rightarrow> 'net lp_op
   \<Rightarrow> 'net lp_service \<Rightarrow> 'net lp_service \<Rightarrow> bool"
  for E contains backoff now where
  check_ip: "lp_step E contains backoff now (Op_CheckIp ip) svc (fst (check_ip_blocked E contains now ip svc))"
| check_user: "lp_step E contains backoff now (Op_CheckUser u) svc (fst (check_user_locked E now u svc))"
| record_attempt: "new_block_id ids \<notin> ipb_id ` set (db_ip_blocks (svc_db svc)) \<Longrightarrow>
    lp_step E contains backoff now (Op_Record ids att) svc
      (record_failed_attempt E contains backoff ids now att svc)"
| clear: "lp_step E contains backoff now (Op_ClearAttempts ip u) svc (clear_failed_attempts E ip u svc)"
| unblock: "lp_step E contains backoff now (Op_UnblockIp ip) svc (unblock_ip E ip svc)"
| unlock: "lp_step E contains backoff now (Op_UnlockUser u) svc (unlock_user E u svc)"
| cleanup: "lp_step E contains backoff now Op_Cleanup svc (fst (cleanup_expired now svc))"
| save_parameters: "lp_step E contains backoff now (Op_SaveParameters params) svc
    (svc\<lparr> svc_db := (svc_db svc)\<lparr> db_parameters := params \<rparr> \<rparr>)"
| change_users: "lp_step E contains backoff now (Op_ChangeUsers us as) svc
    (svc\<lparr> svc_db := (svc_db svc)\<lparr> db_users := us, db_user_admin_roles := as \<rparr> \<rparr>)"

text \<open>
  The tables as the service keeps them: identifiers and addresses of blocks are unique and
  the addresses are stored in canonical form; no two lockouts name the same account.
\<close>

definition blocks_ok :: "env \<Rightarrow> ip_block_row list \<Rightarrow> bool" where
  "blocks_ok E blocks \<longleftrightarrow> unique_keys ipb_id blocks \<and> unique_keys ipb_ip_address blocks
     \<and> (\<forall>b\<in>set blocks. \<exists>ip. to_canonical ip = ip \<and> ipb_ip_address b = show_ip E ip)"

definition lockouts_ok :: "env \<Rightarrow> user_lockout_row list \<Rightarrow> bool" where
  "lockouts_ok E lockouts \<longleftrightarrow> unique_keys (\<lambda>l. sql_lower E (ulo_username l)) lockouts"

abbreviation blocks_mirrored :: "env \<Rightarrow> ip_block_row list \<Rightarrow> (ip_addr \<rightharpoonup> ip_block_info) \<Rightarrow> bool" where
  "blocks_mirrored E \<equiv> mirrors (show_ip E) ipb_ip_address block_info_of"

abbreviation lockouts_mirrored :: "env \<Rightarrow> user_lockout_row list \<Rightarrow> (string \<rightharpoonup> user_lock_info) \<Rightarrow> bool" where
  "lockouts_mirrored E \<equiv> mirrors (\<lambda>k. k) (\<lambda>l. sql_lower E (ulo_username l)) (\<lambda>_. lock_info_of)"

definition lp_inv :: "env \<Rightarrow> 'net lp_service \<Rightarrow> bool" where
  "lp_inv E svc \<longleftrightarrow> blocks_ok E (db_ip_blocks (svc_db svc)) \<and> lockouts_ok E (db_user_lockouts (svc_db svc))
     \<and> blocks_mirrored E (db_ip_blocks (svc_db svc)) (blocked_ips (svc_cache svc))
     \<and> lockouts_mirrored E (db_user_lockouts (svc_db svc)) (locked_users (svc_cache svc))"

inductive lp_reachable ::
  "env \<Rightarrow> ('net \<Rightarrow> ip_addr \<Rightarrow> bool) \<Rightarrow> backoff \<Rightarrow> 'net lp_service \<Rightarrow> bool"
  for E contains backoff where
  start: "blocks_ok E (db_ip_blocks db) \<Longrightarrow> lockouts_ok E (db_user_lockouts db) \<Longrightarrow>
    lp_reachable E contains backoff (lp_new E now db)"
| step: "lp_reachable E contains backoff svc \<Longrightarrow> lp_step E contains backoff now op svc svc' \<Longrightarrow>
    lp_reachable E contains backoff svc'"

section \<open>The invariant is kept\<close>

lemma blocks_okD:
  assumes "blocks_ok E blocks"
  shows "unique_keys ipb_id blocks" "unique_keys ipb_ip_address blocks"
    "b \<in> set blocks \<Longrightarrow> \<exists>ip. to_canonical ip = ip \<and> ipb_ip_address b = show_ip E ip"
  using assms by (auto simp: blocks_ok_def)

lemma blocks_ok_delete [intro]: "blocks_ok E blocks \<Longrightarrow> blocks_ok E (delete_many P blocks)"
  by (auto simp: blocks_ok_def)

lemma lockouts_ok_delete [intro]: "lockouts_ok E lockouts \<Longrightarrow> lockouts_ok E (delete_many P lockouts)"
  by (auto simp: lockouts_ok_def)

lemma cache_fields [simp]:
  "blocked_ips (cache_block_ip ip bi c) = (blocked_ips c)(ip \<mapsto> bi)"
  "locked_users (cache_block_ip ip bi c) = locked_users c"
  "blocked_ips (cache_lock_user E u li c) = blocked_ips c"
  "locked_users (cache_lock_user E u li c) = (locked_users c)(lower E u \<mapsto> li)"
  "blocked_ips (cache_unblock_ip ip c) = (blocked_ips c)(ip := None)"
  "locked_users (cache_unblock_ip ip c) = locked_users c"
  "blocked_ips (cache_unlock_user E u c) = blocked_ips c"
  "locked_users (cache_unlock_user E u c) = (locked_users c)(lower E u := None)"
  by (simp_all add: cache_block_ip_def cache_lock_user_def cache_unblock_ip_def cache_unlock_user_def)

lemma block_live_info [simp]: "block_live now (block_info_of ip b) \<longleftrightarrow> ipb_expires_at b > now"
  by (simp add: block_live_def block_info_of_def)

lemma lock_live_info [simp]: "lock_live now (lock_info_of l) \<longleftrightarrow> none_or_later (ulo_expires_at l) now"
  by (simp add: lock_live_def lock_info_of_def)

lemma lockout_expired_not_live: "none_or_later (ulo_expires_at l) now \<Longrightarrow> \<not> lockout_expired now l"
  by (auto simp: none_or_later_def lockout_expired_def split: option.splits)

text \<open>What the table says about an address or an account, cache aside.\<close>

abbreviation stored_block :: "env \<Rightarrow> timestamp \<Rightarrow> 'net lp_db \<Rightarrow> ip_addr \<Rightarrow> ip_block_info option" where
  "stored_block E now db \<equiv>
     stored_entry (show_ip E) ipb_ip_address block_info_of (block_live now) (db_ip_blocks db)"

abbreviation stored_lockout :: "env \<Rightarrow> timestamp \<Rightarrow> 'net lp_db \<Rightarrow> string \<Rightarrow> user_lock_info option" where
  "stored_lockout E now db \<equiv>
     stored_entry (\<lambda>k. k) (\<lambda>l. sql_lower E (ulo_username l)) (\<lambda>_. lock_info_of) (lock_live now)
       (db_user_lockouts db)"

lemma stored_block_find:
  "stored_block E now db ip = map_option (block_info_of ip)
     (find (\<lambda>b. ipb_ip_address b = show_ip E ip \<and> ipb_expires_at b > now) (db_ip_blocks db))"
  by (simp add: stored_entry_def)

lemma stored_lockout_find:
  assumes "lockouts_ok E (db_user_lockouts db)"
  shows "stored_lockout E now db (lower E u) =
    (case find (\<lambda>l. username_eq_ci E u (ulo_username l)) (db_user_lockouts db) of
       None \<Rightarrow> None
     | Some l \<Rightarrow> if none_or_later (ulo_expires_at l) now then Some (lock_info_of l) else None)"
proof -
  have "find (\<lambda>l. sql_lower E (ulo_username l) = lower E u \<and> none_or_later (ulo_expires_at l) now)
      (db_user_lockouts db)
    = (case find (\<lambda>l. sql_lower E (ulo_username l) = lower E u) (db_user_lockouts db) of
         None \<Rightarrow> None | Some l \<Rightarrow> if none_or_later (ulo_expires_at l) now then Some l else None)"
    using assms unfolding lockouts_ok_def by (rule find_unique_and [symmetric])
  then show ?thesis
    by (simp add: stored_entry_def username_eq_ci_def split: option.splits)
qed

context address_text
begin

lemma load_blocks_mirrored:
  assumes "blocks_mirrored E blocks m" and "\<forall>b\<in>set bs. b \<in> set blocks" and "blocks_ok E blocks"
  shows "blocks_mirrored E blocks (load_blocks E bs m)"
  using assms(1,2)
proof (induction bs arbitrary: m)
  case (Cons b bs)
  from Cons.prems(2) blocks_okD(3) [OF assms(3)] obtain ip where
    "to_canonical ip = ip" "ipb_ip_address b = show_ip E ip" by auto
  then have "parse_ip E (ipb_ip_address b) = Some ip" "to_canonical ip = ip"
    by (simp_all add: ip_text_okD [OF text_ok])
  moreover have "blocks_mirrored E blocks (m(ip \<mapsto> block_info_of ip b))"
    by (rule blocks.fill_mirrors) (use Cons.prems \<open>ipb_ip_address b = show_ip E ip\<close> in auto)
  ultimately show ?case using Cons by simp
qed simp

lemma check_ip_result:
  assumes "lp_inv E svc"
  shows "snd (check_ip_blocked E contains now ip svc) =
    (if lpc_enabled (read_config (svc_db svc)) \<and> \<not> is_ip_exempt contains (read_config (svc_db svc)) ip
     then stored_block E now (svc_db svc) (to_canonical ip) else None)"
proof -
  have mirrored: "blocks_mirrored E (db_ip_blocks (svc_db svc)) (blocked_ips (svc_cache svc))"
    and unique: "unique_keys ipb_ip_address (db_ip_blocks (svc_db svc))"
    using assms by (auto simp: lp_inv_def dest: blocks_okD)
  have "stored_block E now (svc_db svc) (to_canonical ip) = Some info"
    if "is_ip_blocked now (svc_cache svc) (to_canonical ip) = Some info" for info
    using blocks.hit_is_stored [OF mirrored unique] that by (simp add: is_ip_blocked_def)
  then show ?thesis
    by (auto simp: check_ip_blocked_def is_ip_exempt_def Let_def stored_block_find split: option.splits)
qed

lemma check_ip_inv:
  assumes "lp_inv E svc"
  shows "lp_inv E (fst (check_ip_blocked E contains now ip svc))"
proof -
  have "blocks_mirrored E (db_ip_blocks (svc_db svc))
      ((blocked_ips (svc_cache svc))(ip' \<mapsto> block_info_of ip' b))"
    if "find (\<lambda>b. ipb_ip_address b = show_ip E ip' \<and> ipb_expires_at b > now) (db_ip_blocks (svc_db svc)) = Some b"
    for ip' b
    by (rule blocks.fill_mirrors) (use that assms in \<open>auto simp: lp_inv_def find_Some_iff\<close>)
  with assms show ?thesis
    by (auto simp: check_ip_blocked_def Let_def lp_inv_def split: option.splits)
qed

lemma block_written:
  assumes ok: "blocks_ok E blocks" and canonical: "to_canonical ip = ip"
    and fresh: "new_id \<notin> ipb_id ` set blocks"
    and mirrored: "blocks_mirrored E blocks m"
    and result: "create_or_update_ip_block E backoff new_id ip now config blocks = (blocks', Some info)"
  shows "blocks_ok E blocks' \<and> blocks_mirrored E blocks' (m(ip \<mapsto> info))
    \<and> stored_entry (show_ip E) ipb_ip_address block_info_of (\<lambda>_. True) blocks' ip = Some info"
proof -
  note unique = blocks_okD(1,2) [OF ok]
  define existing where "existing = find_by ipb_ip_address (show_ip E ip) blocks"
  define model where
    "model = ip_block_model E backoff new_id ip now (lpc_ip_rate_limit config) existing"
  have info: "info = block_info_of ip model" and blocks': "blocks' =
      (case existing of Some e \<Rightarrow> update_many (\<lambda>r. ipb_id r = ipb_id model) (\<lambda>_. model) blocks
       | None \<Rightarrow> blocks @ [model])"
    using result [unfolded create_or_update_ip_block_def Let_def, folded existing_def, folded model_def]
    by (auto split: if_splits)
  have address: "ipb_ip_address model = show_ip E ip"
    and model_id: "ipb_id model = (case existing of None \<Rightarrow> new_id | Some e \<Rightarrow> ipb_id e)"
    by (simp_all add: model_def ip_block_model_def Let_def)
  have shape: "set blocks' = insert model {b \<in> set blocks. ipb_ip_address b \<noteq> show_ip E ip}
      \<and> unique_keys ipb_id blocks' \<and> unique_keys ipb_ip_address blocks'"
  proof (cases existing)
    case None
    then have absent: "show_ip E ip \<notin> ipb_ip_address ` set blocks"
      by (simp add: existing_def find_by_None_iff)
    have "ipb_ip_address b \<noteq> show_ip E ip" if "b \<in> set blocks" for b
      using absent that by (metis imageI)
    then have "{b \<in> set blocks. ipb_ip_address b \<noteq> show_ip E ip} = set blocks" by blast
    with absent show ?thesis
      using None unique fresh address by (simp add: blocks' unique_keys_def model_id)
  next
    case (Some e)
    then have e: "e \<in> set blocks" "ipb_ip_address e = show_ip E ip"
      using find_by_SomeD [of ipb_ip_address "show_ip E ip" blocks e] by (simp_all add: existing_def)
    have m: "ipb_id model = ipb_id e" using Some by (simp add: model_id)
    have rows: "blocks' = update_many (\<lambda>r. ipb_id r = ipb_id e) (\<lambda>_. model) blocks"
      using Some m by (simp add: blocks')
    have "b = e" if "b \<in> set blocks" "ipb_ip_address b = show_ip E ip" for b
      by (rule unique_keys_eq [OF unique(2) that(1) e(1)]) (simp add: that e)
    with e have "set blocks - {e} = {b \<in> set blocks. ipb_ip_address b \<noteq> show_ip E ip}" by blast
    moreover have "map ipb_id blocks' = map ipb_id blocks"
      unfolding rows by (rule map_replace_row [OF unique(1) e(1) m])
    moreover have "map ipb_ip_address blocks' = map ipb_ip_address blocks"
      unfolding rows by (rule map_replace_row [OF unique(1) e(1)]) (simp add: address e)
    ultimately show ?thesis
      using unique set_replace_row [OF unique(1) e(1), of model] by (simp add: rows unique_keys_def)
  qed
  then have "blocks_ok E blocks'"
    using ok canonical address by (auto simp: blocks_ok_def)
  moreover have "blocks_mirrored E blocks' (m(ip \<mapsto> info))"
    unfolding info by (rule blocks.replace_mirrors [OF mirrored _ address]) (use shape in simp)
  moreover have "find (\<lambda>b. ipb_ip_address b = show_ip E ip) blocks' = Some model"
    using find_by_unique [of ipb_ip_address blocks' model] shape address by (simp add: find_by_def)
  ultimately show ?thesis by (simp add: stored_entry_def info)
qed

end

lemma no_new_block:
  "create_or_update_ip_block E backoff new_id ip now config blocks = (blocks', None) \<Longrightarrow> blocks' = blocks"
  by (auto simp: create_or_update_ip_block_def Let_def split: if_splits)

lemma no_new_lockout:
  "create_user_lockout E new_id u n now config ls = (ls', None) \<Longrightarrow> ls' = ls"
  by (auto simp: create_user_lockout_def Let_def split: if_splits)

text \<open>The account side, where both case mappings meet.\<close>

locale outside_text = address_text +
  assumes case_maps: "case_maps_agree E"
begin

lemma lower_eq: "sql_lower E s = lower E s"
  using case_maps by (simp add: case_maps_agree_def)

lemma load_lockouts_mirrored:
  assumes "lockouts_mirrored E lockouts m" and "set ls \<subseteq> set lockouts"
  shows "lockouts_mirrored E lockouts (load_lockouts E now ls m)"
  using assms
proof (induction ls arbitrary: m)
  case (Cons l ls)
  have "lockouts_mirrored E lockouts (m(lower E (ulo_username l) \<mapsto> lock_info_of l))"
    by (rule lockouts.fill_mirrors) (use Cons.prems in \<open>auto simp: lower_eq\<close>)
  with Cons show ?case by simp
qed simp

lemma lp_new_inv:
  assumes "blocks_ok E (db_ip_blocks db)" and "lockouts_ok E (db_user_lockouts db)"
  shows "lp_inv E (lp_new E now db)"
proof -
  have "blocks_mirrored E (db_ip_blocks db)
      (load_blocks E (filter (\<lambda>b. ipb_expires_at b > now) (db_ip_blocks db)) Map.empty)"
    by (rule load_blocks_mirrored [OF blocks.empty_mirrors _ assms(1)]) simp
  moreover have "lockouts_mirrored E (db_user_lockouts db)
      (load_lockouts E now (db_user_lockouts db) Map.empty)"
    by (rule load_lockouts_mirrored [OF lockouts.empty_mirrors]) simp
  ultimately show ?thesis
    using assms by (simp add: lp_inv_def lp_new_def load_from_db_def cache_new_def
        blocks.empty_mirrors lockouts.empty_mirrors)
qed

lemma check_user_result:
  assumes "lp_inv E svc"
  shows "snd (check_user_locked E now u svc) =
    (if lpc_enabled (read_config (svc_db svc))
        \<and> \<not> (exempt_admins (lpc_user_lockout (read_config (svc_db svc)))
             \<and> user_admin_status E (svc_db svc) u = Some True)
     then stored_lockout E now (svc_db svc) (lower E u) else None)"
proof -
  have mirrored: "lockouts_mirrored E (db_user_lockouts (svc_db svc)) (locked_users (svc_cache svc))"
    and ok: "lockouts_ok E (db_user_lockouts (svc_db svc))"
    using assms by (auto simp: lp_inv_def)
  have "stored_lockout E now (svc_db svc) (lower E u) = Some info"
    if "is_user_locked E now (svc_cache svc) u = Some info" for info
    using lockouts.hit_is_stored [OF mirrored ok [unfolded lockouts_ok_def]] that
    by (simp add: is_user_locked_def)
  then show ?thesis
    by (auto simp: check_user_locked_def Let_def stored_lockout_find [OF ok] split: option.splits if_splits)
qed

lemma check_user_inv:
  assumes "lp_inv E svc"
  shows "lp_inv E (fst (check_user_locked E now u svc))"
proof -
  have "lockouts_mirrored E (db_user_lockouts (svc_db svc))
      ((locked_users (svc_cache svc))(lower E u \<mapsto> lock_info_of l))"
    if "find (\<lambda>l. username_eq_ci E u (ulo_username l)) (db_user_lockouts (svc_db svc)) = Some l" for l
    by (rule lockouts.fill_mirrors)
       (use that assms in \<open>auto simp: lp_inv_def find_Some_iff username_eq_ci_def\<close>)
  with assms show ?thesis
    by (auto simp: check_user_locked_def Let_def lp_inv_def split: option.splits)
qed

lemma lockout_written:
  assumes "lockouts_ok E ls" and "lockouts_mirrored E ls m"
    and "create_user_lockout E new_id u n now config ls = (ls', Some info)"
  shows "lockouts_ok E ls' \<and> lockouts_mirrored E ls' (m(lower E u \<mapsto> info))"
proof -
  obtain row where row: "ls' = ls @ [row]" "info = lock_info_of row" "ulo_username row = u"
    and free: "find (\<lambda>l. username_eq_ci E u (ulo_username l)) ls = None"
    using assms(3) by (auto simp: create_user_lockout_def Let_def split: if_splits)
  have "lockouts_ok E ls'"
    using assms(1) row free
    by (auto simp: lockouts_ok_def unique_keys_def find_None_iff username_eq_ci_def lower_eq)
  moreover have "lockouts_mirrored E ls' m"
    by (rule lockouts.grow_mirrors [OF assms(2)]) (auto simp: row)
  then have "lockouts_mirrored E ls' (m(lower E u \<mapsto> lock_info_of row))"
    by (rule lockouts.fill_mirrors) (simp_all add: row lower_eq)
  ultimately show ?thesis by (simp add: row)
qed

lemma unblock_inv:
  assumes "lp_inv E svc"
  shows "lp_inv E (unblock_ip E ip svc)"
proof -
  have "blocks_mirrored E
      (delete_many (\<lambda>b. ipb_ip_address b \<in> {show_ip E ip, show_ip E (to_canonical ip)})
        (db_ip_blocks (svc_db svc))) ((blocked_ips (svc_cache svc))(to_canonical ip := None))"
  proof (rule blocks.delete_mirrors)
    fix b
    assume "b \<in> set (db_ip_blocks (svc_db svc))"
      and "ipb_ip_address b \<in> {show_ip E ip, show_ip E (to_canonical ip)}"
    moreover from this assms obtain ip' where "to_canonical ip' = ip'" "ipb_ip_address b = show_ip E ip'"
      by (auto simp: lp_inv_def dest: blocks_okD(3))
    ultimately show "ipb_ip_address b = show_ip E (to_canonical ip)"
      by (auto simp: show_ip_inject [OF text_ok])
  qed (use assms in \<open>simp add: lp_inv_def\<close>)
  with assms show ?thesis
    by (auto simp: unblock_ip_def Let_def lp_inv_def)
qed

lemma unlock_inv:
  assumes "lp_inv E svc"
  shows "lp_inv E (unlock_user E u svc)"
proof -
  have "lockouts_mirrored E
      (delete_many (\<lambda>l. username_eq_ci E u (ulo_username l)) (db_user_lockouts (svc_db svc)))
      ((locked_users (svc_cache svc))(lower E u := None))"
    by (rule lockouts.delete_mirrors) (use assms in \<open>auto simp: lp_inv_def username_eq_ci_def\<close>)
  with assms show ?thesis by (auto simp: unlock_user_def Let_def lp_inv_def)
qed

lemma cleanup_inv:
  assumes "lp_inv E svc"
  shows "lp_inv E (fst (cleanup_expired now svc))"
proof -
  have "blocks_mirrored E (delete_many (\<lambda>b. ipb_expires_at b < now) (db_ip_blocks (svc_db svc)))
      (retain_live (block_live now) (blocked_ips (svc_cache svc)))"
    by (rule blocks.retain_mirrors) (use assms in \<open>auto simp: lp_inv_def\<close>)
  moreover have "lockouts_mirrored E (delete_many (lockout_expired now) (db_user_lockouts (svc_db svc)))
      (retain_live (lock_live now) (locked_users (svc_cache svc)))"
    by (rule lockouts.retain_mirrors)
       (use assms in \<open>auto simp: lp_inv_def dest: lockout_expired_not_live\<close>)
  ultimately show ?thesis
    using assms by (auto simp: cleanup_expired_def Let_def lp_inv_def clear_expired_def)
qed

lemma record_inv:
  assumes inv: "lp_inv E svc" and fresh: "new_block_id ids \<notin> ipb_id ` set (db_ip_blocks (svc_db svc))"
  shows "lp_inv E (record_failed_attempt E contains backoff ids now att svc)"
proof (cases "lpc_enabled (read_config (svc_db svc))")
  case False
  with inv show ?thesis by (simp add: record_failed_attempt_def Let_def)
next
  case True
  let ?db = "svc_db svc" and ?config = "read_config (svc_db svc)"
  let ?ip = "to_canonical (att_remote_ip att)" and ?u = "att_username att"
  define attempts where "attempts = db_failed_attempts ?db @ [attempt_row E (new_attempt_id ids) now att]"
  obtain blocks new_block where blocks: "maybe_block_ip E contains backoff (new_block_id ids) ?ip now
      ?config attempts (db_ip_blocks ?db) = (blocks, new_block)" by fastforce
  obtain ls new_lock where ls: "maybe_lock_user E (new_lockout_id ids) ?u now ?config attempts ?db
      = (ls, new_lock)" by fastforce
  have "blocks_ok E blocks \<and> blocks_mirrored E blocks
      (case new_block of None \<Rightarrow> blocked_ips (svc_cache svc) | Some info \<Rightarrow> (blocked_ips (svc_cache svc))(?ip \<mapsto> info))"
  proof (cases new_block)
    case None
    with blocks have "blocks = db_ip_blocks ?db"
      by (auto simp: maybe_block_ip_def Let_def dest: no_new_block split: if_splits)
    with None inv show ?thesis by (simp add: lp_inv_def)
  next
    case (Some info)
    with blocks have "create_or_update_ip_block E backoff (new_block_id ids) ?ip now ?config
        (db_ip_blocks ?db) = (blocks, Some info)"
      by (auto simp: maybe_block_ip_def Let_def split: if_splits)
    from block_written [where m = "blocked_ips (svc_cache svc)", OF _ _ fresh _ this] Some inv show ?thesis by (simp add: lp_inv_def)
  qed
  moreover have "lockouts_ok E ls \<and> lockouts_mirrored E ls
      (case new_lock of None \<Rightarrow> locked_users (svc_cache svc) | Some info \<Rightarrow> (locked_users (svc_cache svc))(lower E ?u \<mapsto> info))"
  proof (cases new_lock)
    case None
    with ls have "ls = db_user_lockouts ?db"
      by (auto simp: maybe_lock_user_def Let_def dest: no_new_lockout split: if_splits option.splits)
    with None inv show ?thesis by (simp add: lp_inv_def)
  next
    case (Some info)
    with ls obtain n where "create_user_lockout E (new_lockout_id ids) ?u n now ?config
        (db_user_lockouts ?db) = (ls, Some info)"
      by (auto simp: maybe_lock_user_def Let_def split: if_splits option.splits)
    from lockout_written [where m = "locked_users (svc_cache svc)", OF _ _ this] Some inv show ?thesis by (simp add: lp_inv_def)
  qed
  ultimately show ?thesis
    using True blocks ls
    by (cases new_block; cases new_lock)
       (simp_all add: record_failed_attempt_def Let_def attempts_def [symmetric] lp_inv_def)
qed

lemma lp_step_inv:
  assumes "lp_step E contains backoff now op svc svc'" and "lp_inv E svc"
  shows "lp_inv E svc'"
  using assms(1)
proof cases
  case (clear ip u)
  then show ?thesis using assms(2) by (simp add: clear_failed_attempts_def Let_def lp_inv_def)
qed (use assms(2) in \<open>simp_all add: check_ip_inv check_user_inv record_inv unblock_inv unlock_inv
      cleanup_inv, simp_all add: lp_inv_def\<close>)

lemma lp_reachable_inv: "lp_reachable E contains backoff svc \<Longrightarrow> lp_inv E svc"
  by (induction rule: lp_reachable.induct) (auto intro: lp_new_inv lp_step_inv)

end

interpretation sample_outside: outside_text sample_env
  by unfold_locales (rule sample_env_case_maps_agree)

section \<open>What one recording does\<close>

lemmas outside_textI = outside_text.intro [OF address_text.intro outside_text_axioms.intro]

lemma calculate_block_duration_bounds:
  "0 \<le> calculate_block_duration backoff n limits"
  "calculate_block_duration backoff n limits \<le> secs32 (max_block_duration_seconds limits)"
proof -
  have "unat (min d (ucast w :: u64)) \<le> unat w" for d and w :: u32
    by (simp add: min_def word_le_nat_alt)
  then show "calculate_block_duration backoff n limits \<le> secs32 (max_block_duration_seconds limits)"
    by (simp add: calculate_block_duration_def secs32_def seconds_def Let_def del: of_nat_unat)
qed (simp add: calculate_block_duration_def seconds_def Let_def)

lemma calculate_block_duration_pos:
  assumes "\<And>b n. backoff (block_duration_multiplier limits) b n \<noteq> 0" and "max_block_duration_seconds limits \<noteq> 0"
  shows "0 < calculate_block_duration backoff n limits"
proof -
  have "(ucast w :: u64) \<noteq> 0" if "w \<noteq> 0" for w :: u32
    using that by (metis unat_widen unat_eq_zero)
  then have "min (backoff (block_duration_multiplier limits) b n') (ucast (max_block_duration_seconds limits)) \<noteq> 0" for b n'
    using assms by (simp add: min_def)
  then show ?thesis
    by (simp add: calculate_block_duration_def seconds_def Let_def unat_gt_0 del: of_nat_unat)
qed

lemma record_enabled:
  fixes svc :: "'net lp_service" and E :: env and ids :: fresh_ids and now :: timestamp
    and att :: failed_attempt_info and contains :: "'net \<Rightarrow> ip_addr \<Rightarrow> bool" and backoff :: backoff
  assumes "lpc_enabled (read_config (svc_db svc))"
  defines "attempts \<equiv> db_failed_attempts (svc_db svc) @ [attempt_row E (new_attempt_id ids) now att]"
  defines "svc' \<equiv> record_failed_attempt E contains backoff ids now att svc"
  shows "db_failed_attempts (svc_db svc') = attempts"
    and "db_ip_blocks (svc_db svc') = fst (maybe_block_ip E contains backoff (new_block_id ids)
      (to_canonical (att_remote_ip att)) now (read_config (svc_db svc)) attempts (db_ip_blocks (svc_db svc)))"
    and "db_user_lockouts (svc_db svc') = fst (maybe_lock_user E (new_lockout_id ids) (att_username att) now
      (read_config (svc_db svc)) attempts (svc_db svc))"
    and "db_parameters (svc_db svc') = db_parameters (svc_db svc)"
    and "db_users (svc_db svc') = db_users (svc_db svc)"
    and "db_user_admin_roles (svc_db svc') = db_user_admin_roles (svc_db svc)"
  using assms(1)
  by (simp_all add: svc'_def attempts_def record_failed_attempt_def Let_def case_prod_unfold)

lemma record_disabled:
  "\<not> lpc_enabled (read_config (svc_db svc)) \<Longrightarrow> record_failed_attempt E contains backoff ids now att svc = svc"
  by (simp add: record_failed_attempt_def Let_def)

lemma record_config [simp]:
  "read_config (svc_db (record_failed_attempt E contains backoff ids now att svc)) = read_config (svc_db svc)"
  by (simp add: read_config_def record_failed_attempt_def Let_def case_prod_unfold)

lemma is_ip_exempt_canonical [simp]:
  "is_ip_exempt contains config (to_canonical ip) = is_ip_exempt contains config ip"
  by (simp add: is_ip_exempt_def)

text \<open>The row an address has after the threshold was reached.\<close>

context address_text
begin

lemma blocked_after:
  assumes "blocks_ok E blocks" and "to_canonical ip = ip" and "new_id \<notin> ipb_id ` set blocks"
  shows "\<exists>b \<in> set (fst (create_or_update_ip_block E backoff new_id ip now config blocks)).
    ipb_ip_address b = show_ip E ip
    \<and> (b \<in> set blocks \<and> ipb_expires_at b > now
       \<or> ipb_expires_at b = now + calculate_block_duration backoff (ipb_block_count b) (lpc_ip_rate_limit config))"
proof -
  obtain blocks' info where result:
    "create_or_update_ip_block E backoff new_id ip now config blocks = (blocks', info)" by fastforce
  show ?thesis
  proof (cases info)
    case None
    then show ?thesis
      using result find_by_SomeD [of ipb_ip_address "show_ip E ip" blocks]
      by (auto simp: create_or_update_ip_block_def Let_def split: if_splits option.splits)
  next
    case (Some i)
    let ?model = "ip_block_model E backoff new_id ip now (lpc_ip_rate_limit config)
      (find_by ipb_ip_address (show_ip E ip) blocks)"
    have i: "i = block_info_of ip ?model"
      using result Some by (auto simp: create_or_update_ip_block_def Let_def split: if_splits)
    from block_written [OF assms blocks.empty_mirrors result [unfolded Some]]
    obtain b where b: "b \<in> set blocks'" "ipb_ip_address b = show_ip E ip" "block_info_of ip b = i"
      by (auto simp: stored_entry_def find_Some_iff dest: nth_mem)
    from b(3) have "ipb_expires_at b = ipb_expires_at ?model" "ipb_block_count b = ipb_block_count ?model"
      by (simp_all add: i block_info_of_def)
    then have "ipb_expires_at b = now + calculate_block_duration backoff (ipb_block_count b) (lpc_ip_rate_limit config)"
      by (simp add: ip_block_model_def Let_def)
    with b result show ?thesis by auto
  qed
qed

lemma recorded_blocks:
  assumes ok: "blocks_ok E blocks"
    and "fst (create_or_update_ip_block E backoff new_id ip now config blocks) \<noteq> blocks"
  shows "(\<forall>b\<in>set blocks. ipb_expires_at b > now \<or> ipb_ip_address b \<noteq> show_ip E ip
        \<longrightarrow> b \<in> set (fst (create_or_update_ip_block E backoff new_id ip now config blocks)))
    \<and> (\<forall>b\<in>set (fst (create_or_update_ip_block E backoff new_id ip now config blocks)) - set blocks.
        ipb_ip_address b = show_ip E ip
        \<and> ipb_expires_at b \<le> now + secs32 (max_block_duration_seconds (lpc_ip_rate_limit config)))"
proof -
  let ?model = "ip_block_model E backoff new_id ip now (lpc_ip_rate_limit config)
    (find_by ipb_ip_address (show_ip E ip) blocks)"
  have model: "ipb_ip_address ?model = show_ip E ip"
    "ipb_expires_at ?model \<le> now + secs32 (max_block_duration_seconds (lpc_ip_rate_limit config))"
    by (simp_all add: ip_block_model_def Let_def calculate_block_duration_bounds)
  show ?thesis
  proof (cases "find_by ipb_ip_address (show_ip E ip) blocks")
    case None
    then show ?thesis
      using model by (auto simp: create_or_update_ip_block_def Let_def)
  next
    case (Some e)
    then have e: "e \<in> set blocks" "ipb_ip_address e = show_ip E ip"
      using find_by_SomeD [of ipb_ip_address "show_ip E ip" blocks e] by simp_all
    have old: "\<not> ipb_expires_at e > now"
      using assms(2) Some by (auto simp: create_or_update_ip_block_def)
    have id: "ipb_id ?model = ipb_id e" using Some by (simp add: ip_block_model_def Let_def)
    have "set (fst (create_or_update_ip_block E backoff new_id ip now config blocks))
        = insert ?model (set blocks - {e})"
      using Some old id set_replace_row [OF blocks_okD(1) [OF ok] e(1), of ?model]
      by (simp add: create_or_update_ip_block_def Let_def)
    with model old e show ?thesis by auto
  qed
qed

lemma stored_block_present:
  assumes "blocks_ok E (db_ip_blocks db)" and "b \<in> set (db_ip_blocks db)"
    and "ipb_ip_address b = show_ip E ip" and "ipb_expires_at b > now"
  shows "stored_block E now db ip = Some (block_info_of ip b)"
proof -
  have "find (\<lambda>b. ipb_ip_address b = show_ip E ip) (db_ip_blocks db) = Some b"
    using find_by_unique [OF blocks_okD(2) [OF assms(1)] assms(2)] assms(3) by (simp add: find_by_def)
  then have "find (\<lambda>b. ipb_ip_address b = show_ip E ip \<and> ipb_expires_at b > now) (db_ip_blocks db) = Some b"
    using find_unique_and [OF blocks_okD(2) [OF assms(1)], where k = "show_ip E ip"
        and Q = "\<lambda>b. ipb_expires_at b > now"] assms(4) by simp
  then show ?thesis by (simp add: stored_block_find)
qed

end

section \<open>Properties\<close>


text \<open>
  An address that is not exempt and reaches the limit of failed logins within the
  window is reported blocked from the next check on, however its address is written.
\<close>

theorem limit_reached_blocks:
  assumes "ip_text_ok E" and "case_maps_agree E" and "lp_reachable E contains backoff svc"
    and "new_block_id ids \<notin> ipb_id ` set (db_ip_blocks (svc_db svc))"
    and "config = read_config (svc_db svc)" and "lpc_enabled config"
    and "\<not> is_ip_exempt contains config (att_remote_ip att)"
    and "attempts_of_ip (show_ip E (to_canonical (att_remote_ip att)))
          (now - secs32 (ip_time_window_seconds (lpc_ip_rate_limit config)))
          (db_failed_attempts (svc_db svc) @ [attempt_row E (new_attempt_id ids) now att])
        \<ge> unat (ip_max_attempts (lpc_ip_rate_limit config))"
    and "\<And>b n. backoff (block_duration_multiplier (lpc_ip_rate_limit config)) b n \<noteq> 0"
    and "max_block_duration_seconds (lpc_ip_rate_limit config) \<noteq> 0"
    and "to_canonical ip = to_canonical (att_remote_ip att)"
  shows "snd (check_ip_blocked E contains now ip
    (record_failed_attempt E contains backoff ids now att svc)) \<noteq> None"
proof -
  note A = address_text.intro [OF assms(1)] and T = outside_textI [OF assms(1,2)]
  let ?svc' = "record_failed_attempt E contains backoff ids now att svc"
  let ?ip = "to_canonical (att_remote_ip att)"
  have inv: "lp_inv E svc" by (rule outside_text.lp_reachable_inv [OF T assms(3)])
  have inv': "lp_inv E ?svc'" by (rule outside_text.record_inv [OF T inv assms(4)])
  have "db_ip_blocks (svc_db ?svc') = fst (create_or_update_ip_block E backoff (new_block_id ids) ?ip now
      config (db_ip_blocks (svc_db svc)))"
    using assms(5-8) record_enabled(2) [where svc = svc and E = E and ids = ids and now = now and att = att]
    by (simp add: maybe_block_ip_def Let_def)
  with address_text.blocked_after [OF A _ _ assms(4), where ip = ?ip and backoff = backoff and now = now
      and config = config] inv
  obtain b where b: "b \<in> set (db_ip_blocks (svc_db ?svc'))" "ipb_ip_address b = show_ip E ?ip"
    and "ipb_expires_at b > now
       \<or> ipb_expires_at b = now + calculate_block_duration backoff (ipb_block_count b) (lpc_ip_rate_limit config)"
    by (auto simp: lp_inv_def)
  moreover have "0 < calculate_block_duration backoff (ipb_block_count b) (lpc_ip_rate_limit config)"
    by (rule calculate_block_duration_pos) (use assms(9,10) in auto)
  ultimately have "ipb_expires_at b > now" by auto
  with address_text.stored_block_present [OF A _ b] inv'
  have "stored_block E now (svc_db ?svc') ?ip \<noteq> None" by (auto simp: lp_inv_def)
  moreover have "\<not> is_ip_exempt contains config ip"
    using assms(7,11) by (simp add: is_ip_exempt_def)
  ultimately show ?thesis
    using address_text.check_ip_result [OF A inv'] assms(5,6,11) by simp
qed

text \<open>
  A recording never touches a block that is still active (a client that keeps retrying is
  let go when its block ends), never shortens or extends blocks of other addresses, and
  what it writes ends no later than the configured maximum from now.
\<close>

theorem recording_bounds_blocks:
  assumes "ip_text_ok E" and "case_maps_agree E" and "lp_reachable E contains backoff svc"
    and "new_block_id ids \<notin> ipb_id ` set (db_ip_blocks (svc_db svc))"
    and "svc' = record_failed_attempt E contains backoff ids now att svc"
  shows "(\<forall>b\<in>set (db_ip_blocks (svc_db svc)).
        ipb_expires_at b > now \<or> ipb_ip_address b \<noteq> show_ip E (to_canonical (att_remote_ip att))
        \<longrightarrow> b \<in> set (db_ip_blocks (svc_db svc')))
    \<and> (\<forall>b\<in>set (db_ip_blocks (svc_db svc')) - set (db_ip_blocks (svc_db svc)).
        ipb_ip_address b = show_ip E (to_canonical (att_remote_ip att))
        \<and> ipb_expires_at b \<le> now + secs32 (max_block_duration_seconds (lpc_ip_rate_limit (read_config (svc_db svc)))))"
proof (cases "db_ip_blocks (svc_db svc') = db_ip_blocks (svc_db svc)")
  case True
  then show ?thesis by simp
next
  case changed: False
  let ?ip = "to_canonical (att_remote_ip att)" and ?config = "read_config (svc_db svc)"
  let ?blocks = "db_ip_blocks (svc_db svc)"
  have "lp_inv E svc" by (rule outside_text.lp_reachable_inv [OF outside_textI [OF assms(1,2)] assms(3)])
  then have ok: "blocks_ok E ?blocks" by (simp add: lp_inv_def)
  have enabled: "lpc_enabled ?config"
    using changed assms(5) record_disabled by metis
  have blocks': "db_ip_blocks (svc_db svc')
      = fst (create_or_update_ip_block E backoff (new_block_id ids) ?ip now ?config ?blocks)"
    using changed unfolding assms(5) record_enabled(2) [OF enabled]
    by (auto simp: maybe_block_ip_def Let_def)
  show ?thesis
    using address_text.recorded_blocks [OF address_text.intro [OF assms(1)] ok] changed
    unfolding blocks' by blast
qed

text \<open>
  A recording locks exactly the accounts it should: a lockout is added when the account
  exists, is not an exempt administrator, has no lockout row yet and has reached the
  limit within the window counting every spelling of its name; the added lockout is
  unlimited exactly when automatic unlocking is off. Nothing else changes a lockout.
\<close>

theorem recording_locks_accounts:
  fixes svc :: "'net lp_service"
  assumes "config = read_config (svc_db svc)" and "lpc_enabled config"
    and "svc' = record_failed_attempt E contains backoff ids now att svc"
  shows "if unat (user_max_attempts (lpc_user_lockout config))
          \<le> attempts_of_user E (att_username att)
              (now - secs32 (user_time_window_seconds (lpc_user_lockout config)))
              (db_failed_attempts (svc_db svc) @ [attempt_row E (new_attempt_id ids) now att])
        \<and> (\<exists>is_admin. user_admin_status E (svc_db svc) (att_username att) = Some is_admin
             \<and> \<not> (is_admin \<and> exempt_admins (lpc_user_lockout config)))
        \<and> (\<forall>l\<in>set (db_user_lockouts (svc_db svc)). \<not> username_eq_ci E (att_username att) (ulo_username l))
    then \<exists>l. db_user_lockouts (svc_db svc') = db_user_lockouts (svc_db svc) @ [l]
        \<and> ulo_username l = att_username att \<and> ulo_locked_at l = now
        \<and> ulo_expires_at l = (if auto_unlock (lpc_user_lockout config)
            then Some (now + secs32 (lockout_duration_seconds (lpc_user_lockout config))) else None)
    else db_user_lockouts (svc_db svc') = db_user_lockouts (svc_db svc)"
proof -
  have enabled: "lpc_enabled (read_config (svc_db svc))" using assms(1,2) by simp
  have none: "find (\<lambda>l. username_eq_ci E (att_username att) (ulo_username l)) (db_user_lockouts (svc_db svc)) = None
      \<longleftrightarrow> (\<forall>l\<in>set (db_user_lockouts (svc_db svc)). \<not> username_eq_ci E (att_username att) (ulo_username l))"
    by (auto simp: find_None_iff)
  show ?thesis
    unfolding assms(3) record_enabled(3) [OF enabled] none [symmetric]
    by (auto simp: maybe_lock_user_def create_user_lockout_def Let_def assms(1) split: option.splits)
qed

text \<open>
  An address that is exempt is never reported blocked, whatever rows exist, and failed
  logins from it never change the table of blocks; they are still recorded, and so still
  count for the account.
\<close>

theorem exempt_address_never_blocked:
  assumes "is_ip_exempt contains (read_config (svc_db svc)) ip"
    and "to_canonical (att_remote_ip att) = to_canonical ip"
    and "svc' = record_failed_attempt E contains backoff ids now att svc"
  shows "snd (check_ip_blocked E contains now ip svc) = None
    \<and> db_ip_blocks (svc_db svc') = db_ip_blocks (svc_db svc)
    \<and> (lpc_enabled (read_config (svc_db svc)) \<longrightarrow>
        db_failed_attempts (svc_db svc')
          = db_failed_attempts (svc_db svc) @ [attempt_row E (new_attempt_id ids) now att])"
proof -
  have exempt: "is_ip_exempt contains (read_config (svc_db svc)) (att_remote_ip att)"
    using assms(1,2) by (simp add: is_ip_exempt_def)
  then show ?thesis
    using assms(1,3)
    by (auto simp: check_ip_blocked_def Let_def record_failed_attempt_def maybe_block_ip_def case_prod_unfold)
qed

text \<open>
  After an administrator unblocks an address (in either of its forms) or unlocks an account
  (in any spelling), the next check reports neither, and the attempts counted against it
  are gone, so a single further failure does not bring the block back early.
\<close>

theorem admin_release_is_effective:
  assumes "ip_text_ok E" and "case_maps_agree E" and "lp_reachable E contains backoff svc"
  shows "(to_canonical ip' = to_canonical ip \<longrightarrow>
        snd (check_ip_blocked E contains now ip' (unblock_ip E ip svc)) = None
      \<and> attempts_of_ip (show_ip E (to_canonical ip')) t (db_failed_attempts (svc_db (unblock_ip E ip svc))) = 0)
    \<and> (lower E u' = lower E u \<longrightarrow>
        snd (check_user_locked E now u' (unlock_user E u svc)) = None
      \<and> attempts_of_user E u' t (db_failed_attempts (svc_db (unlock_user E u svc))) = 0)"
proof -
  note A = address_text.intro [OF assms(1)] and T = outside_textI [OF assms(1,2)]
  have inv: "lp_inv E svc" by (rule outside_text.lp_reachable_inv [OF T assms(3)])
  note ip_result = address_text.check_ip_result [OF A outside_text.unblock_inv [OF T inv]]
  note user_result = outside_text.check_user_result [OF T outside_text.unlock_inv [OF T inv]]
  have "stored_block E now (svc_db (unblock_ip E ip svc)) (to_canonical ip) = None"
    by (auto simp: stored_entry_def unblock_ip_def Let_def find_None_iff)
  moreover have "stored_lockout E now (svc_db (unlock_user E u svc)) (lower E u) = None"
    by (auto simp: stored_entry_def unlock_user_def Let_def find_None_iff username_eq_ci_def)
  moreover have "attempts_of_ip (show_ip E (to_canonical ip)) t
      (db_failed_attempts (svc_db (unblock_ip E ip svc))) = 0"
    by (auto simp: attempts_of_ip_def unblock_ip_def Let_def filter_empty_conv)
  moreover have "attempts_of_user E u' t (db_failed_attempts (svc_db (unlock_user E u svc))) = 0"
    if "lower E u' = lower E u"
    using that by (auto simp: attempts_of_user_def unlock_user_def Let_def filter_empty_conv username_eq_ci_def)
  ultimately show ?thesis by (simp add: ip_result user_result)
qed


text \<open>
  C39: the clean-up forgets the escalation. For an address whose last block ended but whose
  cooldown has not passed, the next block continues the count as long as the row is
  there; once the clean-up has run, the next block is counted as the first.
\<close>

theorem cleanup_resets_escalation:
  assumes "lpc_enabled (read_config (svc_db svc))"
    and "find_by ipb_ip_address (show_ip E ip) (db_ip_blocks (svc_db svc)) = Some e"
    and "unique_keys ipb_ip_address (db_ip_blocks (svc_db svc))"
    and "ipb_expires_at e < now" and "now - ipb_last_attempt_at e \<le> secs32 (cooldown_reset_seconds limits)"
  shows "next_block_count now limits
      (find_by ipb_ip_address (show_ip E ip) (db_ip_blocks (svc_db svc))) = ipb_block_count e + 1
    \<and> next_block_count now limits (find_by ipb_ip_address (show_ip E ip)
        (db_ip_blocks (svc_db (fst (cleanup_expired now svc))))) = 1"
proof -
  have "find_by ipb_ip_address (show_ip E ip) (db_ip_blocks (svc_db (fst (cleanup_expired now svc)))) = None"
    using assms(1-4) find_by_SomeD [OF assms(2)] unique_keys_eq [OF assms(3)]
    by (auto simp: cleanup_expired_def Let_def find_by_None_iff) metis
  with assms show ?thesis by (simp add: next_block_count_def)
qed

section \<open>A concrete service\<close>

definition sample_params :: "nat lp_parameters" where
  "sample_params = \<lparr> login_protection_enabled = True, login_protection_retention_seconds = 100,
     lp_ip_max_attempts = 1, lp_ip_time_window_seconds = 60, lp_ip_base_block_duration_seconds = 10,
     lp_ip_block_duration_multiplier = 0, lp_ip_max_block_duration_seconds = 100,
     lp_ip_cooldown_reset_seconds = 50, lp_user_max_attempts = 1, lp_user_time_window_seconds = 60,
     lp_user_auto_unlock = True, lp_user_lockout_duration_seconds = 5, lp_user_exempt_admins = True,
     lp_ip_exempt_networks = [3] \<rparr>"

definition sample_contains :: "nat \<Rightarrow> ip_addr \<Rightarrow> bool" where
  "sample_contains n ip \<longleftrightarrow> ip = V4 (word_of_nat n)"

definition sample_backoff :: backoff where
  "sample_backoff m b n = 7"

definition sample_block :: ip_block_row where
  "sample_block = \<lparr> ipb_id = 1, ipb_ip_address = sample_show_ip (V4 2), ipb_block_count = 4, ipb_blocked_at = 0,
     ipb_expires_at = 5, ipb_reason = [], ipb_last_attempt_at = 0 \<rparr>"

definition sample_lockout :: user_lockout_row where
  "sample_lockout = \<lparr> ulo_id = 1, ulo_username = ''alice'', ulo_locked_at = 0, ulo_expires_at = Some 5,
     ulo_reason = [], ulo_failed_attempt_count = 1 \<rparr>"

definition sample_db :: "nat lp_db" where
  "sample_db = \<lparr> db_parameters = sample_params, db_users = [sample_user], db_user_admin_roles = [],
     db_failed_attempts = [], db_ip_blocks = [sample_block], db_user_lockouts = [sample_lockout] \<rparr>"

definition sample_svc :: "nat lp_service" where
  "sample_svc = lp_new sample_env 10 sample_db"

definition sample_att :: "ip_addr \<Rightarrow> failed_attempt_info" where
  "sample_att ip = \<lparr> att_username = ''alice'', att_remote_ip = ip, att_protocol = Ssh,
     att_credential_type = ''password'' \<rparr>"

definition sample_ids :: fresh_ids where
  "sample_ids = \<lparr> new_attempt_id = 100, new_block_id = 101, new_lockout_id = 102 \<rparr>"

lemma sample_fields:
  "db_ip_blocks sample_db = [sample_block]" "db_user_lockouts sample_db = [sample_lockout]"
  "db_failed_attempts sample_db = []"
  "ipb_id sample_block = 1" "ipb_ip_address sample_block = show_ip sample_env (V4 2)"
  "ipb_expires_at sample_block = 5" "ipb_block_count sample_block = 4" "ipb_last_attempt_at sample_block = 0"
  "ulo_username sample_lockout = ''alice''" "ulo_expires_at sample_lockout = Some 5"
  "att_username (sample_att ip) = ''alice''" "att_remote_ip (sample_att ip) = ip"
  "new_block_id sample_ids = 101" "sql_lower sample_env = lower sample_env"
  by (simp_all add: sample_db_def sample_block_def sample_lockout_def sample_att_def sample_ids_def sample_env_def)

lemma sample_ip_inject: "show_ip sample_env a = show_ip sample_env b \<longleftrightarrow> a = b"
  by (rule show_ip_inject [OF sample_env_ip_text_ok])

lemma sample_svc_reachable: "lp_reachable sample_env sample_contains sample_backoff sample_svc"
  unfolding sample_svc_def
proof (rule lp_reachable.start)
  show "blocks_ok sample_env (db_ip_blocks sample_db)"
    by (auto simp: blocks_ok_def sample_fields unique_keys_def intro: exI [of _ "V4 2"])
  show "lockouts_ok sample_env (db_user_lockouts sample_db)"
    by (simp add: lockouts_ok_def sample_fields unique_keys_def)
qed

lemma sample_svc_db [simp]: "svc_db sample_svc = sample_db"
  by (simp add: sample_svc_def lp_new_def)

lemma sample_fresh_block: "new_block_id sample_ids \<notin> ipb_id ` set (db_ip_blocks (svc_db sample_svc))"
  by (simp add: sample_fields)

lemma sample_config:
  "lpc_enabled (read_config sample_db)"
  "is_ip_exempt sample_contains (read_config sample_db) ip \<longleftrightarrow> to_canonical ip = V4 3"
  "max_block_duration_seconds (lpc_ip_rate_limit (read_config sample_db)) = 100"
  "ip_max_attempts (lpc_ip_rate_limit (read_config sample_db)) = 1"
  "user_max_attempts (lpc_user_lockout (read_config sample_db)) = 1"
  "cooldown_reset_seconds (lpc_ip_rate_limit (read_config sample_db)) = 50"
  by (simp_all add: read_config_def config_from_params_def sample_db_def sample_params_def is_ip_exempt_def
      sample_contains_def)

lemma secs32_nonneg [simp]: "0 \<le> secs32 w"
  by (simp add: secs32_def seconds_def)


theorem limit_reached_blocks_witness:
  "snd (check_ip_blocked sample_env sample_contains 20 (V4 9)
    (record_failed_attempt sample_env sample_contains sample_backoff sample_ids 20 (sample_att (V4 9)) sample_svc))
   \<noteq> None"
  by (rule limit_reached_blocks [OF sample_env_ip_text_ok sample_env_case_maps_agree sample_svc_reachable
        sample_fresh_block refl])
     (simp_all add: sample_config sample_fields sample_backoff_def attempts_of_ip_def attempt_row_def)

theorem recording_bounds_blocks_witness:
  "ipb_expires_at sample_block \<le> 20 \<and> sample_block \<in> set (db_ip_blocks (svc_db
     (record_failed_attempt sample_env sample_contains sample_backoff sample_ids 20 (sample_att (V4 9)) sample_svc)))"
  using recording_bounds_blocks [OF sample_env_ip_text_ok sample_env_case_maps_agree sample_svc_reachable
        sample_fresh_block refl, where now = 20 and att = "sample_att (V4 9)"]
  by (simp add: sample_fields sample_ip_inject)

theorem recording_locks_accounts_witness:
  "db_user_lockouts (svc_db (record_failed_attempt sample_env sample_contains sample_backoff sample_ids 20
      (sample_att (V4 9)) sample_svc)) = [sample_lockout]"
  using recording_locks_accounts [OF refl _ refl, where svc = sample_svc and E = sample_env
      and contains = sample_contains and backoff = sample_backoff and ids = sample_ids and now = 20
      and att = "sample_att (V4 9)"]
  by (simp add: sample_config sample_fields username_eq_ci_def)

theorem exempt_address_never_blocked_witness:
  "snd (check_ip_blocked sample_env sample_contains 20 (V4 3) sample_svc) = None"
  using exempt_address_never_blocked [OF _ _ refl, where svc = sample_svc and ip = "V4 3" and E = sample_env
      and contains = sample_contains and att = "sample_att (V4 3)" and now = 20]
  by (simp add: sample_config sample_fields)

theorem admin_release_is_effective_witness:
  "snd (check_ip_blocked sample_env sample_contains 3 (V4 2) (unblock_ip sample_env (V4 2) sample_svc)) = None
   \<and> snd (check_user_locked sample_env 3 ''ALICE'' (unlock_user sample_env ''alice'' sample_svc)) = None"
proof -
  have "lower sample_env ''ALICE'' = lower sample_env ''alice''"
    by code_simp
  then show ?thesis
    using admin_release_is_effective [OF sample_env_ip_text_ok sample_env_case_maps_agree sample_svc_reachable,
        where ip = "V4 2" and ip' = "V4 2" and u = "''alice''" and u' = "''ALICE''" and now = 3]
    by blast
qed


theorem cleanup_resets_escalation_witness:
  "next_block_count 10 (lpc_ip_rate_limit (read_config sample_db)) (find_by ipb_ip_address
      (show_ip sample_env (V4 2)) (db_ip_blocks (svc_db sample_svc))) = 5
   \<and> next_block_count 10 (lpc_ip_rate_limit (read_config sample_db)) (find_by ipb_ip_address
      (show_ip sample_env (V4 2)) (db_ip_blocks (svc_db (fst (cleanup_expired 10 sample_svc))))) = 1"
  using cleanup_resets_escalation [where svc = sample_svc and E = sample_env and ip = "V4 2"
      and e = sample_block and now = 10 and limits = "lpc_ip_rate_limit (read_config sample_db)"]
  by (simp add: sample_config sample_fields unique_keys_def secs32_def seconds_def)

end
