(* ===== verification/Auth_Store.thy ===== *)
theory Auth_Store
  imports Auth_State Login_Protection
begin

text \<open>
  The store of authentication attempts and what surrounds an attempt
  (\<open>warpgate-core/src/auth_state_store.rs\<close>, \<open>warpgate-core/src/auth.rs\<close>): address ranges,
  vetting of bearers, resolution of the user and the policy, submission of a credential
  through login protection, the attempts by session, and the two loops over the channel of
  an attempt. An \<open>Arc\<close> is an address; the states behind the addresses are a map.
\<close>

section \<open>Addresses and accounts\<close>

definition username_eq_ci_str :: "env \<Rightarrow> string \<Rightarrow> string \<Rightarrow> bool" where
  "username_eq_ci_str E a b \<longleftrightarrow> lower E a = lower E b"

fun normalize_ip :: "ip_addr \<Rightarrow> ip_addr" where
  "normalize_ip (V6 v6) = (case to_ipv4_mapped v6 of Some v4 \<Rightarrow> V4 v4 | None \<Rightarrow> V6 v6)"
| "normalize_ip (V4 v4) = V4 v4"

definition ip_allowed ::
  "('net \<Rightarrow> ip_addr \<Rightarrow> bool) \<Rightarrow> 'net list option \<Rightarrow> ip_addr option \<Rightarrow> bool" where
  "ip_allowed contains allowed_ip_ranges remote_ip =
     (case allowed_ip_ranges of
        None \<Rightarrow> True
      | Some ranges \<Rightarrow>
          if ranges = [] then True
          else case remote_ip of
            None \<Rightarrow> True
          | Some raw_ip \<Rightarrow> \<exists>network\<in>set ranges. contains network (normalize_ip raw_ip))"

definition check_ip_allowed ::
  "env \<Rightarrow> ('net \<Rightarrow> ip_addr \<Rightarrow> bool) \<Rightarrow> 'net list option \<Rightarrow> ip_addr option \<Rightarrow> string \<Rightarrow> unit result" where
  "check_ip_allowed E contains allowed_ip_ranges remote_ip username =
     (if ip_allowed contains allowed_ip_ranges remote_ip then Inr ()
      else Inl (IpAddrNotAllowed
        (case remote_ip of None \<Rightarrow> [] | Some ip \<Rightarrow> show_ip E (normalize_ip ip)) username))"

definition vet_credential_bearer ::
  "env \<Rightarrow> ('net \<Rightarrow> ip_addr \<Rightarrow> bool) \<Rightarrow> timestamp \<Rightarrow> 'net user \<Rightarrow> ip_addr option \<Rightarrow> 'net lp_service
   \<Rightarrow> 'net lp_service \<times> bool" where
  "vet_credential_bearer E contains now user remote_ip lp =
     (case check_user_locked E now (user_username user) lp of
        (lp', Some _) \<Rightarrow> (lp', False)
      | (lp', None) \<Rightarrow>
          (lp', check_ip_allowed E contains (user_allowed_ip_ranges user) remote_ip (user_username user) = Inr ()))"

definition record_unknown_user_attempt ::
  "env \<Rightarrow> ('net \<Rightarrow> ip_addr \<Rightarrow> bool) \<Rightarrow> backoff \<Rightarrow> fresh_ids \<Rightarrow> timestamp \<Rightarrow> string \<Rightarrow> protocol
   \<Rightarrow> ip_addr option \<Rightarrow> string option \<Rightarrow> 'net lp_service \<Rightarrow> 'net lp_service" where
  "record_unknown_user_attempt E contains backoff ids now username prot remote_ip credential_type lp =
     (case (remote_ip, credential_type) of
        (Some ip, Some ct) \<Rightarrow>
          record_failed_attempt E contains backoff ids now
            \<lparr> att_username = username, att_remote_ip = ip, att_protocol = prot, att_credential_type = ct \<rparr> lp
      | _ \<Rightarrow> lp)"

text \<open>The users the provider lists are the rows of the user table.\<close>

definition resolve_user_and_policy ::
  "env \<Rightarrow> ('net \<Rightarrow> ip_addr \<Rightarrow> bool) \<Rightarrow> backoff \<Rightarrow> fresh_ids \<Rightarrow> timestamp \<Rightarrow> mfa_parameters \<Rightarrow> string
   \<Rightarrow> protocol \<Rightarrow> credential_kind list \<Rightarrow> ip_addr option \<Rightarrow> string option \<Rightarrow> 'net lp_service
   \<Rightarrow> 'net lp_service \<times> ('net user \<times> policy) result" where
  "resolve_user_and_policy E contains backoff ids now params username prot types remote_ip rate_type lp =
     (let users = db_users (svc_db lp);
          unknown = (record_unknown_user_attempt E contains backoff ids now username prot remote_ip
                       rate_type lp, Inl (UserNotFound username))
      in case find (\<lambda>u. username_eq_ci_str E (user_username u) username) users of
           None \<Rightarrow> unknown
         | Some user \<Rightarrow>
             (case check_ip_allowed E contains (user_allowed_ip_ranges user) remote_ip username of
                Inl e \<Rightarrow> (lp, Inl e)
              | Inr _ \<Rightarrow>
                  (case get_credential_policy E users params username types of
                     None \<Rightarrow> unknown
                   | Some pol \<Rightarrow> (lp, Inr (user, pol)))))"

section \<open>Submitting a credential\<close>

definition core_submit_credential ::
  "env \<Rightarrow> ('net \<Rightarrow> ip_addr \<Rightarrow> bool) \<Rightarrow> timestamp \<Rightarrow> validator \<Rightarrow> auth_credential \<Rightarrow> 'net lp_service
   \<Rightarrow> auth_state \<Rightarrow> 'net lp_service \<times> auth_state \<times> submit_outcome result" where
  "core_submit_credential E contains now validate credential lp s =
     (let (lp, blocked) =
        (case as_remote_ip s of
           None \<Rightarrow> (lp, None)
         | Some ip \<Rightarrow> check_ip_blocked E contains now ip lp)
      in if blocked \<noteq> None then (lp, s, Inr (Outcome_Invalid (verify s)))
         else
           let (lp, locked) = check_user_locked E now (info_username (as_user_info s)) lp
           in if locked \<noteq> None then (lp, s, Inr (Outcome_Invalid (verify s)))
              else (lp, submit_credential E validate credential s))"

section \<open>The store\<close>

type_synonym arc = nat

record auth_state_store =
  store_heap :: "arc \<rightharpoonup> auth_state"
  store_next :: arc
  store_map :: "uuid \<rightharpoonup> arc \<times> timestamp"

definition auth_timeout :: int where
  "auth_timeout = seconds 600"

definition store_new :: auth_state_store where
  "store_new = \<lparr> store_heap = Map.empty, store_next = 0, store_map = Map.empty \<rparr>"

definition store_contains_key :: "auth_state_store \<Rightarrow> uuid \<Rightarrow> bool" where
  "store_contains_key st session_id \<longleftrightarrow> store_map st session_id \<noteq> None"

definition store_get :: "auth_state_store \<Rightarrow> uuid \<Rightarrow> arc option" where
  "store_get st session_id = map_option fst (store_map st session_id)"

definition snapshot_states :: "auth_state_store \<Rightarrow> arc set" where
  "snapshot_states st = fst ` ran (store_map st)"

definition user_info_of :: "'net user \<Rightarrow> auth_state_user_info" where
  "user_info_of user = \<lparr> info_id = user_id user, info_username = user_username user \<rparr>"

definition store_insert ::
  "uuid \<Rightarrow> timestamp \<Rightarrow> auth_state \<Rightarrow> auth_state_store \<Rightarrow> auth_state_store \<times> arc" where
  "store_insert session_id inst state st =
     (let state_arc = store_next st
      in (\<lparr> store_heap = (store_heap st)(state_arc \<mapsto> state), store_next = Suc state_arc,
            store_map = (store_map st)(session_id \<mapsto> (state_arc, inst)) \<rparr>, state_arc))"

definition store_create ::
  "env \<Rightarrow> timestamp \<Rightarrow> timestamp \<Rightarrow> nat \<times> nat \<times> nat \<times> nat \<Rightarrow> uuid \<Rightarrow> 'net user \<Rightarrow> protocol \<Rightarrow> string
   \<Rightarrow> cred_policy \<Rightarrow> ip_addr option \<Rightarrow> auth_state_store \<Rightarrow> auth_state_store \<times> arc" where
  "store_create E now inst rnd session_id user prot target_name pol remote_ip st =
     store_insert session_id inst
       (auth_state_new E now rnd session_id remote_ip (user_info_of user) prot target_name pol) st"

definition store_remove :: "uuid \<Rightarrow> auth_state_store \<Rightarrow> auth_state_store" where
  "store_remove session_id st = st\<lparr> store_map := (store_map st)(session_id := None) \<rparr>"

definition store_remove_if_same :: "uuid \<Rightarrow> arc \<Rightarrow> auth_state_store \<Rightarrow> auth_state_store" where
  "store_remove_if_same session_id state_arc st =
     (if (case store_get st session_id of None \<Rightarrow> False | Some current \<Rightarrow> current = state_arc)
      then store_remove session_id st else st)"

definition store_vacuum :: "timestamp \<Rightarrow> auth_state_store \<Rightarrow> auth_state_store" where
  "store_vacuum inst st =
     st\<lparr> store_map := (\<lambda>session_id. case store_map st session_id of
           None \<Rightarrow> None
         | Some (a, started_at) \<Rightarrow> if inst - started_at < auth_timeout then Some (a, started_at) else None) \<rparr>"

text \<open>Operating on an attempt through its handle.\<close>

definition store_modify :: "arc \<Rightarrow> auth_state \<Rightarrow> auth_state_store \<Rightarrow> auth_state_store" where
  "store_modify a s st = st\<lparr> store_heap := (store_heap st)(a \<mapsto> s) \<rparr>"

section \<open>Waiting for an attempt\<close>

text \<open>
  What a receiver of the channel gets next: a value, the notice that it lagged (upon which
  the waiter reads the verdict, given here), or the notice that the sender is gone. A list
  that ends before that stands for the time limit.
\<close>

datatype rx_event = Rx_Value auth_result | Rx_Lagged auth_result | Rx_Closed

fun wait_recv :: "rx_event list \<Rightarrow> auth_result" where
  "wait_recv [] = Rejected"
| "wait_recv (Rx_Value (Accepted u) # _) = Accepted u"
| "wait_recv (Rx_Value Rejected # _) = Rejected"
| "wait_recv (Rx_Value (Need _) # rest) = wait_recv rest"
| "wait_recv (Rx_Lagged (Need _) # rest) = wait_recv rest"
| "wait_recv (Rx_Lagged result # _) = result"
| "wait_recv (Rx_Closed # _) = Rejected"

definition wait_for_auth_completion :: "auth_state \<Rightarrow> rx_event list \<Rightarrow> auth_result" where
  "wait_for_auth_completion s events =
     (case verify s of
        Accepted u \<Rightarrow> Accepted u
      | Rejected \<Rightarrow> Rejected
      | Need _ \<Rightarrow> wait_recv events)"

text \<open>
  The task that watches an attempt for web approval requests: how often it calls back, given
  what it receives and what the callbacks answer.
\<close>

fun forward_web_auth_requests :: "rx_event list \<Rightarrow> bool list \<Rightarrow> nat" where
  "forward_web_auth_requests [] answers = 0"
| "forward_web_auth_requests (Rx_Value (Need kinds) # rest) answers =
     (if Kind_WebUserApproval \<in> kinds
      then Suc (case answers of
                  [] \<Rightarrow> forward_web_auth_requests rest []
                | answer # answers \<Rightarrow> if \<not> answer then 0 else forward_web_auth_requests rest answers)
      else forward_web_auth_requests rest answers)"
| "forward_web_auth_requests (Rx_Value _ # rest) answers = forward_web_auth_requests rest answers"
| "forward_web_auth_requests (Rx_Lagged _ # rest) answers = forward_web_auth_requests rest answers"
| "forward_web_auth_requests (Rx_Closed # _) answers = 0"

section \<open>Lemmas\<close>

lemma normalize_ip_canonical: "normalize_ip ip = to_canonical ip"
  by (cases ip) simp_all

lemma check_ip_db [simp]: "svc_db (fst (check_ip_blocked E contains now ip lp)) = svc_db lp"
  by (auto simp: check_ip_blocked_def Let_def split: option.splits)

lemma check_user_db [simp]: "svc_db (fst (check_user_locked E now u lp)) = svc_db lp"
  by (auto simp: check_user_locked_def Let_def split: option.splits)

text \<open>Whether login protection stands in the way of an attempt, by the tables alone.\<close>

definition attempt_barred ::
  "env \<Rightarrow> ('net \<Rightarrow> ip_addr \<Rightarrow> bool) \<Rightarrow> timestamp \<Rightarrow> 'net lp_db \<Rightarrow> ip_addr option \<Rightarrow> string \<Rightarrow> bool" where
  "attempt_barred E contains now db remote_ip username \<longleftrightarrow>
     lpc_enabled (read_config db)
     \<and> ((\<exists>ip. remote_ip = Some ip \<and> \<not> is_ip_exempt contains (read_config db) ip
           \<and> stored_block E now db (to_canonical ip) \<noteq> None)
        \<or> (\<not> (exempt_admins (lpc_user_lockout (read_config db)) \<and> user_admin_status E db username = Some True)
           \<and> stored_lockout E now db (lower E username) \<noteq> None))"

lemma core_submit_cases:
  assumes "ip_text_ok E" and "case_maps_agree E" and "lp_inv E lp"
  shows "snd (core_submit_credential E contains now V c lp s) =
    (if attempt_barred E contains now (svc_db lp) (as_remote_ip s) (info_username (as_user_info s))
     then (s, Inr (Outcome_Invalid (verify s))) else submit_credential E V c s)"
proof -
  note A = address_text.intro [OF assms(1)] and T = outside_textI [OF assms(1,2)]
  note user = outside_text.check_user_result [OF T]
  show ?thesis
  proof (cases "as_remote_ip s")
    case None
    show ?thesis
      using user [OF assms(3), where now = now and u = "info_username (as_user_info s)"] None
      by (auto simp: core_submit_credential_def attempt_barred_def Let_def case_prod_unfold)
  next
    case (Some ip)
    have inv: "lp_inv E (fst (check_ip_blocked E contains now ip lp))"
      by (rule address_text.check_ip_inv [OF A assms(3)])
    show ?thesis
      using user [OF inv, where now = now and u = "info_username (as_user_info s)"] Some
        address_text.check_ip_result [OF A assms(3), where contains = contains and now = now and ip = ip]
      by (auto simp: core_submit_credential_def attempt_barred_def Let_def case_prod_unfold)
  qed
qed

text \<open>An operation sends nothing, or the verdict it leads to.\<close>

lemma maybe_update_signals:
  "as_signals (fst (maybe_update_verification_state E s)) = as_signals s
   \<or> as_signals (fst (maybe_update_verification_state E s)) = as_signals s @ [current_verification_state s]"
  by (simp add: maybe_update_verification_state_def Let_def)

lemma maybe_update_signals_from:
  "as_signals r = as_signals s \<Longrightarrow>
   as_signals (fst (maybe_update_verification_state E r)) = as_signals s
   \<or> as_signals (fst (maybe_update_verification_state E r))
       = as_signals s @ [verify (fst (maybe_update_verification_state E r))]"
  using maybe_update_signals [of E r] by (simp add: verify_def)

lemma auth_step_signals:
  assumes "auth_step E V op s t"
  shows "as_signals t = as_signals s \<or> as_signals t = as_signals s @ [verify t]"
  using assms
proof cases
  case (submit c)
  then show ?thesis
    by (cases "V (info_username (as_user_info s)) c" rule: sum.exhaust)
       (auto simp: fst_submit_credential split: option.splits intro!: maybe_update_signals_from)
qed (auto simp: require_step_up_def add_web_user_approval_def
      add_web_user_approval_via_grace_bypass_def reject_def intro!: maybe_update_signals_from)

lemma auth_run_signals:
  assumes "auth_run E V ops s t"
  shows "\<exists>new. as_signals t = as_signals s @ new
    \<and> (\<forall>r\<in>set new. \<exists>ops1 ops2 m. ops = ops1 @ ops2 \<and> auth_run E V ops1 s m \<and> verify m = r)"
  using assms
proof (induction rule: auth_run.induct)
  case (run_nil s)
  then show ?case by simp
next
  case (run_cons op s t ops u)
  then obtain new where new: "as_signals u = as_signals t @ new"
    and seen: "\<And>r. r \<in> set new \<Longrightarrow> \<exists>ops1 ops2 m. ops = ops1 @ ops2 \<and> auth_run E V ops1 t m \<and> verify m = r"
    by blast
  have later: "\<exists>ops1 ops2 m. op # ops = ops1 @ ops2 \<and> auth_run E V ops1 s m \<and> verify m = r"
    if "r \<in> set new" for r
    using seen [OF that] auth_run.run_cons [OF run_cons.hyps(1)] by (metis append_Cons)
  have here: "\<exists>ops1 ops2 m. op # ops = ops1 @ ops2 \<and> auth_run E V ops1 s m \<and> verify m = verify t"
    using auth_run.run_cons [OF run_cons.hyps(1) auth_run.run_nil] by (metis append_Cons append_Nil)
  from auth_step_signals [OF run_cons.hyps(1)] show ?case
  proof
    assume "as_signals t = as_signals s"
    with new later show ?thesis by auto
  next
    assume "as_signals t = as_signals s @ [verify t]"
    with new later here show ?thesis by (intro exI [of _ "verify t # new"]) auto
  qed
qed

lemma wait_recv_values:
  "wait_recv (map Rx_Value rs @ rest) =
     (case find (\<lambda>r. \<forall>kinds. r \<noteq> Need kinds) rs of Some r \<Rightarrow> r | None \<Rightarrow> wait_recv rest)"
proof (induction rs)
  case (Cons r rs)
  then show ?case by (cases r) auto
qed simp

section \<open>The store as a step relation\<close>

inductive store_reachable :: "env \<Rightarrow> validator \<Rightarrow> auth_state_store \<Rightarrow> bool" for E V where
  new: "store_reachable E V store_new"
| create: "store_reachable E V st \<Longrightarrow>
    store_reachable E V (fst (store_insert sid inst (auth_state_new E now rnd sid ip info prot tgt pol) st))"
| remove: "store_reachable E V st \<Longrightarrow> store_reachable E V (store_remove sid st)"
| remove_if_same: "store_reachable E V st \<Longrightarrow> store_reachable E V (store_remove_if_same sid a st)"
| vacuum: "store_reachable E V st \<Longrightarrow> store_reachable E V (store_vacuum inst st)"
| operate: "store_reachable E V st \<Longrightarrow> store_heap st a = Some s \<Longrightarrow> auth_step E V op s s' \<Longrightarrow>
    store_reachable E V (store_modify a s' st)"

definition store_wf :: "env \<Rightarrow> validator \<Rightarrow> auth_state_store \<Rightarrow> bool" where
  "store_wf E V st \<longleftrightarrow>
     (\<forall>sid a t. store_map st sid = Some (a, t) \<longrightarrow> (\<exists>s. store_heap st a = Some s \<and> as_session_id s = sid))
     \<and> (\<forall>a s. store_heap st a = Some s \<longrightarrow> a < store_next st \<and> auth_reachable E V s)"

lemma auth_reachable_new: "auth_reachable E V (auth_state_new E now rnd sid ip info prot tgt pol)"
  unfolding auth_reachable_def by (intro exI) (rule auth_run.run_nil)

lemma auth_run_snoc:
  "auth_run E V ops s t \<Longrightarrow> auth_step E V op t u \<Longrightarrow> auth_run E V (ops @ [op]) s u"
  by (induction rule: auth_run.induct) (auto intro: auth_run.intros)

lemma auth_reachable_step: "auth_reachable E V s \<Longrightarrow> auth_step E V op s t \<Longrightarrow> auth_reachable E V t"
  unfolding auth_reachable_def using auth_run_snoc by blast

lemma auth_state_new_session [simp]:
  "as_session_id (auth_state_new E now rnd sid ip info prot tgt pol) = sid"
  by (simp add: auth_state_new_def)

lemma store_insert_wf:
  assumes "store_wf E V st"
  shows "store_wf E V (fst (store_insert sid inst (auth_state_new E now rnd sid ip info prot tgt pol) st))"
proof -
  have "a \<noteq> store_next st" if "store_heap st a = Some s" for a s
    using assms that by (auto simp: store_wf_def)
  with assms show ?thesis
    by (fastforce simp: store_wf_def store_insert_def Let_def auth_reachable_new less_Suc_eq)
qed

lemma store_drop_wf:
  assumes "store_wf E V st" and "\<And>sid v. m sid = Some v \<Longrightarrow> store_map st sid = Some v"
  shows "store_wf E V (st\<lparr> store_map := m \<rparr>)"
  using assms by (auto simp: store_wf_def)

lemma store_modify_wf:
  assumes "store_wf E V st" and "store_heap st a = Some s" and "auth_step E V op s s'"
  shows "store_wf E V (store_modify a s' st)"
  using assms auth_step_identity [OF assms(3)] auth_reachable_step [OF _ assms(3)]
  by (fastforce simp: store_wf_def store_modify_def)

lemma store_reachable_wf: "store_reachable E V st \<Longrightarrow> store_wf E V st"
proof (induction rule: store_reachable.induct)
  case new
  then show ?case by (simp add: store_wf_def store_new_def)
next
  case (vacuum st inst)
  show ?case
    unfolding store_vacuum_def
    by (rule store_drop_wf [OF vacuum.IH]) (auto split: option.splits prod.splits if_splits)
next
  case (remove st sid)
  show ?case unfolding store_remove_def by (rule store_drop_wf [OF remove.IH]) (simp split: if_splits)
next
  case (remove_if_same st sid a)
  have "store_wf E V (store_remove sid st)"
    unfolding store_remove_def by (rule store_drop_wf [OF remove_if_same.IH]) (simp split: if_splits)
  with remove_if_same.IH show ?case by (simp add: store_remove_if_same_def)
qed (simp_all add: store_insert_wf store_modify_wf)

section \<open>Properties\<close>


text \<open>
  Resolving a user name, in any spelling, yields the user row of that name with the policy
  built for this very row if the source address is in the user's ranges; an address out
  of range is refused without a trace in login protection, and an unknown name is
  recorded as a failed attempt whenever the address and the credential type are known.
\<close>

theorem resolution_outcome:
  assumes "case_maps_agree E"
  shows "resolve_user_and_policy E contains backoff ids now params username prot types remote_ip rate_type lp =
    (case find (\<lambda>u. lower E (user_username u) = lower E username) (db_users (svc_db lp)) of
       None \<Rightarrow>
         (case (remote_ip, rate_type) of
            (Some ip, Some ct) \<Rightarrow> record_failed_attempt E contains backoff ids now
              \<lparr> att_username = username, att_remote_ip = ip, att_protocol = prot, att_credential_type = ct \<rparr> lp
          | _ \<Rightarrow> lp, Inl (UserNotFound username))
     | Some user \<Rightarrow>
         if ip_allowed contains (user_allowed_ip_ranges user) remote_ip
         then (lp, Inr (user, user_credential_policy_tree params user types))
         else (lp, Inl (IpAddrNotAllowed (case remote_ip of None \<Rightarrow> [] | Some ip \<Rightarrow> show_ip E (to_canonical ip))
           username)))"
  using assms
  by (auto simp: resolve_user_and_policy_def username_eq_ci_str_def check_ip_allowed_def Let_def
      get_credential_policy_def record_unknown_user_attempt_def normalize_ip_canonical case_maps_agree_def
      split: option.splits)


text \<open>
  In every state of the store, an attempt found under a session belongs to that session.
  A new attempt supersedes the previous one of its session under a handle of its own, and
  the clean-up of the superseded attempt then neither removes the new one nor changes what
  those who hold the old handle see.
\<close>

theorem superseded_attempt_cleanup:
  assumes "store_reachable E V st" and "store_get st sid = Some old"
    and "store_create E now inst rnd sid user prot tgt pol ip st = (st', a)"
  shows "a \<noteq> old \<and> store_get (store_remove_if_same sid old st') sid = Some a
    \<and> store_get (store_remove_if_same sid a st') sid = None
    \<and> store_heap st' old = store_heap st old
    \<and> (\<exists>s. store_heap st old = Some s \<and> as_session_id s = sid)
    \<and> (\<forall>sid'. sid' \<noteq> sid \<longrightarrow> store_get st' sid' = store_get st sid')"
proof -
  have wf: "store_wf E V st" by (rule store_reachable_wf [OF assms(1)])
  from assms(2) obtain t where "store_map st sid = Some (old, t)" by (auto simp: store_get_def)
  with wf obtain s where s: "store_heap st old = Some s" "as_session_id s = sid" "old < store_next st"
    by (auto simp: store_wf_def)
  with assms(3) show ?thesis
    by (auto simp: store_create_def store_insert_def Let_def store_get_def store_remove_if_same_def store_remove_def)
qed

text \<open>
  The periodic vacuum removes exactly the attempts older than the time limit of ten
  minutes, which is also how long anyone waits for one.
\<close>

theorem vacuum_is_exact:
  "store_get (store_vacuum inst st) sid =
     (case store_map st sid of
        None \<Rightarrow> None
      | Some (a, started_at) \<Rightarrow> if inst < started_at + seconds 600 then Some a else None)"
  by (auto simp: store_vacuum_def store_get_def auth_timeout_def split: option.splits)

section \<open>Concrete attempts\<close>

lemma sample_alice_barred: "attempt_barred sample_env sample_contains 3 sample_db (Some (V4 1)) ''alice''"
proof -
  have "user_admin_status sample_env sample_db ''alice'' = Some False"
    by (simp add: user_admin_status_def username_eq_ci_def sample_fields(14) sample_db_def sample_user_def)
  then show ?thesis
    by (simp add: attempt_barred_def sample_config stored_entry_def sample_fields none_or_later_def)
qed

lemma sample_accepted_frame: "as_remote_ip sample_accepted = Some (V4 1)" "as_user_info sample_accepted = sample_info"
  by (simp_all add: sample_accepted_def fst_submit_credential sample_validator_def sample_attempt_frame
      sample_info_def) (simp_all add: sample_attempt_def auth_state_new_def)


theorem resolution_outcome_witness:
  "snd (resolve_user_and_policy sample_env sample_contains sample_backoff sample_ids 3 sample_mfa ''alice'' Ssh
     [Kind_Password] None None sample_svc)
   = Inr (sample_user, user_credential_policy_tree sample_mfa sample_user [Kind_Password])"
  using resolution_outcome [OF sample_env_case_maps_agree, where contains = sample_contains and lp = sample_svc
      and username = "''alice''" and remote_ip = None and rate_type = None and params = sample_mfa
      and types = "[Kind_Password]"]
  by (simp add: sample_db_def sample_user_def ip_allowed_def)

lemma sample_attempt_needs: "verify sample_attempt = Need {Kind_Password, Kind_PublicKey}"
  by (simp add: verify_def current_verification_state_def sample_attempt_frame valid_credential_kinds_def
      sample_policy_def)

lemma sample_signals:
  "as_signals sample_attempt = [Need {Kind_Password, Kind_PublicKey}]"
  "as_signals sample_accepted = as_signals sample_attempt @ [Accepted sample_info]"
proof -
  have upd: "as_signals (fst (maybe_update_verification_state E s))
      = (if as_last_result s = Some (current_verification_state s) then as_signals s
         else as_signals s @ [current_verification_state s])" for E s
    by (simp add: maybe_update_verification_state_def Let_def)
  show "as_signals sample_attempt = [Need {Kind_Password, Kind_PublicKey}]"
    using sample_attempt_needs
    by (simp add: sample_attempt_def auth_state_new_def upd verify_def)
  have "as_last_result sample_attempt = Some (Need {Kind_Password, Kind_PublicKey})"
    using sample_attempt_needs by (simp add: sample_attempt_def auth_state_new_def verify_def)
  then show "as_signals sample_accepted = as_signals sample_attempt @ [Accepted sample_info]"
    using sample_verify
    by (simp add: sample_accepted_def fst_submit_credential sample_validator_def sample_attempt_frame
        sample_info_def upd verify_def)
qed


definition sample_store :: auth_state_store where
  "sample_store = fst (store_insert 5 0 sample_attempt store_new)"

lemma sample_store_reachable: "store_reachable sample_env sample_validator sample_store"
  unfolding sample_store_def sample_attempt_def by (intro store_reachable.create store_reachable.new)

theorem superseded_attempt_cleanup_witness:
  "store_get (store_remove_if_same 5 0
     (fst (store_create sample_env 0 1 (1, 2, 3, 4) 5 sample_user Ssh ''host'' (is_sufficient sample_policy) None
        sample_store))) 5 = Some 1"
proof -
  obtain st' a where created: "store_create sample_env 0 1 (1, 2, 3, 4) 5 sample_user Ssh ''host''
      (is_sufficient sample_policy) None sample_store = (st', a)" by fastforce
  then have "a = 1" by (auto simp: store_create_def store_insert_def Let_def sample_store_def store_new_def)
  have "store_get sample_store 5 = Some 0"
    by (simp add: sample_store_def store_insert_def Let_def store_new_def store_get_def)
  from superseded_attempt_cleanup [OF sample_store_reachable this created] \<open>a = 1\<close> created
  show ?thesis by simp
qed

end
