(* ===== verification/Authorization.thy ===== *)
theory Authorization
  imports Auth_Store
begin

text \<open>
  Roles and target authorization: role assignments
  (\<open>warpgate-db-entities/src/UserRoleAssignment.rs\<close>), the authorization queries and the SSO
  role mappings of the configuration provider
  (\<open>warpgate-core/src/config_providers/db.rs\<close>), and the proofs of authorization handed on to
  the protocols (\<open>warpgate-core/src/config_providers/mod.rs\<close>). The settings inside the
  options of a target are opaque.
\<close>

section \<open>Targets\<close>

datatype 'o target_options =
    Options_Ssh 'o
  | Options_Http 'o
  | Options_Kubernetes 'o
  | Options_MySql 'o
  | Options_Postgres 'o
  | Options_Vnc 'o
  | Options_Rdp 'o

fun options_protocol :: "'o target_options \<Rightarrow> protocol" where
  "options_protocol (Options_Ssh _) = Ssh"
| "options_protocol (Options_Http _) = Http"
| "options_protocol (Options_Kubernetes _) = Kubernetes"
| "options_protocol (Options_MySql _) = MySql"
| "options_protocol (Options_Postgres _) = Postgres"
| "options_protocol (Options_Vnc _) = Vnc"
| "options_protocol (Options_Rdp _) = Rdp"

record 'o target =
  tgt_id :: uuid
  tgt_name :: string
  tgt_description :: string
  tgt_allow_roles :: "string list"
  tgt_options :: "'o target_options"
  tgt_rate_limit_bytes_per_second :: "u32 option"
  tgt_group_id :: "uuid option"
  tgt_ticket_max_duration_seconds :: "int option"
  tgt_ticket_requests_disabled :: bool
  tgt_ticket_require_approval :: bool
  tgt_require_approval :: bool
  tgt_ticket_max_uses :: "int option"

section \<open>Role assignments\<close>

record role_row =
  role_id :: uuid
  role_name :: string

record user_role_row =
  ur_user_id :: uuid
  ur_role_id :: uuid
  ur_granted_at :: "timestamp option"
  ur_expires_at :: "timestamp option"
  ur_revoked_at :: "timestamp option"

record target_role_row =
  tr_target_id :: uuid
  tr_role_id :: uuid

definition role_expired :: "timestamp \<Rightarrow> user_role_row \<Rightarrow> bool" where
  "role_expired now a = (case ur_expires_at a of None \<Rightarrow> False | Some expires_at \<Rightarrow> expires_at \<le> now)"

definition role_active :: "timestamp \<Rightarrow> user_role_row \<Rightarrow> bool" where
  "role_active now a \<longleftrightarrow> ur_revoked_at a = None \<and> \<not> role_expired now a"

text \<open>The condition of the queries, as the database evaluates it.\<close>

definition active_condition :: "timestamp \<Rightarrow> user_role_row \<Rightarrow> bool" where
  "active_condition now a \<longleftrightarrow> ur_revoked_at a = None
     \<and> (ur_expires_at a = None \<or> (case ur_expires_at a of None \<Rightarrow> False | Some e \<Rightarrow> e > now))"

definition idempotent_grant ::
  "timestamp \<Rightarrow> uuid \<Rightarrow> uuid \<Rightarrow> timestamp option \<Rightarrow> user_role_row list \<Rightarrow> user_role_row list" where
  "idempotent_grant now uid rid expires_at rows =
     (case find (\<lambda>a. ur_user_id a = uid \<and> ur_role_id a = rid) rows of
        Some existing \<Rightarrow>
          if role_active now existing then rows
          else update_many (\<lambda>a. ur_user_id a = uid \<and> ur_role_id a = rid)
            (\<lambda>a. existing\<lparr> ur_granted_at := Some now, ur_expires_at := expires_at, ur_revoked_at := None \<rparr>)
            rows
      | None \<Rightarrow>
          rows @ [\<lparr> ur_user_id = uid, ur_role_id = rid, ur_granted_at = Some now,
                    ur_expires_at = expires_at, ur_revoked_at = None \<rparr>])"

section \<open>Authorization queries\<close>

definition active_role_assignment_query ::
  "timestamp \<Rightarrow> user_role_row list \<Rightarrow> target_role_row list \<Rightarrow> (user_role_row \<times> target_role_row) list" where
  "active_role_assignment_query now assignments target_roles =
     [(a, t). a \<leftarrow> assignments, t \<leftarrow> target_roles, ur_role_id a = tr_role_id t \<and> active_condition now a]"

definition authorize_target ::
  "env \<Rightarrow> timestamp \<Rightarrow> 'net user list \<Rightarrow> 'o target list \<Rightarrow> user_role_row list \<Rightarrow> target_role_row list
   \<Rightarrow> string \<Rightarrow> string \<Rightarrow> bool" where
  "authorize_target E now users targets assignments target_roles username target_name \<longleftrightarrow>
     (\<exists>(a, t)\<in>set (active_role_assignment_query now assignments target_roles).
        \<exists>u\<in>set users. \<exists>g\<in>set targets. ur_user_id a = user_id u \<and> tr_target_id t = tgt_id g
          \<and> sql_lower E (user_username u) = lower E username \<and> tgt_name g = target_name)"

definition authorize_target_by_id ::
  "timestamp \<Rightarrow> user_role_row list \<Rightarrow> target_role_row list \<Rightarrow> uuid \<Rightarrow> uuid \<Rightarrow> bool" where
  "authorize_target_by_id now assignments target_roles uid tid \<longleftrightarrow>
     (\<exists>(a, t)\<in>set (active_role_assignment_query now assignments target_roles).
        ur_user_id a = uid \<and> tr_target_id t = tid)"

definition authorized_target_ids ::
  "timestamp \<Rightarrow> user_role_row list \<Rightarrow> target_role_row list \<Rightarrow> uuid \<Rightarrow> uuid set" where
  "authorized_target_ids now assignments target_roles uid =
     set (map (\<lambda>(a, t). tr_target_id t)
       (filter (\<lambda>(a, t). ur_user_id a = uid) (active_role_assignment_query now assignments target_roles)))"

definition get_target_by_name :: "'o target list \<Rightarrow> string \<Rightarrow> 'o target option" where
  "get_target_by_name targets name = find_by tgt_name name targets"

definition get_target_by_id :: "'o target list \<Rightarrow> uuid \<Rightarrow> 'o target option" where
  "get_target_by_id targets i = find_by tgt_id i targets"

section \<open>Proofs of authorization\<close>

record authorized_identity =
  ai_user_info :: auth_state_user_info
  ai_protocol :: protocol

definition from_auth_state :: "auth_state \<Rightarrow> authorized_identity option" where
  "from_auth_state s =
     (case verify s of
        Accepted user_info \<Rightarrow> Some \<lparr> ai_user_info = user_info, ai_protocol = as_protocol s \<rparr>
      | Need _ \<Rightarrow> None
      | Rejected \<Rightarrow> None)"

record 'o target_authorization =
  ta_user_info :: auth_state_user_info
  ta_target :: "'o target"
  ta_protocol :: protocol
  ta_ticket_id :: "uuid option"

text \<open>
  Narrowing to the options of one protocol: the protocol of the authorization and the kind
  of the target must both be that protocol.
\<close>

definition specific_target_narrow :: "protocol \<Rightarrow> 'o target \<Rightarrow> 'o target result" where
  "specific_target_narrow prot target =
     (if options_protocol (tgt_options target) = prot then Inr target else Inl InvalidTarget)"

definition authorization_narrow ::
  "protocol \<Rightarrow> 'o target_authorization \<Rightarrow> 'o target_authorization result" where
  "authorization_narrow prot authorization =
     (if prot \<noteq> ta_protocol authorization then Inl InvalidTarget
      else case specific_target_narrow prot (ta_target authorization) of
        Inl e \<Rightarrow> Inl e
      | Inr target \<Rightarrow> Inr (authorization\<lparr> ta_target := target \<rparr>))"

definition authorize_for_target ::
  "timestamp \<Rightarrow> user_role_row list \<Rightarrow> target_role_row list \<Rightarrow> authorized_identity \<Rightarrow> 'o target
   \<Rightarrow> 'o target_authorization option" where
  "authorize_for_target now assignments target_roles identity target =
     (if authorize_target_by_id now assignments target_roles (info_id (ai_user_info identity)) (tgt_id target)
      then Some \<lparr> ta_user_info = ai_user_info identity, ta_target = target,
                  ta_protocol = ai_protocol identity, ta_ticket_id = None \<rparr>
      else None)"

definition authorize_for_target_by_name ::
  "timestamp \<Rightarrow> 'o target list \<Rightarrow> user_role_row list \<Rightarrow> target_role_row list \<Rightarrow> authorized_identity
   \<Rightarrow> string \<Rightarrow> 'o target_authorization option" where
  "authorize_for_target_by_name now targets assignments target_roles identity target_name =
     (case get_target_by_name targets target_name of
        Some target \<Rightarrow> authorize_for_target now assignments target_roles identity target
      | None \<Rightarrow> None)"

section \<open>SSO role mappings\<close>

text \<open>
  The loop both mappings share: for each managed name that names a role, the role is granted
  when it is assigned and not held, taken away when it is held and not assigned. The flag
  records whether anything was taken away.
\<close>

fun sync_roles ::
  "(string \<Rightarrow> 'r option) \<Rightarrow> ('db \<Rightarrow> 'r \<Rightarrow> bool) \<Rightarrow> ('r \<Rightarrow> 'db \<Rightarrow> 'db) \<Rightarrow> ('r \<Rightarrow> 'db \<Rightarrow> 'db)
   \<Rightarrow> string list \<Rightarrow> string list \<Rightarrow> 'db \<Rightarrow> bool \<Rightarrow> 'db \<times> bool" where
  "sync_roles lookup holds grant revoke assigned [] db removed = (db, removed)"
| "sync_roles lookup holds grant revoke assigned (name # names) db removed =
     (case lookup name of
        None \<Rightarrow> sync_roles lookup holds grant revoke assigned names db removed
      | Some r \<Rightarrow>
          (case (holds db r, name \<in> set assigned) of
             (False, True) \<Rightarrow> sync_roles lookup holds grant revoke assigned names (grant r db) removed
           | (True, False) \<Rightarrow> sync_roles lookup holds grant revoke assigned names (revoke r db) True
           | _ \<Rightarrow> sync_roles lookup holds grant revoke assigned names db removed))"

definition role_by_name :: "role_row list \<Rightarrow> string \<Rightarrow> uuid option" where
  "role_by_name roles name = map_option role_id (find_by role_name name roles)"

definition holds_role :: "timestamp \<Rightarrow> uuid \<Rightarrow> user_role_row list \<Rightarrow> uuid \<Rightarrow> bool" where
  "holds_role now uid rows rid \<longleftrightarrow>
     find (\<lambda>a. active_condition now a \<and> ur_user_id a = uid \<and> ur_role_id a = rid) rows \<noteq> None"

definition revoke_role :: "timestamp \<Rightarrow> uuid \<Rightarrow> uuid \<Rightarrow> user_role_row list \<Rightarrow> user_role_row list" where
  "revoke_role now uid rid rows =
     update_many (\<lambda>a. ur_user_id a = uid \<and> ur_role_id a = rid)
       (\<lambda>a. a\<lparr> ur_revoked_at := Some now \<rparr>) rows"

definition apply_sso_role_mappings ::
  "env \<Rightarrow> timestamp \<Rightarrow> 'net user list \<Rightarrow> role_row list \<Rightarrow> string \<Rightarrow> string list option \<Rightarrow> string list
   \<Rightarrow> user_role_row list \<Rightarrow> (user_role_row list \<times> bool) result" where
  "apply_sso_role_mappings E now users roles username managed assigned rows =
     (case find (\<lambda>u. username_eq_ci E username (user_username u)) users of
        None \<Rightarrow> Inl (UserNotFound username)
      | Some user \<Rightarrow>
          (let managed = (case managed of Some x \<Rightarrow> x | None \<Rightarrow> map role_name roles)
           in Inr (sync_roles (role_by_name roles) (holds_role now (user_id user))
                (\<lambda>r. idempotent_grant now (user_id user) r None) (revoke_role now (user_id user))
                assigned managed rows False)))"

text \<open>Assignments of administration roles are pairs of a user and a role.\<close>

definition holds_admin_role :: "uuid \<Rightarrow> (uuid \<times> uuid) list \<Rightarrow> uuid \<Rightarrow> bool" where
  "holds_admin_role uid rows rid \<longleftrightarrow> (uid, rid) \<in> set rows"

definition grant_admin_role :: "uuid \<Rightarrow> uuid \<Rightarrow> (uuid \<times> uuid) list \<Rightarrow> (uuid \<times> uuid) list" where
  "grant_admin_role uid rid rows = rows @ [(uid, rid)]"

definition revoke_admin_role :: "uuid \<Rightarrow> uuid \<Rightarrow> (uuid \<times> uuid) list \<Rightarrow> (uuid \<times> uuid) list" where
  "revoke_admin_role uid rid rows = delete_many (\<lambda>a. a = (uid, rid)) rows"

definition apply_sso_admin_role_mappings ::
  "env \<Rightarrow> 'net user list \<Rightarrow> role_row list \<Rightarrow> string \<Rightarrow> string list option \<Rightarrow> string list
   \<Rightarrow> (uuid \<times> uuid) list \<Rightarrow> (uuid \<times> uuid) list result" where
  "apply_sso_admin_role_mappings E users admin_roles username managed assigned rows =
     (case find (\<lambda>u. username_eq_ci E username (user_username u)) users of
        None \<Rightarrow> Inl (UserNotFound username)
      | Some user \<Rightarrow>
          (let managed = (case managed of Some x \<Rightarrow> x | None \<Rightarrow> map role_name admin_roles)
           in Inr (fst (sync_roles (role_by_name admin_roles) (holds_admin_role (user_id user))
                (grant_admin_role (user_id user)) (revoke_admin_role (user_id user))
                assigned managed rows False))))"

section \<open>The contract of a book of roles\<close>

text \<open>
  What the loop relies on: granting a role that is not held makes exactly that role held,
  and revoking a held role exactly undoes it.
\<close>

locale role_book =
  fixes ok :: "'db \<Rightarrow> bool" and holds :: "'db \<Rightarrow> 'r \<Rightarrow> bool"
    and grant revoke :: "'r \<Rightarrow> 'db \<Rightarrow> 'db"
  assumes ok_grant: "ok db \<Longrightarrow> \<not> holds db r \<Longrightarrow> ok (grant r db)"
    and ok_revoke: "ok db \<Longrightarrow> holds db r \<Longrightarrow> ok (revoke r db)"
    and holds_grant: "ok db \<Longrightarrow> \<not> holds db r \<Longrightarrow> holds (grant r db) r' \<longleftrightarrow> r' = r \<or> holds db r'"
    and holds_revoke: "ok db \<Longrightarrow> holds db r \<Longrightarrow> holds (revoke r db) r' \<longleftrightarrow> r' \<noteq> r \<and> holds db r'"
begin

abbreviation sync :: "(string \<Rightarrow> 'r option) \<Rightarrow> string list \<Rightarrow> string list \<Rightarrow> 'db \<Rightarrow> bool \<Rightarrow> 'db \<times> bool" where
  "sync lookup \<equiv> sync_roles lookup holds grant revoke"

text \<open>One managed name: the role it names ends up held exactly when it is assigned.\<close>

lemma sync_name:
  assumes "ok db" and "lookup name = Some r"
  shows "\<exists>db'. sync lookup assigned (name # names) db removed
      = sync lookup assigned names db' (removed \<or> holds db r \<and> name \<notin> set assigned)
    \<and> ok db' \<and> (\<forall>r'. holds db' r' \<longleftrightarrow> (if r' = r then name \<in> set assigned else holds db r'))"
proof (cases "holds db r")
  case True
  show ?thesis
  proof (cases "name \<in> set assigned")
    case True
    with \<open>holds db r\<close> assms show ?thesis by auto
  next
    case False
    with \<open>holds db r\<close> assms show ?thesis
      by (intro exI [of _ "revoke r db"]) (auto simp: ok_revoke holds_revoke)
  qed
next
  case False
  show ?thesis
  proof (cases "name \<in> set assigned")
    case True
    with \<open>\<not> holds db r\<close> assms show ?thesis
      by (intro exI [of _ "grant r db"]) (auto simp: ok_grant holds_grant)
  next
    case False
    with \<open>\<not> holds db r\<close> assms show ?thesis by auto
  qed
qed

lemma sync_result:
  assumes "ok db" and inj: "\<forall>n m r. lookup n = Some r \<longrightarrow> lookup m = Some r \<longrightarrow> n = m"
  shows "ok (fst (sync lookup assigned names db removed))
    \<and> (holds (fst (sync lookup assigned names db removed)) r \<longleftrightarrow>
        (if \<exists>n\<in>set names. lookup n = Some r then \<exists>n\<in>set assigned. lookup n = Some r else holds db r))
    \<and> (snd (sync lookup assigned names db removed) \<longleftrightarrow>
        removed \<or> (\<exists>n\<in>set names. \<exists>r. lookup n = Some r \<and> holds db r \<and> n \<notin> set assigned))"
  using assms(1)
proof (induction names arbitrary: db removed)
  case Nil
  then show ?case by simp
next
  case (Cons name names)
  show ?case
  proof (cases "lookup name")
    case None
    with Cons.IH [OF Cons.prems] show ?thesis by simp
  next
    case (Some q)
    from sync_name [where lookup = lookup and name = name and r = q, OF Cons.prems Some] obtain db' where
      step: "sync lookup assigned (name # names) db removed
        = sync lookup assigned names db' (removed \<or> holds db q \<and> name \<notin> set assigned)"
      and ok': "ok db'"
      and holds': "\<And>r'. holds db' r' \<longleftrightarrow> (if r' = q then name \<in> set assigned else holds db r')"
      by blast
    have named: "n = name" if "lookup n = Some q" for n
      using inj that Some by blast
    note IH = Cons.IH [OF ok', of "removed \<or> holds db q \<and> name \<notin> set assigned"]
    have flag: "holds db q \<and> name \<notin> set assigned
        \<or> (\<exists>n\<in>set names. \<exists>r. lookup n = Some r \<and> holds db' r \<and> n \<notin> set assigned)
      \<longleftrightarrow> (\<exists>n\<in>set (name # names). \<exists>r. lookup n = Some r \<and> holds db r \<and> n \<notin> set assigned)"
      (is "?X \<or> ?B \<longleftrightarrow> ?C")
    proof -
      have "?X \<or> ?B" if "n \<in> set names" "lookup n = Some r" "holds db r" "n \<notin> set assigned" for n r
        using that named [of n] holds' [of r] by (cases "r = q") auto
      moreover have "?C" if "n \<in> set names" "lookup n = Some r" "holds db' r" "n \<notin> set assigned" for n r
        using that named [of n] holds' [of r] by (cases "r = q") auto
      moreover have "?C \<longleftrightarrow> ?X
          \<or> (\<exists>n\<in>set names. \<exists>r. lookup n = Some r \<and> holds db r \<and> n \<notin> set assigned)"
        using Some by simp
      ultimately show ?thesis by blast
    qed
    have held: "(if \<exists>n\<in>set names. lookup n = Some r then \<exists>n\<in>set assigned. lookup n = Some r else holds db' r)
      \<longleftrightarrow> (if \<exists>n\<in>set (name # names). lookup n = Some r then \<exists>n\<in>set assigned. lookup n = Some r else holds db r)"
    proof (cases "r = q")
      case True
      then have "(\<exists>n\<in>set assigned. lookup n = Some r) \<longleftrightarrow> name \<in> set assigned"
        using named Some by blast
      with True Some show ?thesis by (simp add: holds')
    next
      case False
      then have "(\<exists>n\<in>set (name # names). lookup n = Some r) \<longleftrightarrow> (\<exists>n\<in>set names. lookup n = Some r)"
        using Some by auto
      with False show ?thesis by (simp add: holds')
    qed
    from IH show ?thesis by (simp only: step flag [symmetric] held [symmetric] disj_assoc)
  qed
qed

end

section \<open>The two books\<close>

definition assignment_key :: "user_role_row \<Rightarrow> uuid \<times> uuid" where
  "assignment_key a = (ur_user_id a, ur_role_id a)"

lemma active_condition_eq: "active_condition now a = role_active now a"
  by (auto simp: active_condition_def role_active_def role_expired_def split: option.splits)

lemma holds_role_iff:
  "holds_role now uid rows rid \<longleftrightarrow> (\<exists>a\<in>set rows. role_active now a \<and> assignment_key a = (uid, rid))"
  by (auto simp: holds_role_def find_None_iff active_condition_eq assignment_key_def)

lemma key_eq: "ur_user_id a = uid \<and> ur_role_id a = rid \<longleftrightarrow> assignment_key a = (uid, rid)"
  by (simp add: assignment_key_def)

interpretation revocation: row_update assignment_key "\<lambda>a. a\<lparr> ur_revoked_at := Some now \<rparr>" for now
  by unfold_locales (simp add: assignment_key_def)

lemma revoke_role_book:
  assumes "unique_keys assignment_key rows"
  shows "unique_keys assignment_key (revoke_role now uid rid rows)"
    and "holds_role now uid (revoke_role now uid rid rows) r' \<longleftrightarrow> r' \<noteq> rid \<and> holds_role now uid rows r'"
proof -
  have rows: "revoke_role now uid rid rows
      = update_many (\<lambda>a. assignment_key a = (uid, rid)) (\<lambda>a. a\<lparr> ur_revoked_at := Some now \<rparr>) rows"
    by (simp add: revoke_role_def key_eq)
  show "unique_keys assignment_key (revoke_role now uid rid rows)"
    using assms by (simp add: rows revocation.unique_update)
  show "holds_role now uid (revoke_role now uid rid rows) r' \<longleftrightarrow> r' \<noteq> rid \<and> holds_role now uid rows r'"
  proof -
    let ?f = "\<lambda>a. if assignment_key a = (uid, rid) then a\<lparr> ur_revoked_at := Some now \<rparr> else a"
    have "role_active now (?f a) \<and> assignment_key (?f a) = (uid, r')
        \<longleftrightarrow> r' \<noteq> rid \<and> role_active now a \<and> assignment_key a = (uid, r')" for a
      by (auto simp: role_active_def assignment_key_def)
    then show ?thesis unfolding rows holds_role_iff set_update_many by (simp only: bex_simps)
  qed
qed

lemma idempotent_grant_book:
  assumes unique: "unique_keys assignment_key rows" and "\<not> holds_role now uid rows rid"
  shows "unique_keys assignment_key (idempotent_grant now uid rid None rows)"
    and "holds_role now uid (idempotent_grant now uid rid None rows) r' \<longleftrightarrow> r' = rid \<or> holds_role now uid rows r'"
proof -
  have find: "find (\<lambda>a. ur_user_id a = uid \<and> ur_role_id a = rid) rows
      = find_by assignment_key (uid, rid) rows"
    by (simp add: find_by_def key_eq)
  have "unique_keys assignment_key (idempotent_grant now uid rid None rows)
    \<and> (holds_role now uid (idempotent_grant now uid rid None rows) r' \<longleftrightarrow> r' = rid \<or> holds_role now uid rows r')"
  proof (cases "find_by assignment_key (uid, rid) rows")
    case None
    then have absent: "(uid, rid) \<notin> assignment_key ` set rows" by (simp add: find_by_None_iff)
    then have "unique_keys assignment_key (idempotent_grant now uid rid None rows)"
      using unique by (simp add: idempotent_grant_def find None unique_keys_def assignment_key_def)
    moreover have "holds_role now uid (idempotent_grant now uid rid None rows) r' \<longleftrightarrow>
        r' = rid \<or> holds_role now uid rows r'"
      by (auto simp: idempotent_grant_def find None holds_role_iff role_active_def role_expired_def
          assignment_key_def)
    ultimately show ?thesis by simp
  next
    case (Some e)
    have e: "e \<in> set rows" "assignment_key e = (uid, rid)"
      using find_by_SomeD [OF Some] by simp_all
    with assms(2) have inactive: "\<not> role_active now e" by (auto simp: holds_role_iff)
    let ?e = "e\<lparr> ur_granted_at := Some now, ur_expires_at := None, ur_revoked_at := None \<rparr>"
    have found: "find (\<lambda>a. ur_user_id a = uid \<and> ur_role_id a = rid) rows = Some e"
      using find Some by (rule trans)
    have rows: "idempotent_grant now uid rid None rows
        = update_many (\<lambda>a. assignment_key a = assignment_key e) (\<lambda>_. ?e) rows"
      unfolding idempotent_grant_def found using inactive by (simp add: key_eq e)
    have key: "assignment_key ?e = assignment_key e" by (simp add: assignment_key_def)
    have active: "role_active now ?e" by (simp add: role_active_def role_expired_def)
    have "unique_keys assignment_key (idempotent_grant now uid rid None rows)"
      using unique map_replace_row [OF unique e(1) key] by (simp add: rows unique_keys_def)
    moreover have "holds_role now uid (idempotent_grant now uid rid None rows) r' \<longleftrightarrow>
        r' = rid \<or> holds_role now uid rows r'"
    proof -
      let ?P = "\<lambda>a. role_active now a \<and> assignment_key a = (uid, r')"
      have "holds_role now uid (idempotent_grant now uid rid None rows) r' \<longleftrightarrow>
          ?P ?e \<or> (\<exists>a\<in>set rows. a \<noteq> e \<and> ?P a)"
        unfolding rows holds_role_iff set_replace_row [OF unique e(1)] by blast
      moreover have "?P ?e \<longleftrightarrow> r' = rid" using active key e by auto
      moreover have "(\<exists>a\<in>set rows. a \<noteq> e \<and> ?P a) \<longleftrightarrow> holds_role now uid rows r'"
        using inactive unfolding holds_role_iff by metis
      ultimately show ?thesis by blast
    qed
    ultimately show ?thesis by simp
  qed
  then show "unique_keys assignment_key (idempotent_grant now uid rid None rows)"
    and "holds_role now uid (idempotent_grant now uid rid None rows) r' \<longleftrightarrow> r' = rid \<or> holds_role now uid rows r'"
    by simp_all
qed

interpretation user_book: role_book "unique_keys assignment_key" "holds_role now uid"
    "\<lambda>r. idempotent_grant now uid r None" "revoke_role now uid" for now uid
  by unfold_locales (simp_all add: idempotent_grant_book revoke_role_book)

interpretation admin_book: role_book "\<lambda>_. True" "holds_admin_role uid" "grant_admin_role uid"
    "revoke_admin_role uid" for uid
  by unfold_locales (auto simp: holds_admin_role_def grant_admin_role_def revoke_admin_role_def)

text \<open>The name of a role determines it and, with unique identifiers, the other way round.\<close>

lemma role_by_name_inj:
  assumes "unique_keys role_id roles" and "role_by_name roles n = Some r" and "role_by_name roles m = Some r"
  shows "n = m"
proof -
  from assms(2,3) obtain a b where "find_by role_name n roles = Some a" "role_id a = r"
    "find_by role_name m roles = Some b" "role_id b = r"
    by (auto simp: role_by_name_def)
  moreover from this have "a \<in> set roles" "role_name a = n" "b \<in> set roles" "role_name b = m"
    by (auto dest: find_by_SomeD)
  ultimately show ?thesis using unique_keys_eq [OF assms(1)] by metis
qed

lemma sync_roles_frame:
  assumes "\<And>r db. F (grant r db) = F db" and "\<And>r db. F (revoke r db) = F db"
  shows "F (fst (sync_roles lookup holds grant revoke assigned names db removed)) = F db"
proof (induction names arbitrary: db removed)
  case (Cons name names)
  then show ?case
    by (cases "lookup name"; cases "name \<in> set assigned") (auto simp: assms split: bool.splits)
qed simp

lemma revoke_role_frame:
  "uid' \<noteq> uid \<Longrightarrow> filter (\<lambda>a. ur_user_id a = uid') (revoke_role now uid rid rows)
     = filter (\<lambda>a. ur_user_id a = uid') rows"
  by (induction rows) (auto simp: revoke_role_def)

lemma filter_replace_row:
  "(\<And>r. r \<in> set rows \<Longrightarrow> P r \<Longrightarrow> \<not> Q r) \<Longrightarrow> \<not> Q m \<Longrightarrow>
   filter Q (update_many P (\<lambda>_. m) rows) = filter Q rows"
  by (induction rows) auto

lemma idempotent_grant_frame:
  assumes "uid' \<noteq> uid"
  shows "filter (\<lambda>a. ur_user_id a = uid') (idempotent_grant now uid rid e rows)
     = filter (\<lambda>a. ur_user_id a = uid') rows"
proof (cases "find (\<lambda>a. ur_user_id a = uid \<and> ur_role_id a = rid) rows")
  case None
  with assms show ?thesis by (simp add: idempotent_grant_def)
next
  case (Some a)
  then have "ur_user_id a = uid" by (auto simp: find_Some_iff)
  with assms have "filter (\<lambda>a. ur_user_id a = uid') (update_many (\<lambda>a. ur_user_id a = uid \<and> ur_role_id a = rid)
      (\<lambda>_. a\<lparr> ur_granted_at := Some now, ur_expires_at := e, ur_revoked_at := None \<rparr>) rows)
    = filter (\<lambda>a. ur_user_id a = uid') rows"
    by (intro filter_replace_row) simp_all
  with Some show ?thesis by (simp add: idempotent_grant_def)
qed

section \<open>The queries as statements about rows\<close>

lemma bex_swap: "(\<exists>p\<in>Q. \<exists>u\<in>U. \<exists>g\<in>G. A p u \<and> B p g \<and> C u \<and> D g)
    \<longleftrightarrow> (\<exists>u\<in>U. C u \<and> (\<exists>g\<in>G. D g \<and> (\<exists>p\<in>Q. A p u \<and> B p g)))"
  by blast

lemma bex_unique: "x \<in> S \<Longrightarrow> P x \<Longrightarrow> (\<And>y. y \<in> S \<Longrightarrow> P y \<Longrightarrow> y = x) \<Longrightarrow> (\<exists>y\<in>S. P y \<and> R y) \<longleftrightarrow> R x"
  by blast

lemma bex_join: "(\<exists>p\<in>set [(a, t). a \<leftarrow> as, t \<leftarrow> ts, J a t]. R p) \<longleftrightarrow> (\<exists>a\<in>set as. \<exists>t\<in>set ts. J a t \<and> R (a, t))"
  by auto

lemma in_map_filter: "y \<in> set (map f (filter P xs)) \<longleftrightarrow> (\<exists>x\<in>set xs. P x \<and> f x = y)"
  by auto

lemma authorize_target_iff:
  "authorize_target E now users targets assignments target_roles username name \<longleftrightarrow>
    (\<exists>u\<in>set users. sql_lower E (user_username u) = lower E username \<and>
      (\<exists>g\<in>set targets. tgt_name g = name
        \<and> authorize_target_by_id now assignments target_roles (user_id u) (tgt_id g)))"
  by (simp only: authorize_target_def authorize_target_by_id_def case_prod_unfold bex_swap)

lemma authorized_target_ids_iff:
  "tid \<in> authorized_target_ids now assignments target_roles uid
     \<longleftrightarrow> authorize_target_by_id now assignments target_roles uid tid"
  by (simp only: authorize_target_by_id_def authorized_target_ids_def in_map_filter case_prod_unfold)

lemma authorize_target_by_id_iff:
  "authorize_target_by_id now assignments target_roles uid tid
     \<longleftrightarrow> (\<exists>a\<in>set assignments. \<exists>t\<in>set target_roles. role_active now a \<and> ur_user_id a = uid
            \<and> tr_target_id t = tid \<and> tr_role_id t = ur_role_id a)"
proof -
  have "ur_role_id a = tr_role_id t \<and> active_condition now a
      \<and> (case (a, t) of (a, t) \<Rightarrow> ur_user_id a = uid \<and> tr_target_id t = tid)
    \<longleftrightarrow> role_active now a \<and> ur_user_id a = uid \<and> tr_target_id t = tid \<and> tr_role_id t = ur_role_id a" for a t
    by (auto simp: active_condition_eq)
  then show ?thesis
    unfolding authorize_target_by_id_def active_role_assignment_query_def bex_join
    by (intro bex_cong refl) (simp only: conj_assoc)
qed

section \<open>Properties\<close>

text \<open>
  C18: every way of asking whether a user may reach a target gives the same answer: by
  identifiers, by names and through the list of reachable targets. The answer is that the
  user holds a role of the target whose assignment is neither revoked nor expired. A
  target that does not exist and one that may not be reached look the same.
\<close>

theorem authorization_queries_agree:
  assumes "unique_keys (\<lambda>u. sql_lower E (user_username u)) users" and "unique_keys tgt_name targets"
    and "u \<in> set users" and "sql_lower E (user_username u) = lower E username"
    and "ai_user_info identity = user_info_of u"
  shows "(authorize_target E now users targets assignments target_roles username name
      \<longleftrightarrow> authorize_for_target_by_name now targets assignments target_roles identity name \<noteq> None)
    \<and> (authorize_for_target_by_name now targets assignments target_roles identity name \<noteq> None
      \<longleftrightarrow> (\<exists>g\<in>set targets. tgt_name g = name
            \<and> tgt_id g \<in> authorized_target_ids now assignments target_roles (user_id u)))
    \<and> authorized_target_ids now assignments target_roles (user_id u)
      = {tid. \<exists>a\<in>set assignments. \<exists>t\<in>set target_roles. role_active now a \<and> ur_user_id a = user_id u
            \<and> tr_target_id t = tid \<and> tr_role_id t = ur_role_id a}"
proof -
  let ?may = "\<lambda>g. authorize_target_by_id now assignments target_roles (user_id u) (tgt_id g)"
  have "v = u" if "v \<in> set users" "sql_lower E (user_username v) = lower E username" for v
    using unique_keys_eq [OF assms(1) that(1) assms(3)] that(2) assms(4) by simp
  then have "authorize_target E now users targets assignments target_roles username name
      \<longleftrightarrow> (\<exists>g\<in>set targets. tgt_name g = name \<and> ?may g)"
    unfolding authorize_target_iff by (intro bex_unique assms(3,4))
  moreover have "authorize_for_target_by_name now targets assignments target_roles identity name \<noteq> None
      \<longleftrightarrow> (\<exists>g\<in>set targets. tgt_name g = name \<and> ?may g)"
  proof (cases "get_target_by_name targets name")
    case None
    then have "\<forall>g\<in>set targets. tgt_name g \<noteq> name" by (auto simp: get_target_by_name_def find_by_None_iff)
    with None show ?thesis by (simp add: authorize_for_target_by_name_def)
  next
    case (Some g)
    then have g: "g \<in> set targets" "tgt_name g = name"
      using find_by_SomeD [of tgt_name name targets g] by (simp_all add: get_target_by_name_def)
    have "g' = g" if "g' \<in> set targets" "tgt_name g' = name" for g'
      using unique_keys_eq [OF assms(2) that(1) g(1)] that(2) g(2) by simp
    then have "(\<exists>g\<in>set targets. tgt_name g = name \<and> ?may g) \<longleftrightarrow> ?may g"
      by (intro bex_unique g)
    with Some assms(5) show ?thesis
      by (simp add: authorize_for_target_by_name_def authorize_for_target_def user_info_of_def)
  qed
  moreover have "authorized_target_ids now assignments target_roles (user_id u)
      = {tid. authorize_target_by_id now assignments target_roles (user_id u) tid}"
    using authorized_target_ids_iff by blast
  ultimately show ?thesis by (simp add: authorize_target_by_id_iff)
qed

text \<open>A host reached through one role, with a second role held but revoked.\<close>

definition sample_target :: "unit target" where
  "sample_target = \<lparr> tgt_id = 40, tgt_name = ''host'', tgt_description = [], tgt_allow_roles = [],
     tgt_options = Options_Ssh (), tgt_rate_limit_bytes_per_second = None, tgt_group_id = None,
     tgt_ticket_max_duration_seconds = None, tgt_ticket_requests_disabled = False,
     tgt_ticket_require_approval = False, tgt_require_approval = False, tgt_ticket_max_uses = None \<rparr>"

definition sample_assignments :: "user_role_row list" where
  "sample_assignments =
     [\<lparr> ur_user_id = user_id sample_user, ur_role_id = 50, ur_granted_at = None, ur_expires_at = Some 9, ur_revoked_at = None \<rparr>,
      \<lparr> ur_user_id = user_id sample_user, ur_role_id = 51, ur_granted_at = None, ur_expires_at = None, ur_revoked_at = Some 1 \<rparr>]"

definition sample_roles :: "role_row list" where
  "sample_roles = [\<lparr> role_id = 50, role_name = ''ops'' \<rparr>, \<lparr> role_id = 51, role_name = ''dev'' \<rparr>]"

definition sample_target_roles :: "target_role_row list" where
  "sample_target_roles = [\<lparr> tr_target_id = 40, tr_role_id = 50 \<rparr>]"

lemma sample_target_ids:
  "authorized_target_ids 5 sample_assignments sample_target_roles (user_id sample_user) = {40}"
  "authorized_target_ids 9 sample_assignments sample_target_roles (user_id sample_user) = {}"
  by code_simp+

lemma sample_user_name: "sql_lower sample_env (user_username sample_user) = lower sample_env ''alice''"
  by code_simp

theorem authorization_queries_agree_witness:
  "authorize_target sample_env 5 [sample_user] [sample_target] sample_assignments sample_target_roles ''alice'' ''host''
   \<and> \<not> authorize_target sample_env 9 [sample_user] [sample_target] sample_assignments sample_target_roles
     ''alice'' ''host''"
proof -
  have sample: "unique_keys (\<lambda>u. sql_lower sample_env (user_username u)) [sample_user]"
    "unique_keys tgt_name [sample_target]" "sample_user \<in> set [sample_user]"
    "tgt_name sample_target = ''host''" "tgt_id sample_target = 40"
    by (simp_all add: unique_keys_def sample_target_def)
  have "authorize_target sample_env now [sample_user] [sample_target] sample_assignments sample_target_roles
      ''alice'' ''host'' \<longleftrightarrow>
      40 \<in> authorized_target_ids now sample_assignments sample_target_roles (user_id sample_user)" for now
    using authorization_queries_agree [OF sample(1-3) sample_user_name,
        where identity = "\<lparr> ai_user_info = user_info_of sample_user, ai_protocol = Ssh \<rparr>"
        and now = now and assignments = sample_assignments and target_roles = sample_target_roles
        and name = "''host''"]
    by (simp add: sample(4,5))
  then show ?thesis by (simp add: sample_target_ids)
qed

text \<open>
  C36: after a login through SSO, for every role the mapping manages the user actively holds
  it exactly when the mapping assigns it; roles the mapping does not manage and the
  assignments of every other user are left alone. The flag that ends running sessions is
  set exactly when a role the user held was taken away.
\<close>

theorem sso_role_mapping_exact:
  assumes "unique_keys assignment_key rows" and "unique_keys role_id roles"
    and "find (\<lambda>u. username_eq_ci E username (user_username u)) users = Some user"
    and "apply_sso_role_mappings E now users roles username managed assigned rows = Inr (rows', removed)"
    and "names = (case managed of Some ns \<Rightarrow> ns | None \<Rightarrow> map role_name roles)"
  shows "(\<forall>n r. role_by_name roles n = Some r \<longrightarrow>
        (holds_role now (user_id user) rows' r \<longleftrightarrow>
          (if n \<in> set names then n \<in> set assigned else holds_role now (user_id user) rows r)))
    \<and> (\<forall>uid. uid \<noteq> user_id user \<longrightarrow>
        filter (\<lambda>a. ur_user_id a = uid) rows' = filter (\<lambda>a. ur_user_id a = uid) rows)
    \<and> (removed \<longleftrightarrow> (\<exists>n\<in>set names. \<exists>r. role_by_name roles n = Some r
        \<and> holds_role now (user_id user) rows r \<and> n \<notin> set assigned))"
proof -
  let ?sync = "sync_roles (role_by_name roles) (holds_role now (user_id user))
    (\<lambda>r. idempotent_grant now (user_id user) r None) (revoke_role now (user_id user)) assigned names rows False"
  have result: "?sync = (rows', removed)"
    using assms(3-5) by (simp add: apply_sso_role_mappings_def Let_def)
  have inj: "\<forall>n m r. role_by_name roles n = Some r \<longrightarrow> role_by_name roles m = Some r \<longrightarrow> n = m"
    using role_by_name_inj [OF assms(2)] by blast
  have sync: "(holds_role now (user_id user) rows' r \<longleftrightarrow>
        (if \<exists>n\<in>set names. role_by_name roles n = Some r
         then \<exists>n\<in>set assigned. role_by_name roles n = Some r else holds_role now (user_id user) rows r))
      \<and> (removed \<longleftrightarrow> False \<or> (\<exists>n\<in>set names. \<exists>r. role_by_name roles n = Some r
        \<and> holds_role now (user_id user) rows r \<and> n \<notin> set assigned))" for r
    using user_book.sync_result [where lookup = "role_by_name roles" and assigned = assigned
      and names = names and removed = False and r = r and now = now and uid = "user_id user", OF assms(1) inj]
    unfolding result by simp
  have "holds_role now (user_id user) rows' r \<longleftrightarrow>
      (if n \<in> set names then n \<in> set assigned else holds_role now (user_id user) rows r)"
    if "role_by_name roles n = Some r" for n r
  proof -
    have "(\<exists>m\<in>S. role_by_name roles m = Some r) \<longleftrightarrow> n \<in> S" for S
      using inj that by blast
    then show ?thesis using sync [of r] by simp
  qed
  moreover have "filter (\<lambda>a. ur_user_id a = uid) rows' = filter (\<lambda>a. ur_user_id a = uid) rows"
    if "uid \<noteq> user_id user" for uid
    using sync_roles_frame [where F = "filter (\<lambda>a. ur_user_id a = uid)" and db = rows
        and lookup = "role_by_name roles" and holds = "holds_role now (user_id user)" and assigned = assigned
        and grant = "\<lambda>r. idempotent_grant now (user_id user) r None" and revoke = "revoke_role now (user_id user)"
        and names = names and removed = False] result
    by (simp add: idempotent_grant_frame [OF that] revoke_role_frame [OF that])
  moreover have "removed \<longleftrightarrow> (\<exists>n\<in>set names. \<exists>r. role_by_name roles n = Some r
        \<and> holds_role now (user_id user) rows r \<and> n \<notin> set assigned)"
    using sync [of 0] by simp
  ultimately show ?thesis by blast
qed

lemma sample_mapping:
  "unique_keys assignment_key sample_assignments" "unique_keys role_id sample_roles"
  "role_by_name sample_roles ''dev'' = Some 51" "role_by_name sample_roles ''ops'' = Some 50"
  "''ops'' \<in> set (map role_name sample_roles)" "''dev'' \<in> set (map role_name sample_roles)"
  "holds_role 5 (user_id sample_user) sample_assignments 50"
  by code_simp+

lemma sample_user_found:
  "find (\<lambda>u. username_eq_ci sample_env ''alice'' (user_username u)) [sample_user] = Some sample_user"
  by (simp add: username_eq_ci_def sample_user_name)

theorem sso_role_mapping_exact_witness:
  "\<exists>rows'. apply_sso_role_mappings sample_env 5 [sample_user] sample_roles ''alice'' None [''dev'']
       sample_assignments = Inr (rows', True)
     \<and> holds_role 5 (user_id sample_user) rows' 51 \<and> \<not> holds_role 5 (user_id sample_user) rows' 50"
proof -
  let ?r = "apply_sso_role_mappings sample_env 5 [sample_user] sample_roles ''alice'' None [''dev''] sample_assignments"
  have "\<exists>p. ?r = Inr p"
    by (simp only: apply_sso_role_mappings_def sample_user_found option.case Let_def) blast
  then obtain rows' removed where r: "?r = Inr (rows', removed)" by auto
  note exact = sso_role_mapping_exact [OF sample_mapping(1,2) sample_user_found r refl, unfolded option.case]
  have "holds_role 5 (user_id sample_user) rows' 51" "\<not> holds_role 5 (user_id sample_user) rows' 50"
    using conjunct1 [OF exact] sample_mapping(3-6) by auto
  moreover have removed
    by (rule iffD2 [OF conjunct2 [OF conjunct2 [OF exact]] bexI [OF _ sample_mapping(5)]])
      (simp add: sample_mapping)
  ultimately show ?thesis using r by auto
qed

end
