(* ===== verification/Programs.thy ===== *)
theory Programs
  imports Prelude
begin

text \<open>
  Asynchronous operations on shared state: a program is a tree of atomic statements, each
  with its effect on the shared state and a continuation that depends on the state the
  statement saw. Between two statements of a program any other program may run. Three ways of
  running: alone (\<open>run\<close>), with a given interference before every statement (\<open>run_in\<close>), and as
  one of a pool (\<open>interleave\<close>). The lemmas give the rules of a small program logic: a
  guarantee that every statement keeps, and what a result says about the states seen.
\<close>

datatype ('s, 'a) prog =
    Return 'a
  | Atomic "'s \<Rightarrow> 's" "'s \<Rightarrow> ('s, 'a) prog"

primrec prog_bind :: "('s, 'a) prog \<Rightarrow> ('a \<Rightarrow> ('s, 'b) prog) \<Rightarrow> ('s, 'b) prog" where
  "prog_bind (Return x) g = g x"
| "prog_bind (Atomic u k) g = Atomic u (\<lambda>s. prog_bind (k s) g)"

text \<open>One statement: a query, an update, or an update with a result.\<close>

definition query :: "('s \<Rightarrow> 'a) \<Rightarrow> ('s, 'a) prog" where
  "query f = Atomic (\<lambda>s. s) (\<lambda>s. Return (f s))"

definition statement :: "('s \<Rightarrow> 's \<times> 'a) \<Rightarrow> ('s, 'a) prog" where
  "statement f = Atomic (\<lambda>s. fst (f s)) (\<lambda>s. Return (snd (f s)))"

text \<open>The question mark operator: an error ends the operation.\<close>

definition prog_try ::
  "('s, 'a result) prog \<Rightarrow> ('a \<Rightarrow> ('s, 'b result) prog) \<Rightarrow> ('s, 'b result) prog" where
  "prog_try p g = prog_bind p (\<lambda>r. case r of Inl e \<Rightarrow> Return (Inl e) | Inr x \<Rightarrow> g x)"

text \<open>A loop over a list of items, with early return on an error.\<close>

fun prog_for :: "'i list \<Rightarrow> ('i \<Rightarrow> ('s, 'b result) prog) \<Rightarrow> ('s, unit result) prog" where
  "prog_for [] body = Return (Inr ())"
| "prog_for (i # is) body = prog_try (body i) (\<lambda>_. prog_for is body)"

section \<open>Running\<close>

primrec run :: "('s, 'a) prog \<Rightarrow> 's \<Rightarrow> 's \<times> 'a" where
  "run (Return x) = (\<lambda>s. (s, x))"
| "run (Atomic u k) = (\<lambda>s. run (k s) (u s))"

text \<open>
  With interference: the list holds what the rest of the system does right before each
  statement (nothing, once it is used up). The result has the interference left over, the
  states the statements saw, the final state and the value.
\<close>

primrec run_in ::
  "('s, 'a) prog \<Rightarrow> ('s \<Rightarrow> 's) list \<Rightarrow> 's \<Rightarrow> ('s \<Rightarrow> 's) list \<times> 's list \<times> 's \<times> 'a" where
  "run_in (Return x) = (\<lambda>envs s. (envs, [], s, x))"
| "run_in (Atomic u k) = (\<lambda>envs s.
     let seen = (case envs of [] \<Rightarrow> s | env # _ \<Rightarrow> env s);
         (envs', trace, s', x) = run_in (k seen) (tl envs) (u seen)
     in (envs', seen # trace, s', x))"

inductive interleave ::
  "('s, 'a) prog list \<times> 's \<Rightarrow> ('s, 'a) prog list \<times> 's \<Rightarrow> bool" where
  stay: "interleave c c"
| move: "interleave c (ps, s) \<Longrightarrow> i < length ps \<Longrightarrow> ps ! i = Atomic u k
    \<Longrightarrow> interleave c (ps[i := k s], u s)"

section \<open>Laws\<close>

lemma prog_bind_assoc: "prog_bind (prog_bind p g) h = prog_bind p (\<lambda>x. prog_bind (g x) h)"
  by (induction p) auto

lemma run_bind: "run (prog_bind p g) s = (case run p s of (s', x) \<Rightarrow> run (g x) s')"
  by (induction p arbitrary: s) auto

lemma run_query [simp]: "run (query f) s = (s, f s)"
  by (simp add: query_def)

lemma run_statement [simp]: "run (statement f) s = f s"
  by (simp add: statement_def)

lemma run_try:
  "run (prog_try p g) s = (case run p s of (s', Inl e) \<Rightarrow> (s', Inl e) | (s', Inr x) \<Rightarrow> run (g x) s')"
  by (auto simp: prog_try_def run_bind split: prod.split sum.split)

lemma run_in_bind:
  "run_in (prog_bind p g) envs s =
     (case run_in p envs s of (envs', trace, s', x) \<Rightarrow>
        (case run_in (g x) envs' s' of (envs'', trace', s'', y) \<Rightarrow> (envs'', trace @ trace', s'', y)))"
  by (induction p arbitrary: envs s) (auto simp: Let_def split: prod.split)

lemma run_in_bindE:
  assumes "run_in (prog_bind p g) envs s = (envs', trace, s', y)"
  obtains envs1 trace1 s1 x trace2 where "run_in p envs s = (envs1, trace1, s1, x)"
    "run_in (g x) envs1 s1 = (envs', trace2, s', y)" "trace = trace1 @ trace2"
  using assms by (auto simp: run_in_bind split: prod.splits)

text \<open>Running alone is running without interference.\<close>

lemma run_in_alone: "run_in p [] s = (envs, trace, s', x) \<Longrightarrow> run p s = (s', x)"
  by (induction p arbitrary: s trace) (auto simp: Let_def split: prod.splits)

text \<open>Running a program of the pool to its end is one of the interleavings.\<close>

lemma interleave_run:
  assumes "interleave c (p # ps, s)" and "run p s = (s', x)"
  shows "interleave c (Return x # ps, s')"
  using assms
proof (induction p arbitrary: s)
  case (Atomic u k)
  have "interleave c (k s # ps, u s)" using interleave.move [OF Atomic.prems(1), of 0] by simp
  with Atomic.IH Atomic.prems(2) show ?case by auto
qed auto

section \<open>Guarantees\<close>

text \<open>Every statement of the program, in whatever state it runs, makes a step of the relation.\<close>

primrec obeys :: "('s \<Rightarrow> 's \<Rightarrow> bool) \<Rightarrow> ('s, 'a) prog \<Rightarrow> bool" where
  "obeys G (Return x) \<longleftrightarrow> True"
| "obeys G (Atomic u k) \<longleftrightarrow> (\<forall>s. G s (u s) \<and> obeys G (k s))"

named_theorems obeys_rules

lemma obeys_bind [obeys_rules]: "obeys G p \<Longrightarrow> (\<And>x. obeys G (g x)) \<Longrightarrow> obeys G (prog_bind p g)"
  by (induction p) auto

lemma obeys_try [obeys_rules]: "obeys G p \<Longrightarrow> (\<And>x. obeys G (g x)) \<Longrightarrow> obeys G (prog_try p g)"
  by (auto simp: prog_try_def intro!: obeys_bind split: sum.split)

lemma obeys_for [obeys_rules]: "(\<And>i. obeys G (body i)) \<Longrightarrow> obeys G (prog_for is body)"
  by (induction "is") (auto intro: obeys_try)

lemma obeys_statement [obeys_rules]: "(\<And>s. G s (fst (f s))) \<Longrightarrow> obeys G (statement f)"
  by (simp add: statement_def)

lemma obeys_Return [obeys_rules]: "obeys G (Return x)"
  by simp

lemma obeys_if [obeys_rules]: "obeys G p \<Longrightarrow> obeys G q \<Longrightarrow> obeys G (if b then p else q)"
  by simp

lemma obeys_case_option [obeys_rules]:
  "obeys G p \<Longrightarrow> (\<And>x. obeys G (f x)) \<Longrightarrow> obeys G (case m of None \<Rightarrow> p | Some x \<Rightarrow> f x)"
  by (cases m) auto

lemma obeys_case_sum [obeys_rules]:
  "(\<And>e. obeys G (f e)) \<Longrightarrow> (\<And>x. obeys G (g x)) \<Longrightarrow> obeys G (case r of Inl e \<Rightarrow> f e | Inr x \<Rightarrow> g x)"
  by (cases r) auto

lemma obeys_case_prod [obeys_rules]: "(\<And>x y. obeys G (f x y)) \<Longrightarrow> obeys G (case p of (x, y) \<Rightarrow> f x y)"
  by (cases p) auto

lemma obeys_mono: "obeys G p \<Longrightarrow> (\<And>s t. G s t \<Longrightarrow> G' s t) \<Longrightarrow> obeys G' p"
  by (induction p) auto

locale guarantee =
  fixes G :: "'s \<Rightarrow> 's \<Rightarrow> bool"
  assumes G_refl: "G s s"
    and G_trans: "G s t \<Longrightarrow> G t u \<Longrightarrow> G s u"
begin

lemma obeys_query: "obeys G (query f)"
  by (simp add: query_def G_refl)

lemma run_obeys: "obeys G p \<Longrightarrow> G s (fst (run p s))"
  by (induction p arbitrary: s) (auto intro: G_refl G_trans)

lemma run_in_obeys:
  assumes "obeys G p" and "\<forall>env\<in>set envs. \<forall>s. G s (env s)"
    and "run_in p envs s = (envs', trace, s', x)"
  shows "G s s' \<and> (\<forall>env\<in>set envs'. \<forall>s. G s (env s)) \<and> (\<forall>t\<in>set trace. G s t \<and> G t s')"
  using assms
proof (induction p arbitrary: envs s trace)
  case (Return x)
  then show ?case by (simp add: G_refl)
next
  case (Atomic u k)
  define seen where "seen = (case envs of [] \<Rightarrow> s | env # _ \<Rightarrow> env s)"
  obtain rest where rest: "run_in (k seen) (tl envs) (u seen) = (envs', rest, s', x)" and t: "trace = seen # rest"
    using Atomic.prems(3) by (auto simp: Let_def seen_def split: prod.splits)
  have "G s seen" using Atomic.prems(2) by (auto simp: seen_def G_refl split: list.split)
  moreover have "G seen (u seen)" using Atomic.prems(1) by simp
  moreover have "G (u seen) s' \<and> (\<forall>env\<in>set envs'. \<forall>s. G s (env s)) \<and> (\<forall>t\<in>set rest. G (u seen) t \<and> G t s')"
    using Atomic.IH [OF _ _ _ rest] Atomic.prems(1,2) by (cases envs) auto
  ultimately show ?case using G_trans t by (metis set_ConsD)
qed

text \<open>A pool of programs keeps what each of its programs guarantees.\<close>

lemma interleave_obeys:
  assumes "interleave (ps, s) (ps', s')" and "\<forall>p\<in>set ps. obeys G p"
  shows "G s s' \<and> (\<forall>p\<in>set ps'. obeys G p)"
  using assms
proof (induction "(ps, s)" "(ps', s')" arbitrary: ps' s' rule: interleave.induct)
  case stay
  then show ?case by (simp add: G_refl)
next
  case (move qs t i u k)
  then have st: "G s t" and all: "\<forall>p\<in>set qs. obeys G p" by auto
  have "qs ! i \<in> set qs" using move.hyps(3) by (rule nth_mem)
  with all move.hyps(4) have "obeys G (Atomic u k)" by auto
  then have "G t (u t)" "obeys G (k t)" by auto
  moreover have "set (qs[i := k t]) \<subseteq> insert (k t) (set qs)" by (rule set_update_subset_insert)
  ultimately show ?case using st all G_trans by blast
qed

end

section \<open>What results say\<close>

text \<open>
  The weakest condition under which every run, whatever the interference, ends in a value
  and a set of seen states that satisfy \<open>Q\<close>.
\<close>

primrec wp :: "('a \<Rightarrow> 's set \<Rightarrow> bool) \<Rightarrow> ('s, 'a) prog \<Rightarrow> 's set \<Rightarrow> bool" where
  "wp Q (Return x) = (\<lambda>H. Q x H)"
| "wp Q (Atomic u k) = (\<lambda>H. \<forall>s. wp Q (k s) (insert s H))"

lemma wp_bind [simp]: "wp Q (prog_bind p g) H = wp (\<lambda>x. wp Q (g x)) p H"
  by (induction p arbitrary: H) auto

lemma wp_query [simp]: "wp Q (query f) H \<longleftrightarrow> (\<forall>s. Q (f s) (insert s H))"
  by (simp add: query_def)

lemma wp_statement [simp]: "wp Q (statement f) H \<longleftrightarrow> (\<forall>s. Q (snd (f s)) (insert s H))"
  by (simp add: statement_def)

lemma wp_try [simp]:
  "wp Q (prog_try p g) H = wp (\<lambda>r H. case r of Inl e \<Rightarrow> Q (Inl e) H | Inr x \<Rightarrow> wp Q (g x) H) p H"
proof -
  have "(\<lambda>r. wp Q (case r of Inl e \<Rightarrow> Return (Inl e) | Inr x \<Rightarrow> g x))
      = (\<lambda>r H. case r of Inl e \<Rightarrow> Q (Inl e) H | Inr x \<Rightarrow> wp Q (g x) H)"
    by (auto simp: fun_eq_iff split: sum.split)
  then show ?thesis by (simp add: prog_try_def)
qed

lemma wp_mono: "wp Q p H \<Longrightarrow> (\<And>x H'. H \<subseteq> H' \<Longrightarrow> Q x H' \<Longrightarrow> Q' x H') \<Longrightarrow> wp Q' p H"
proof (induction p arbitrary: H)
  case (Atomic u k)
  have "wp Q' (k s) (insert s H)" for s
    using Atomic.prems by (intro Atomic.IH) (auto intro: Atomic.prems(2))
  then show ?case by simp
qed auto

lemma wp_always: "(\<And>x H'. H \<subseteq> H' \<Longrightarrow> Q x H') \<Longrightarrow> wp Q p H"
proof (induction p arbitrary: H)
  case (Atomic u k)
  have "wp Q (k s) (insert s H)" for s
    by (rule Atomic.IH) (auto intro: Atomic.prems)
  then show ?case by simp
qed auto

lemma wp_run_in:
  assumes "wp Q p H" and "run_in p envs s = (envs', trace, s', x)"
  shows "Q x (H \<union> set trace)"
  using assms
proof (induction p arbitrary: envs s trace H)
  case (Atomic u k)
  define seen where "seen = (case envs of [] \<Rightarrow> s | env # _ \<Rightarrow> env s)"
  obtain rest where rest: "run_in (k seen) (tl envs) (u seen) = (envs', rest, s', x)" and t: "trace = seen # rest"
    using Atomic.prems(2) by (auto simp: Let_def seen_def split: prod.splits)
  have "wp Q (k seen) (insert seen H)" using Atomic.prems(1) by simp
  from Atomic.IH [OF _ this rest] show ?case by (simp add: t)
qed auto

lemma wp_run:
  assumes "wp Q p {}"
  shows "\<exists>H. Q (snd (run p s)) H"
proof -
  obtain envs trace s' x where r: "run_in p [] s = (envs, trace, s', x)" using prod_cases4 by blast
  from wp_run_in [OF assms r] run_in_alone [OF r] show ?thesis by auto
qed

section \<open>Programs on a part of the state\<close>

text \<open>A program of one component, run on the part of a larger state that belongs to it.\<close>

primrec zoom :: "('t \<Rightarrow> 's) \<Rightarrow> ('s \<Rightarrow> 't \<Rightarrow> 't) \<Rightarrow> ('s, 'a) prog \<Rightarrow> ('t, 'a) prog" where
  "zoom get put (Return x) = Return x"
| "zoom get put (Atomic u k) = Atomic (\<lambda>t. put (u (get t)) t) (\<lambda>t. zoom get put (k (get t)))"

text \<open>What a program says of the states it saw, it says of the parts of the larger states.\<close>

lemma wp_zoom: "wp P p (get ` H) \<Longrightarrow> wp (\<lambda>x H. P x (get ` H)) (zoom get put p) H"
proof (induction p arbitrary: H)
  case (Atomic u k)
  have "wp P (k (get s)) (get ` insert s H)" for s
    using Atomic.prems by simp
  then show ?case using Atomic.IH by auto
qed simp

text \<open>What its statements keep of the part, the statements on the larger state keep of it.\<close>

lemma obeys_zoom:
  assumes "obeys G p" and "\<And>s t. G (get t) s \<Longrightarrow> G' t (put s t)"
  shows "obeys G' (zoom get put p)"
  using assms(1) by (induction p) (auto intro: assms(2))

lemma run_zoom:
  assumes get_put: "\<And>x t. get (put x t) = x" and put_put: "\<And>x y t. put y (put x t) = put y t"
    and put_get: "\<And>t. put (get t) t = t"
  shows "run (zoom get put p) t = (case run p (get t) of (s, x) \<Rightarrow> (put s t, x))"
proof (induction p arbitrary: t)
  case (Return x)
  show ?case by (simp add: put_get)
next
  case (Atomic u k)
  then show ?case by (simp add: get_put put_put split: prod.split)
qed

end
