(* ===== verification/Tickets.thy ===== *)
theory Tickets
  imports Authorization Programs
begin

text \<open>
  Tickets: secrets that stand for one user and one target, with an optional number of uses
  and an optional expiry (\<open>warpgate-db-entities/src/Ticket.rs\<close>), and their way to an
  authorization (\<open>warpgate-core/src/config_providers/mod.rs\<close>). Operations are programs of
  database statements, so that presenting the same ticket several times at once can be
  examined. The number of uses is a plain integer: it is decremented only above zero.
\<close>

record ticket_row =
  tk_id :: uuid
  tk_secret_hash :: string
  tk_user_id :: uuid
  tk_description :: string
  tk_target_id :: uuid
  tk_uses_left :: "int option"
  tk_self_service :: bool
  tk_expiry :: "timestamp option"
  tk_created :: timestamp

record ticket_db =
  clock :: timestamp
  tickets :: "ticket_row list"

definition hash_secret :: "env \<Rightarrow> string \<Rightarrow> string" where
  "hash_secret E secret = sha256_hex E (as_bytes secret)"

definition sub_use :: "ticket_row \<Rightarrow> ticket_row" where
  "sub_use t = t\<lparr> tk_uses_left := map_option (\<lambda>n. n - 1) (tk_uses_left t) \<rparr>"

definition add_use :: "ticket_row \<Rightarrow> ticket_row" where
  "add_use t = t\<lparr> tk_uses_left := map_option (\<lambda>n. n + 1) (tk_uses_left t) \<rparr>"

definition uses_above_zero :: "ticket_row \<Rightarrow> bool" where
  "uses_above_zero t = (case tk_uses_left t of None \<Rightarrow> False | Some n \<Rightarrow> 0 < n)"

text \<open>The \<open>UPDATE ... SET uses_left = uses_left - 1 WHERE id = ? AND uses_left > 0\<close>.\<close>

definition spend_update :: "uuid \<Rightarrow> ('z ticket_db_scheme, unit result) prog" where
  "spend_update ticket_id =
     statement (\<lambda>s. let hit = (\<lambda>t. tk_id t = ticket_id \<and> uses_above_zero t)
       in (s\<lparr> tickets := update_many hit sub_use (tickets s) \<rparr>,
           if rows_affected hit (tickets s) = 0 then Inl (InvalidTicket ticket_id) else Inr ()))"

definition spend_use :: "uuid \<Rightarrow> ('z ticket_db_scheme, unit result) prog" where
  "spend_use ticket_id =
     prog_bind (query (\<lambda>s. find_by tk_id ticket_id (tickets s))) (\<lambda>ticket.
       case ticket of
         None \<Rightarrow> Return (Inl (InvalidTicket ticket_id))
       | Some ticket \<Rightarrow>
           if tk_uses_left ticket = None then Return (Inr ()) else spend_update ticket_id)"

definition refund_use :: "uuid \<Rightarrow> ('z ticket_db_scheme, unit result) prog" where
  "refund_use ticket_id =
     statement (\<lambda>s. (s\<lparr> tickets := update_many (\<lambda>t. tk_id t = ticket_id \<and> tk_uses_left t \<noteq> None)
         add_use (tickets s) \<rparr>, Inr ()))"

definition for_secret :: "env \<Rightarrow> string \<Rightarrow> ('z ticket_db_scheme, uuid option) prog" where
  "for_secret E secret =
     query (\<lambda>s. map_option tk_id (find (\<lambda>t. tk_secret_hash t = hash_secret E secret) (tickets s)))"

section \<open>From a ticket to an authorization\<close>

record ('net, 'o) access_db = ticket_db +
  access_lp :: "'net lp_service"
  access_targets :: "'o target list"

record 'o validated_ticket =
  vt_authorization :: "'o target_authorization"
  vt_id :: uuid

definition check_ip_statement ::
  "env \<Rightarrow> ('net \<Rightarrow> ip_addr \<Rightarrow> bool) \<Rightarrow> ip_addr option \<Rightarrow> (('net, 'o) access_db, bool) prog" where
  "check_ip_statement E contains remote_ip =
     (case remote_ip of
        None \<Rightarrow> Return False
      | Some ip \<Rightarrow>
          statement (\<lambda>s. case check_ip_blocked E contains (clock s) ip (access_lp s) of
            (lp, info) \<Rightarrow> (s\<lparr> access_lp := lp \<rparr>, info \<noteq> None)))"

definition vet_statement ::
  "env \<Rightarrow> ('net \<Rightarrow> ip_addr \<Rightarrow> bool) \<Rightarrow> 'net user \<Rightarrow> ip_addr option \<Rightarrow> (('net, 'o) access_db, bool) prog" where
  "vet_statement E contains user remote_ip =
     statement (\<lambda>s. case vet_credential_bearer E contains (clock s) user remote_ip (access_lp s) of
       (lp, ok) \<Rightarrow> (s\<lparr> access_lp := lp \<rparr>, ok))"

definition ticket_expired :: "timestamp \<Rightarrow> ticket_row \<Rightarrow> bool" where
  "ticket_expired now t = (case tk_expiry t of None \<Rightarrow> False | Some e \<Rightarrow> e < now)"

text \<open>
  The steps of \<open>validate_ticket\<close> in order: the block on the address, the ticket and its expiry,
  its user and whether the user may log in from there, its target and the protocol.
\<close>

definition validate_ticket ::
  "env \<Rightarrow> ('net \<Rightarrow> ip_addr \<Rightarrow> bool) \<Rightarrow> string \<Rightarrow> ip_addr option \<Rightarrow> protocol
   \<Rightarrow> (('net, 'o) access_db, 'o validated_ticket option result) prog" where
  "validate_ticket E contains secret remote_ip prot =
     prog_bind (check_ip_statement E contains remote_ip) (\<lambda>blocked.
     if blocked then Return (Inr None) else
     prog_bind (query (\<lambda>s. (find (\<lambda>t. tk_secret_hash t = hash_secret E secret) (tickets s), clock s))) (\<lambda>(ticket, now).
     case ticket of
       None \<Rightarrow> Return (Inr None)
     | Some ticket \<Rightarrow>
         if ticket_expired now ticket then Return (Inr None) else
         prog_bind (query (\<lambda>s. find_by user_id (tk_user_id ticket) (db_users (svc_db (access_lp s))))) (\<lambda>ticket_user.
         case ticket_user of
           None \<Rightarrow> Return (Inl (UserNotFound (show_uuid E (tk_user_id ticket))))
         | Some user \<Rightarrow>
             prog_bind (vet_statement E contains user remote_ip) (\<lambda>vetted.
             if \<not> vetted then Return (Inr None) else
             prog_bind (query (\<lambda>s. find_by tgt_id (tk_target_id ticket) (access_targets s))) (\<lambda>ticket_target.
             case ticket_target of
               None \<Rightarrow> Return (Inr None)
             | Some target \<Rightarrow>
                 if options_protocol (tgt_options target) \<noteq> prot then Return (Inr None)
                 else Return (Inr (Some
                   \<lparr> vt_authorization =
                       \<lparr> ta_user_info = user_info_of user, ta_target = target, ta_protocol = prot,
                         ta_ticket_id = Some (tk_id ticket) \<rparr>,
                     vt_id = tk_id ticket \<rparr>)))))))"

definition ticket_spend ::
  "'o validated_ticket \<Rightarrow> ('z ticket_db_scheme, 'o target_authorization option result) prog" where
  "ticket_spend ticket =
     prog_bind (spend_use (vt_id ticket)) (\<lambda>spent.
       Return (case spent of
         Inr _ \<Rightarrow> Inr (Some (vt_authorization ticket))
       | Inl e \<Rightarrow> if is_InvalidTicket e then Inr None else Inl e))"

definition authorize_and_spend_ticket ::
  "env \<Rightarrow> ('net \<Rightarrow> ip_addr \<Rightarrow> bool) \<Rightarrow> string \<Rightarrow> ip_addr option \<Rightarrow> protocol
   \<Rightarrow> (('net, 'o) access_db, 'o target_authorization option result) prog" where
  "authorize_and_spend_ticket E contains secret remote_ip prot =
     prog_try (validate_ticket E contains secret remote_ip prot) (\<lambda>ticket.
       case ticket of Some ticket \<Rightarrow> ticket_spend ticket | None \<Rightarrow> Return (Inr None))"

section \<open>Spending alone\<close>

definition has_use :: "ticket_row \<Rightarrow> bool" where
  "has_use t \<longleftrightarrow> tk_uses_left t = None \<or> uses_above_zero t"

lemma sub_use_id [simp]: "tk_id (sub_use t) = tk_id t"
  by (simp add: sub_use_def)

lemma add_use_id [simp]: "tk_id (add_use t) = tk_id t"
  by (simp add: add_use_def)

interpretation spending: row_update tk_id sub_use
  by unfold_locales simp

interpretation refunding: row_update tk_id add_use
  by unfold_locales simp

lemma sub_use_unlimited [simp]: "tk_uses_left t = None \<Longrightarrow> sub_use t = t"
  by (simp add: sub_use_def)

lemma run_spend_use:
  assumes "unique_keys tk_id (tickets s)"
  shows "run (spend_use tid) s =
    (case find_by tk_id tid (tickets s) of
       None \<Rightarrow> (s, Inl (InvalidTicket tid))
     | Some t \<Rightarrow>
         if has_use t then (s\<lparr> tickets := update_many (\<lambda>t. tk_id t = tid) sub_use (tickets s) \<rparr>, Inr ())
         else (s, Inl (InvalidTicket tid)))"
proof (cases "find_by tk_id tid (tickets s)")
  case None
  then show ?thesis by (simp add: spend_use_def run_bind)
next
  case (Some t)
  then have t: "t \<in> set (tickets s)" "tk_id t = tid" by (auto dest: find_by_SomeD)
  have only: "t' = t" if "t' \<in> set (tickets s)" "tk_id t' = tid" for t'
    using unique_keys_eq [OF assms that(1) t(1)] that(2) t(2) by simp
  let ?hit = "\<lambda>t. tk_id t = tid \<and> uses_above_zero t"
  have affected: "rows_affected ?hit (tickets s) = 0 \<longleftrightarrow> \<not> uses_above_zero t"
    unfolding rows_affected_0_iff using only t by metis
  have all: "update_many ?hit sub_use (tickets s) = update_many (\<lambda>t. tk_id t = tid) sub_use (tickets s)"
    if "uses_above_zero t"
    by (rule update_many_cong) (use only that in metis)
  have none: "update_many ?hit sub_use (tickets s) = tickets s" if "\<not> uses_above_zero t"
    by (rule update_many_none) (use only that in metis)
  have unlimited: "update_many (\<lambda>t. tk_id t = tid) sub_use (tickets s) = tickets s" if "tk_uses_left t = None"
    by (rule update_many_same) (use only that sub_use_unlimited in metis)
  show ?thesis
    using Some affected all none unlimited
    by (simp add: spend_use_def spend_update_def run_bind has_use_def Let_def)
qed

section \<open>Who may use a ticket\<close>

definition address_barred ::
  "env \<Rightarrow> ('net \<Rightarrow> ip_addr \<Rightarrow> bool) \<Rightarrow> timestamp \<Rightarrow> 'net lp_db \<Rightarrow> ip_addr option \<Rightarrow> bool" where
  "address_barred E contains now db remote_ip \<longleftrightarrow>
     lpc_enabled (read_config db)
     \<and> (\<exists>ip. remote_ip = Some ip \<and> \<not> is_ip_exempt contains (read_config db) ip
           \<and> stored_block E now db (to_canonical ip) \<noteq> None)"

definition account_barred :: "env \<Rightarrow> timestamp \<Rightarrow> 'net lp_db \<Rightarrow> string \<Rightarrow> bool" where
  "account_barred E now db username \<longleftrightarrow>
     lpc_enabled (read_config db)
     \<and> \<not> (exempt_admins (lpc_user_lockout (read_config db)) \<and> user_admin_status E db username = Some True)
     \<and> stored_lockout E now db (lower E username) \<noteq> None"

lemma attempt_barred_iff:
  "attempt_barred E contains now db remote_ip username
     \<longleftrightarrow> address_barred E contains now db remote_ip \<or> account_barred E now db username"
  by (auto simp: attempt_barred_def address_barred_def account_barred_def)

lemma check_ip_allowed_ok:
  "check_ip_allowed E contains ranges remote_ip username = Inr () \<longleftrightarrow> ip_allowed contains ranges remote_ip"
  by (simp add: check_ip_allowed_def)

lemma run_check_ip:
  assumes "ip_text_ok E" and "lp_inv E (access_lp s)"
  shows "\<exists>lp. run (check_ip_statement E contains remote_ip) s
      = (s\<lparr> access_lp := lp \<rparr>, address_barred E contains (clock s) (svc_db (access_lp s)) remote_ip)
    \<and> lp_inv E lp \<and> svc_db lp = svc_db (access_lp s)"
proof (cases remote_ip)
  case None
  with assms(2) show ?thesis
    by (intro exI [of _ "access_lp s"]) (simp add: check_ip_statement_def address_barred_def)
next
  case (Some ip)
  note A = address_text.intro [OF assms(1)]
  show ?thesis
    using Some address_text.check_ip_result [OF A assms(2), where contains = contains and now = "clock s" and ip = ip]
      address_text.check_ip_inv [OF A assms(2), where contains = contains and now = "clock s" and ip = ip]
    by (intro exI [of _ "fst (check_ip_blocked E contains (clock s) ip (access_lp s))"])
      (simp add: check_ip_statement_def address_barred_def case_prod_unfold)
qed

lemma run_vet:
  assumes "ip_text_ok E" and "case_maps_agree E" and "lp_inv E (access_lp s)"
  shows "\<exists>lp. run (vet_statement E contains user remote_ip) s
      = (s\<lparr> access_lp := lp \<rparr>, \<not> account_barred E (clock s) (svc_db (access_lp s)) (user_username user)
          \<and> ip_allowed contains (user_allowed_ip_ranges user) remote_ip)
    \<and> svc_db lp = svc_db (access_lp s)"
  using outside_text.check_user_result [OF outside_textI [OF assms(1,2)] assms(3),
      where now = "clock s" and u = "user_username user"]
  by (intro exI [of _ "fst (check_user_locked E (clock s) (user_username user) (access_lp s))"])
    (auto simp: vet_statement_def vet_credential_bearer_def account_barred_def check_ip_allowed_ok case_prod_unfold
      split: option.split prod.split)

text \<open>The ticket a secret opens, with its user and its target, as the tables stand.\<close>

definition opens ::
  "env \<Rightarrow> ('net \<Rightarrow> ip_addr \<Rightarrow> bool) \<Rightarrow> string \<Rightarrow> ip_addr option \<Rightarrow> protocol \<Rightarrow> ('net, 'o) access_db
   \<Rightarrow> ticket_row \<Rightarrow> 'net user \<Rightarrow> 'o target \<Rightarrow> bool" where
  "opens E contains secret remote_ip prot s ticket user target \<longleftrightarrow>
     find (\<lambda>t. tk_secret_hash t = hash_secret E secret) (tickets s) = Some ticket
     \<and> \<not> ticket_expired (clock s) ticket
     \<and> find_by user_id (tk_user_id ticket) (db_users (svc_db (access_lp s))) = Some user
     \<and> \<not> attempt_barred E contains (clock s) (svc_db (access_lp s)) remote_ip (user_username user)
     \<and> ip_allowed contains (user_allowed_ip_ranges user) remote_ip
     \<and> find_by tgt_id (tk_target_id ticket) (access_targets s) = Some target
     \<and> options_protocol (tgt_options target) = prot"

definition ticket_authorization :: "protocol \<Rightarrow> ticket_row \<Rightarrow> 'net user \<Rightarrow> 'o target \<Rightarrow> 'o target_authorization" where
  "ticket_authorization prot ticket user target =
     \<lparr> ta_user_info = user_info_of user, ta_target = target, ta_protocol = prot, ta_ticket_id = Some (tk_id ticket) \<rparr>"

lemma run_validate_ticket:
  assumes "ip_text_ok E" and "case_maps_agree E" and "lp_inv E (access_lp s)"
  shows "\<exists>lp r. run (validate_ticket E contains secret remote_ip prot) s = (s\<lparr> access_lp := lp \<rparr>, r)
    \<and> (case r of
         Inr (Some v) \<Rightarrow> \<exists>ticket user target. opens E contains secret remote_ip prot s ticket user target
           \<and> v = \<lparr> vt_authorization = ticket_authorization prot ticket user target, vt_id = tk_id ticket \<rparr>
       | Inr None \<Rightarrow> \<not> (\<exists>ticket user target. opens E contains secret remote_ip prot s ticket user target)
       | Inl e \<Rightarrow> \<exists>ticket. find (\<lambda>t. tk_secret_hash t = hash_secret E secret) (tickets s) = Some ticket
           \<and> find_by user_id (tk_user_id ticket) (db_users (svc_db (access_lp s))) = None
           \<and> e = UserNotFound (show_uuid E (tk_user_id ticket)))"
proof -
  obtain lp where ip: "run (check_ip_statement E contains remote_ip) s
      = (s\<lparr> access_lp := lp \<rparr>, address_barred E contains (clock s) (svc_db (access_lp s)) remote_ip)"
    and lp: "lp_inv E lp" "svc_db lp = svc_db (access_lp s)"
    using run_check_ip [OF assms(1,3)] by blast
  show ?thesis
  proof (cases "address_barred E contains (clock s) (svc_db (access_lp s)) remote_ip")
    case True
    then show ?thesis
      by (intro exI [of _ lp] exI [of _ "Inr None"]) (simp add: validate_ticket_def run_bind ip opens_def attempt_barred_iff)
  next
    case open_address: False
    show ?thesis
    proof (cases "find (\<lambda>t. tk_secret_hash t = hash_secret E secret) (tickets s)")
      case None
      with open_address show ?thesis
        by (intro exI [of _ lp] exI [of _ "Inr None"]) (simp add: validate_ticket_def run_bind ip opens_def)
    next
      case ticket: (Some ticket)
      show ?thesis
      proof (cases "ticket_expired (clock s) ticket")
        case True
        with open_address ticket show ?thesis
          by (intro exI [of _ lp] exI [of _ "Inr None"]) (simp add: validate_ticket_def run_bind ip opens_def)
      next
        case fresh: False
        show ?thesis
        proof (cases "find_by user_id (tk_user_id ticket) (db_users (svc_db (access_lp s)))")
          case None
          with open_address ticket fresh lp show ?thesis
            by (intro exI [of _ lp] exI [of _ "Inl (UserNotFound (show_uuid E (tk_user_id ticket)))"])
              (simp add: validate_ticket_def run_bind ip)
        next
          case user: (Some user)
          obtain lp' where vet: "run (vet_statement E contains user remote_ip) (s\<lparr> access_lp := lp \<rparr>)
              = (s\<lparr> access_lp := lp' \<rparr>, \<not> account_barred E (clock s) (svc_db (access_lp s)) (user_username user)
                  \<and> ip_allowed contains (user_allowed_ip_ranges user) remote_ip)"
            using run_vet [OF assms(1,2), of "s\<lparr> access_lp := lp \<rparr>" contains user remote_ip] lp by auto
          note steps = open_address ticket fresh user vet
          show ?thesis
            by (rule exI [of _ lp'], cases "find_by tgt_id (tk_target_id ticket) (access_targets s)")
              (use steps lp in \<open>simp_all add: validate_ticket_def run_bind ip opens_def attempt_barred_iff
                ticket_authorization_def\<close>)
        qed
      qed
    qed
  qed
qed

lemma opens_in_table: "opens E contains secret remote_ip prot s ticket user target \<Longrightarrow> ticket \<in> set (tickets s)"
  by (auto simp: opens_def find_Some_iff)

lemma opens_unique:
  "opens E contains secret remote_ip prot s ticket user target
   \<Longrightarrow> opens E contains secret remote_ip prot s ticket' user' target' \<Longrightarrow> ticket' = ticket \<and> user' = user \<and> target' = target"
  by (simp add: opens_def)

lemma run_ticket_spend:
  assumes "unique_keys tk_id (tickets s)" and "ticket \<in> set (tickets s)"
  shows "run (ticket_spend \<lparr> vt_authorization = a, vt_id = tk_id ticket \<rparr>) s =
    (if has_use ticket then (s\<lparr> tickets := update_many (\<lambda>t. tk_id t = tk_id ticket) sub_use (tickets s) \<rparr>, Inr (Some a))
     else (s, Inr None))"
  using run_spend_use [OF assms(1), of "tk_id ticket"] find_by_unique [OF assms]
  by (simp add: ticket_spend_def run_bind)

section \<open>Spending at the same time\<close>

text \<open>
  The stages a presenter of a ticket goes through: about to read the ticket, about to update
  it, let in, or turned away.
\<close>

definition spend_stage :: "uuid \<Rightarrow> (ticket_db, unit result) prog \<Rightarrow> bool" where
  "spend_stage tid p \<longleftrightarrow> p = spend_use tid \<or> p = spend_update tid \<or> (\<exists>r. p = Return r)"

definition let_in :: "uuid \<Rightarrow> uuid list \<Rightarrow> (ticket_db, unit result) prog list \<Rightarrow> nat set" where
  "let_in t tids ps = {i. i < length ps \<and> tids ! i = t \<and> ps ! i = Return (Inr ())}"

definition limited :: "uuid \<Rightarrow> int \<Rightarrow> 'z ticket_db_scheme \<Rightarrow> bool" where
  "limited t v s \<longleftrightarrow> unique_keys tk_id (tickets s)
     \<and> (\<exists>row. find_by tk_id t (tickets s) = Some row \<and> tk_uses_left row = Some v)"

definition spending_inv :: "uuid \<Rightarrow> int \<Rightarrow> uuid list \<Rightarrow> (ticket_db, unit result) prog list \<Rightarrow> ticket_db \<Rightarrow> bool" where
  "spending_inv t u tids ps s \<longleftrightarrow> length ps = length tids
     \<and> (\<forall>i<length ps. spend_stage (tids ! i) (ps ! i))
     \<and> (\<exists>v\<ge>0. limited t v s \<and> v + int (card (let_in t tids ps)) = u
          \<and> ((\<exists>i<length ps. \<exists>e. tids ! i = t \<and> ps ! i = Return (Inl e)) \<longrightarrow> v = 0))"

lemma let_in_update:
  assumes "i < length ps" and "ps ! i \<noteq> Return (Inr ())"
  shows "let_in t tids (ps[i := p]) =
    (if tids ! i = t \<and> p = Return (Inr ()) then insert i (let_in t tids ps) else let_in t tids ps)"
  using assms by (auto simp: let_in_def nth_list_update)

lemma card_let_in_update:
  assumes "i < length ps" and "ps ! i \<noteq> Return (Inr ())"
  shows "card (let_in t tids (ps[i := p])) =
    (if tids ! i = t \<and> p = Return (Inr ()) then Suc (card (let_in t tids ps)) else card (let_in t tids ps))"
proof -
  have "finite (let_in t tids ps)" by (simp add: let_in_def)
  moreover have "i \<notin> let_in t tids ps" using assms(2) by (simp add: let_in_def)
  ultimately show ?thesis by (simp add: let_in_update [OF assms])
qed

text \<open>Reading: nobody is let in or turned away from a limited ticket yet.\<close>

lemma spend_use_step:
  assumes "spend_use tid = Atomic f k" and "limited t v s"
  shows "f s = s \<and> spend_stage tid (k s) \<and> (tid = t \<longrightarrow> k s = spend_update tid)"
proof -
  have "f = (\<lambda>s. s)" and "k = (\<lambda>s. prog_bind (Return (find_by tk_id tid (tickets s))) (\<lambda>ticket. case ticket of
         None \<Rightarrow> Return (Inl (InvalidTicket tid))
       | Some ticket \<Rightarrow> if tk_uses_left ticket = None then Return (Inr ()) else spend_update tid))"
    using assms(1) by (simp_all add: spend_use_def query_def)
  with assms(2) show ?thesis
    by (auto simp: spend_stage_def limited_def split: option.split)
qed

text \<open>Updating: one is let in for one use taken, and turned away only from an exhausted ticket.\<close>

lemma spend_update_step:
  assumes "spend_update tid = Atomic f k" and "limited t v s" and "0 \<le> v"
  shows "(\<exists>r. k s = Return r) \<and> limited t (if tid = t \<and> 0 < v then v - 1 else v) (f s)
    \<and> (tid = t \<longrightarrow> (k s = Return (Inr ()) \<longleftrightarrow> 0 < v))"
proof -
  let ?hit = "\<lambda>x. tk_id x = tid \<and> uses_above_zero x"
  have f: "f s = s\<lparr> tickets := update_many ?hit sub_use (tickets s) \<rparr>"
    and k: "k s = Return (if rows_affected ?hit (tickets s) = 0 then Inl (InvalidTicket tid) else Inr ())"
    using assms(1) by (auto simp: spend_update_def statement_def Let_def fun_eq_iff)
  obtain row where unique: "unique_keys tk_id (tickets s)" and row: "find_by tk_id t (tickets s) = Some row"
    and uses: "tk_uses_left row = Some v"
    using assms(2) by (auto simp: limited_def)
  have id: "row \<in> set (tickets s)" "tk_id row = t" using find_by_SomeD [OF row] by simp_all
  have above: "uses_above_zero row \<longleftrightarrow> 0 < v" by (simp add: uses_above_zero_def uses)
  have "find_by tk_id t (update_many ?hit sub_use (tickets s)) = Some (if ?hit row then sub_use row else row)"
    by (simp add: spending.find_update row)
  then have "limited t (if tid = t \<and> 0 < v then v - 1 else v) (f s)"
    using unique id(2) above by (auto simp: limited_def f spending.unique_update sub_use_def uses)
  moreover have "rows_affected ?hit (tickets s) = 0 \<longleftrightarrow> \<not> 0 < v" if "tid = t"
    unfolding rows_affected_0_iff using that id above unique_keys_eq [OF unique] by metis
  ultimately show ?thesis by (simp add: k)
qed

lemma spending_inv_step:
  assumes inv: "spending_inv t u tids ps s" and i: "i < length ps" and atomic: "ps ! i = Atomic f k"
  shows "spending_inv t u tids (ps[i := k s]) (f s)"
proof -
  obtain v where len: "length ps = length tids" and stages: "\<forall>j<length ps. spend_stage (tids ! j) (ps ! j)"
    and v: "0 \<le> v" "limited t v s" "v + int (card (let_in t tids ps)) = u"
    and failed: "\<And>j e. j < length ps \<Longrightarrow> tids ! j = t \<Longrightarrow> ps ! j = Return (Inl e) \<Longrightarrow> v = 0"
    using inv by (auto simp: spending_inv_def)
  have "spend_stage (tids ! i) (Atomic f k)" using stages i atomic by metis
  then have "spend_use (tids ! i) = Atomic f k \<or> spend_update (tids ! i) = Atomic f k"
    by (auto simp: spend_stage_def)
  then have "\<exists>v'\<ge>0. limited t v' (f s) \<and> spend_stage (tids ! i) (k s)
      \<and> v' + (if tids ! i = t \<and> k s = Return (Inr ()) then 1 else 0) = v
      \<and> (tids ! i = t \<and> (\<exists>e. k s = Return (Inl e)) \<longrightarrow> v' = 0)"
  proof
    assume "spend_use (tids ! i) = Atomic f k"
    from spend_use_step [OF this v(2)] v(1,2) show ?thesis
      by (intro exI [of _ v]) (auto simp: spend_update_def statement_def)
  next
    assume "spend_update (tids ! i) = Atomic f k"
    from spend_update_step [OF this v(2,1)] v(1) show ?thesis
      by (intro exI [of _ "if tids ! i = t \<and> 0 < v then v - 1 else v"]) (auto simp: spend_stage_def)
  qed
  then obtain v' where v': "0 \<le> v'" "limited t v' (f s)" "spend_stage (tids ! i) (k s)"
      "v' + (if tids ! i = t \<and> k s = Return (Inr ()) then 1 else 0) = v"
      "tids ! i = t \<and> (\<exists>e. k s = Return (Inl e)) \<longrightarrow> v' = 0" by blast
  have "ps ! i \<noteq> Return (Inr ())" using atomic by simp
  then have "v' + int (card (let_in t tids (ps[i := k s]))) = u"
    using v(3) v'(4) by (auto simp: card_let_in_update [OF i])
  moreover have "v' = 0" if "j < length ps" "tids ! j = t" "ps[i := k s] ! j = Return (Inl e)" for j e
    using that v'(1,4,5) failed [of j e] by (cases "j = i") (auto split: if_splits)
  moreover have "\<forall>j<length ps. spend_stage (tids ! j) (ps[i := k s] ! j)"
    using stages v'(3) i by (metis nth_list_update_eq nth_list_update_neq)
  ultimately show ?thesis
    using len v'(1,2) unfolding spending_inv_def by (intro conjI exI [of _ v']) auto
qed

lemma interleave_spending_inv:
  "interleave (ps, s) (ps', s') \<Longrightarrow> spending_inv t u tids ps s \<Longrightarrow> spending_inv t u tids ps' s'"
  by (induction "(ps, s)" "(ps', s')" arbitrary: ps' s' rule: interleave.induct) (auto intro: spending_inv_step)

lemma spending_inv_start:
  assumes "limited t u s" and "0 \<le> u"
  shows "spending_inv t u tids (map spend_use tids) s"
proof -
  have "let_in t tids (map spend_use tids) = {}"
    by (auto simp: let_in_def spend_use_def query_def)
  then show ?thesis
    using assms by (auto simp: spending_inv_def spend_stage_def spend_use_def query_def)
qed

section \<open>Properties\<close>


text \<open>
  C4: however many sessions present tickets at the same time, and however their statements
  interleave, a ticket with a limited number of uses lets in no more of them than it has
  uses, every one let in has taken one, and once all are done it has let in as many as it
  could: all its presenters, or as many as it had uses.
\<close>

theorem concurrent_spends_exact:
  assumes "interleave (map spend_use tids, s) (ps, s')" and "limited t u s" and "0 \<le> u"
  shows "int (card (let_in t tids ps)) \<le> u
    \<and> limited t (u - int (card (let_in t tids ps))) s'
    \<and> ((\<forall>p\<in>set ps. \<exists>r. p = Return r) \<longrightarrow>
        int (card (let_in t tids ps)) = min (int (card {i. i < length tids \<and> tids ! i = t})) u)"
proof -
  have "spending_inv t u tids ps s'"
    using interleave_spending_inv [OF assms(1) spending_inv_start [OF assms(2,3)]] .
  then obtain v where len: "length ps = length tids" and v: "0 \<le> v" "limited t v s'"
      "v + int (card (let_in t tids ps)) = u"
    and failed: "\<And>i e. i < length ps \<Longrightarrow> tids ! i = t \<Longrightarrow> ps ! i = Return (Inl e) \<Longrightarrow> v = 0"
    by (auto simp: spending_inv_def)
  let ?all = "{i. i < length tids \<and> tids ! i = t}"
  have sub: "let_in t tids ps \<subseteq> ?all" "finite ?all" using len by (auto simp: let_in_def)
  have "int (card (let_in t tids ps)) = min (int (card ?all)) u" if finished: "\<forall>p\<in>set ps. \<exists>r. p = Return r"
  proof (cases "v = 0")
    case True
    then show ?thesis using v(3) card_mono [OF sub(2,1)] by simp
  next
    case False
    have "i \<in> let_in t tids ps" if "i \<in> ?all" for i
    proof -
      have "ps ! i \<in> set ps" using that len by simp
      with finished obtain r where "ps ! i = Return r" by blast
      with that len failed [of i] False show ?thesis by (cases r) (auto simp: let_in_def)
    qed
    then have "let_in t tids ps = ?all" using sub(1) by blast
    then show ?thesis using v(1,3) by simp
  qed
  then show ?thesis using v by (auto simp: algebra_simps)
qed

section \<open>A concrete ticket\<close>

definition sample_ticket :: ticket_row where
  "sample_ticket = \<lparr> tk_id = 60, tk_secret_hash = hash_secret sample_env ''s'', tk_user_id = user_id sample_user,
     tk_description = [], tk_target_id = tgt_id sample_target, tk_uses_left = Some 1, tk_self_service = False,
     tk_expiry = Some 20, tk_created = 0 \<rparr>"

definition sample_access :: "(nat, unit) access_db" where
  "sample_access = \<lparr> clock = 10, tickets = [sample_ticket], access_lp = sample_svc, access_targets = [sample_target] \<rparr>"

lemma sample_opens:
  "opens sample_env sample_contains ''s'' None Ssh sample_access sample_ticket sample_user sample_target"
  by (simp add: opens_def sample_access_def sample_ticket_def ticket_expired_def sample_db_def attempt_barred_def
      stored_entry_def sample_lockout_def none_or_later_def ip_allowed_def)
    (simp add: sample_user_def sample_target_def)


text \<open>Two presenters of a ticket with one use, both reading it before either updates it.\<close>

definition sample_ticket_db :: "int \<Rightarrow> ticket_db" where
  "sample_ticket_db n = \<lparr> clock = 0, tickets = [sample_ticket\<lparr> tk_uses_left := Some n \<rparr>] \<rparr>"

lemma sample_race:
  "interleave (map spend_use [60, 60], sample_ticket_db 1)
     ([Return (Inr ()), Return (Inl (InvalidTicket 60))], sample_ticket_db 0)"
proof -
  have read: "spend_use 60 = Atomic (\<lambda>s. s) k \<Longrightarrow> k (sample_ticket_db 1) = spend_update 60" for k
    by (auto simp: spend_use_def query_def sample_ticket_db_def sample_ticket_def)
  obtain k where k: "spend_use 60 = (Atomic (\<lambda>s. s) k :: (ticket_db, unit result) prog)" by (simp add: spend_use_def query_def)
  obtain f h where upd: "spend_update 60 = (Atomic f h :: (ticket_db, unit result) prog)" by (simp add: spend_update_def statement_def)
  have f: "f (sample_ticket_db 1) = sample_ticket_db 0" "f (sample_ticket_db 0) = sample_ticket_db 0"
    "h (sample_ticket_db 1) = Return (Inr ())" "h (sample_ticket_db 0) = Return (Inl (InvalidTicket 60))"
    using upd by (auto simp: spend_update_def statement_def Let_def sample_ticket_db_def sample_ticket_def
        uses_above_zero_def sub_use_def rows_affected_def)
  have start: "interleave (map spend_use [60, 60], sample_ticket_db 1) ([spend_use 60, spend_use 60], sample_ticket_db 1)"
    by (simp add: interleave.stay)
  have one: "interleave (map spend_use [60, 60], sample_ticket_db 1) ([spend_update 60, spend_use 60], sample_ticket_db 1)"
    using interleave.move [OF start, of 0] k read by simp
  have two: "interleave (map spend_use [60, 60], sample_ticket_db 1) ([spend_update 60, spend_update 60], sample_ticket_db 1)"
    using interleave.move [OF one, of 1] k read by simp
  have three: "interleave (map spend_use [60, 60], sample_ticket_db 1) ([Return (Inr ()), spend_update 60], sample_ticket_db 0)"
    using interleave.move [OF two, of 0] upd f by simp
  show ?thesis using interleave.move [OF three, of 1] upd f by simp
qed

theorem concurrent_spends_exact_witness:
  "card (let_in 60 [60, 60] [Return (Inr ()), Return (Inl (InvalidTicket 60))]) = 1
   \<and> limited 60 0 (sample_ticket_db 0)"
proof -
  have "limited 60 1 (sample_ticket_db 1)"
    by (simp add: limited_def sample_ticket_db_def sample_ticket_def unique_keys_def)
  note exact = concurrent_spends_exact [OF sample_race this]
  have "{i. i < length [60, 60 :: uuid] \<and> [60, 60] ! i = (60 :: uuid)} = {0, 1}"
    by (auto simp: less_Suc_eq numeral_2_eq_2)
  then have "card (let_in 60 [60, 60] [Return (Inr ()), Return (Inl (InvalidTicket 60))]) = 1"
    using exact by simp
  with exact show ?thesis by simp
qed

end
