(* ===== verification/Approval_Requests.thy ===== *)
theory Approval_Requests
  imports Tickets
begin

text \<open>
  The table of approval requests (\<open>warpgate-db-entities/src/SessionApprovalRequest.rs\<close>): one row
  per session, kind of approval and target, which is asked, answered, timed out, withdrawn
  and asked again. Every operation is a program of single statements over the table and the
  tickets that pay for the requests. A failing statement ends an operation with its error
  and is not modelled, except where the code goes on.
\<close>

section \<open>Data\<close>

datatype request_status = Req_Pending | Req_Approved | Req_Rejected | Req_TimedOut | Req_Abandoned

definition unanswered :: "request_status list" where
  "unanswered = [Req_TimedOut, Req_Abandoned]"

definition decided :: "request_status list" where
  "decided = [Req_Approved, Req_Rejected]"

datatype undecided_status = Undecided_TimedOut | Undecided_Abandoned

fun status_of_undecided :: "undecided_status \<Rightarrow> request_status" where
  "status_of_undecided Undecided_TimedOut = Req_TimedOut"
| "status_of_undecided Undecided_Abandoned = Req_Abandoned"

record request_row =
  rq_session_id :: uuid
  rq_kind :: approval_kind
  rq_node_id :: uuid
  rq_protocol :: string
  rq_username :: string
  rq_user_id :: uuid
  rq_target :: string
  rq_remote_address :: "string option"
  rq_identification_string :: "string option"
  rq_match_digest :: "string option"
  rq_ticket_id :: "uuid option"
  rq_started :: timestamp
  rq_status :: request_status
  rq_scope :: "approval_scope option"
  rq_resolved_by_username :: "string option"
  rq_resolved_by_user_id :: "uuid option"
  rq_resolved_at :: "timestamp option"
  rq_consumed_at :: "timestamp option"

record request_db = ticket_db +
  requests :: "request_row list"

type_synonym request_key = "uuid \<times> approval_kind \<times> string"

definition row_key :: "request_row \<Rightarrow> request_key" where
  "row_key r = (rq_session_id r, rq_kind r, rq_target r)"

datatype request_ask = Ask_Admin "uuid option" | Ask_User string

fun ask_kind :: "request_ask \<Rightarrow> approval_kind" where
  "ask_kind (Ask_Admin _) = Approval_Admin"
| "ask_kind (Ask_User _) = Approval_User"

fun ask_ticket_id :: "request_ask \<Rightarrow> uuid option" where
  "ask_ticket_id (Ask_Admin ticket_id) = ticket_id"
| "ask_ticket_id (Ask_User _) = None"

record new_request =
  nr_session_id :: uuid
  nr_target :: string
  nr_node_id :: uuid
  nr_protocol :: string
  nr_username :: string
  nr_user_id :: uuid
  nr_remote_address :: "string option"
  nr_match_digest :: "string option"
  nr_started :: timestamp
  nr_about :: request_ask

definition new_request_key :: "new_request \<Rightarrow> request_key" where
  "new_request_key request = (nr_session_id request, ask_kind (nr_about request), nr_target request)"

definition new_request_row :: "new_request \<Rightarrow> request_row" where
  "new_request_row request =
     (let (identification_string, ticket_id) = (case nr_about request of
            Ask_Admin ticket_id \<Rightarrow> (None, ticket_id)
          | Ask_User identification_string \<Rightarrow> (Some identification_string, None))
      in \<lparr> rq_session_id = nr_session_id request, rq_kind = ask_kind (nr_about request),
           rq_node_id = nr_node_id request, rq_protocol = nr_protocol request,
           rq_username = nr_username request, rq_user_id = nr_user_id request,
           rq_target = nr_target request, rq_remote_address = nr_remote_address request,
           rq_identification_string = identification_string,
           rq_match_digest = nr_match_digest request, rq_ticket_id = ticket_id,
           rq_started = nr_started request, rq_status = Req_Pending, rq_scope = None,
           rq_resolved_by_username = None, rq_resolved_by_user_id = None,
           rq_resolved_at = None, rq_consumed_at = None \<rparr>)"

section \<open>Changes of status\<close>

record status_transition =
  st_to :: request_status
  st_from :: "request_row \<Rightarrow> bool"
  st_columns :: "(request_row \<Rightarrow> request_row) list"

definition from_pending :: "timestamp \<Rightarrow> request_status \<Rightarrow> status_transition" where
  "from_pending now to =
     \<lparr> st_to = to, st_from = (\<lambda>r. rq_status r = Req_Pending),
       st_columns = [\<lambda>r. r\<lparr> rq_resolved_at := Some now \<rparr>] \<rparr>"

definition transition_set :: "(request_row \<Rightarrow> request_row) \<Rightarrow> status_transition \<Rightarrow> status_transition" where
  "transition_set column t = t\<lparr> st_columns := st_columns t @ [column] \<rparr>"

definition transition_apply ::
  "(request_row \<Rightarrow> bool) \<Rightarrow> status_transition \<Rightarrow> ('z request_db_scheme, nat) prog" where
  "transition_apply which t =
     statement (\<lambda>s. let hit = (\<lambda>r. which r \<and> st_from t r)
       in (s\<lparr> requests := update_many hit
             (\<lambda>r. fold (\<lambda>column. column) (st_columns t) (r\<lparr> rq_status := st_to t \<rparr>)) (requests s) \<rparr>,
           rows_affected hit (requests s)))"

section \<open>Asking\<close>

definition find_user_approval ::
  "env \<Rightarrow> string \<Rightarrow> uuid \<Rightarrow> ('z request_db_scheme, request_row option) prog" where
  "find_user_approval E username session_id =
     query (\<lambda>s. case find (\<lambda>r. rq_session_id r = session_id \<and> rq_kind r = Approval_User
                              \<and> rq_status r = Req_Pending) (requests s) of
        None \<Rightarrow> None
      | Some row \<Rightarrow> if username_eq_ci_str E (rq_username row) username then Some row else None)"

definition try_refresh_pending :: "request_row \<Rightarrow> ('z request_db_scheme, bool) prog" where
  "try_refresh_pending row =
     statement (\<lambda>s. let hit = (\<lambda>r. row_key r = row_key row \<and> rq_status r = Req_Pending)
       in (s\<lparr> requests := update_many hit
             (\<lambda>r. row\<lparr> rq_started := rq_started r, rq_status := rq_status r, rq_scope := rq_scope r,
                rq_resolved_by_username := rq_resolved_by_username r,
                rq_resolved_by_user_id := rq_resolved_by_user_id r,
                rq_resolved_at := rq_resolved_at r, rq_consumed_at := rq_consumed_at r \<rparr>) (requests s) \<rparr>,
           0 < rows_affected hit (requests s)))"

datatype reopened = Reopened | NotUnanswered | Reopen_TicketExhausted

text \<open>The second half: write the row again, and give the use back when another asker won.\<close>

definition reopen_update :: "uuid option \<Rightarrow> request_row \<Rightarrow> ('z request_db_scheme, reopened result) prog" where
  "reopen_update ticket_id row =
     prog_bind (statement (\<lambda>s. let hit = (\<lambda>r. row_key r = row_key row \<and> rq_status r \<in> set unanswered)
       in (s\<lparr> requests := update_many hit
             (\<lambda>r. row\<lparr> rq_status := Req_Pending, rq_scope := None, rq_resolved_by_username := None,
                rq_resolved_by_user_id := None, rq_resolved_at := None, rq_consumed_at := None \<rparr>) (requests s) \<rparr>,
           0 < rows_affected hit (requests s)))) (\<lambda>updated.
     if updated then Return (Inr Reopened)
     else case ticket_id of
       None \<Rightarrow> Return (Inr NotUnanswered)
     | Some ticket_id \<Rightarrow> prog_bind (refund_use ticket_id) (\<lambda>_. Return (Inr NotUnanswered)))"

definition try_reopen_unanswered ::
  "request_key \<Rightarrow> uuid option \<Rightarrow> request_row \<Rightarrow> ('z request_db_scheme, reopened result) prog" where
  "try_reopen_unanswered key ticket_id row =
     (case ticket_id of
        None \<Rightarrow> reopen_update None row
      | Some tid \<Rightarrow>
          prog_bind (query (\<lambda>s. \<exists>r\<in>set (requests s). row_key r = key \<and> rq_status r \<in> set unanswered)) (\<lambda>row_exists.
          if \<not> row_exists then Return (Inr NotUnanswered)
          else prog_bind (spend_use tid) (\<lambda>spent. case spent of
                 Inl e \<Rightarrow> if is_InvalidTicket e then Return (Inr Reopen_TicketExhausted) else Return (Inl e)
               | Inr _ \<Rightarrow> reopen_update ticket_id row)))"

datatype advertised = Asked | AlreadyAdvertised | TicketExhausted

text \<open>The insertion, which the primary key of the table may refuse.\<close>

definition insert_request :: "request_row \<Rightarrow> ('z request_db_scheme, bool) prog" where
  "insert_request row =
     statement (\<lambda>s. if row_key row \<in> row_key ` set (requests s) then (s, False)
       else (s\<lparr> requests := requests s @ [row] \<rparr>, True))"

definition upsert_request :: "new_request \<Rightarrow> ('z request_db_scheme, advertised result) prog" where
  "upsert_request request =
     (let key = new_request_key request; ticket_id = ask_ticket_id (nr_about request);
          row = new_request_row request
      in prog_bind (try_refresh_pending row) (\<lambda>refreshed.
         if refreshed then Return (Inr AlreadyAdvertised)
         else prog_try (try_reopen_unanswered key ticket_id row) (\<lambda>reopened. case reopened of
           Reopened \<Rightarrow> Return (Inr Asked)
         | Reopen_TicketExhausted \<Rightarrow>
             prog_bind (try_refresh_pending row) (\<lambda>refreshed.
               Return (Inr (if refreshed then AlreadyAdvertised else TicketExhausted)))
         | NotUnanswered \<Rightarrow>
             prog_bind (insert_request row) (\<lambda>inserted.
             if inserted then Return (Inr Asked)
             else prog_bind (try_refresh_pending row) (\<lambda>refreshed.
             if refreshed then Return (Inr AlreadyAdvertised)
             else prog_try (try_reopen_unanswered key ticket_id row) (\<lambda>reopened. Return (Inr (case reopened of
                    Reopened \<Rightarrow> Asked
                  | Reopen_TicketExhausted \<Rightarrow> TicketExhausted
                  | NotUnanswered \<Rightarrow> AlreadyAdvertised))))))))"

section \<open>Answering and closing\<close>

definition settle_request_internal ::
  "request_row \<Rightarrow> status_transition \<Rightarrow> ('z request_db_scheme, bool result) prog" where
  "settle_request_internal row transition =
     (let keeps_the_spend = (st_to transition = Req_Approved)
      in prog_bind (transition_apply
             (\<lambda>r. row_key r = (rq_session_id row, rq_kind row, rq_target row) \<and> rq_started r = rq_started row)
             transition) (\<lambda>moved.
         case rq_ticket_id row of
           Some ticket_id \<Rightarrow>
             if 0 < moved \<and> \<not> keeps_the_spend
             then prog_bind (refund_use ticket_id) (\<lambda>_. Return (Inr (0 < moved)))
             else Return (Inr (0 < moved))
         | None \<Rightarrow> Return (Inr (0 < moved))))"

definition close_request ::
  "uuid \<Rightarrow> approval_kind \<Rightarrow> string \<Rightarrow> undecided_status \<Rightarrow> ('z request_db_scheme, bool result) prog" where
  "close_request session_id kind target status =
     prog_bind (query (\<lambda>s. (find (\<lambda>r. row_key r = (session_id, kind, target) \<and> rq_status r = Req_Pending) (requests s),
         clock s))) (\<lambda>(row, now).
       case row of
         None \<Rightarrow> Return (Inr False)
       | Some row \<Rightarrow> settle_request_internal row (from_pending now (status_of_undecided status)))"

record approval_actor =
  actor_username :: "string option"
  actor_user_id :: uuid

definition settle_request ::
  "request_row \<Rightarrow> request_status \<Rightarrow> approval_scope option \<Rightarrow> approval_actor \<Rightarrow> ('z request_db_scheme, bool result) prog" where
  "settle_request row status scope resolved_by =
     prog_bind (query clock) (\<lambda>now.
       settle_request_internal row
         (transition_set (\<lambda>r. r\<lparr> rq_resolved_by_user_id := Some (actor_user_id resolved_by) \<rparr>)
           (transition_set (\<lambda>r. r\<lparr> rq_resolved_by_username := actor_username resolved_by \<rparr>)
             (transition_set (\<lambda>r. r\<lparr> rq_scope := scope \<rparr>) (from_pending now status)))))"

definition mark_consumed :: "request_key \<Rightarrow> ('z request_db_scheme, unit result) prog" where
  "mark_consumed which =
     statement (\<lambda>s. (s\<lparr> requests := update_many (\<lambda>r. row_key r = which \<and> rq_consumed_at r = None)
         (\<lambda>r. r\<lparr> rq_consumed_at := Some (clock s) \<rparr>) (requests s) \<rparr>, Inr ()))"

definition abandon_each :: "(request_row \<Rightarrow> bool) \<Rightarrow> ('z request_db_scheme, unit result) prog" where
  "abandon_each which =
     prog_bind (query (\<lambda>s. filter (\<lambda>r. which r \<and> rq_status r = Req_Pending) (requests s))) (\<lambda>pending.
       prog_for pending (\<lambda>row. prog_bind (query clock) (\<lambda>now.
         settle_request_internal row (from_pending now Req_Abandoned))))"

definition abandon_requests_for_session :: "uuid \<Rightarrow> ('z request_db_scheme, unit result) prog" where
  "abandon_requests_for_session session_id = abandon_each (\<lambda>r. rq_session_id r = session_id)"

definition undelivered_user_decision :: "request_row \<Rightarrow> bool" where
  "undelivered_user_decision r \<longleftrightarrow>
     rq_kind r = Approval_User \<and> rq_status r \<in> set decided \<and> rq_consumed_at r = None"

definition undelivered_user_approvals_for_node :: "uuid \<Rightarrow> ('z request_db_scheme, request_row list) prog" where
  "undelivered_user_approvals_for_node node_id =
     query (\<lambda>s. filter (\<lambda>r. undelivered_user_decision r \<and> rq_node_id r = node_id) (requests s))"

definition undelivered_user_approvals_for_session ::
  "uuid \<Rightarrow> uuid \<Rightarrow> ('z request_db_scheme, request_row list) prog" where
  "undelivered_user_approvals_for_session node_id session_id =
     query (\<lambda>s. filter (\<lambda>r. undelivered_user_decision r \<and> rq_node_id r = node_id \<and> rq_session_id r = session_id)
       (requests s))"

definition abandon_all_requested_before :: "timestamp \<Rightarrow> ('z request_db_scheme, unit result) prog" where
  "abandon_all_requested_before cutoff = abandon_each (\<lambda>r. rq_started r < cutoff)"

definition delete_all_before :: "timestamp \<Rightarrow> ('z request_db_scheme, unit result) prog" where
  "delete_all_before cutoff =
     statement (\<lambda>s. (s\<lparr> requests := delete_many (\<lambda>r. rq_started r < cutoff
         \<and> (rq_status r \<in> set unanswered \<or> rq_consumed_at r \<noteq> None)) (requests s) \<rparr>, Inr ()))"

section \<open>What every statement keeps\<close>

text \<open>
  A decision, once written, stays as it is: the row keeps its columns, save for the mark that
  the session has taken note, which is set once. Only the deletion of old rows removes it.
\<close>

definition keeps_decisions :: "timestamp \<Rightarrow> 'z request_db_scheme \<Rightarrow> 'z request_db_scheme \<Rightarrow> bool" where
  "keeps_decisions floor_at s s' \<longleftrightarrow>
     (\<forall>r\<in>set (requests s). rq_status r \<in> set decided \<and> floor_at \<le> rq_started r \<longrightarrow>
        (\<exists>c. r\<lparr> rq_consumed_at := c \<rparr> \<in> set (requests s') \<and> (rq_consumed_at r \<noteq> None \<longrightarrow> c = rq_consumed_at r)))"

definition keeps_keys :: "'z request_db_scheme \<Rightarrow> 'z request_db_scheme \<Rightarrow> bool" where
  "keeps_keys s s' \<longleftrightarrow> (unique_keys row_key (requests s) \<longrightarrow> unique_keys row_key (requests s'))"

definition request_guarantee :: "timestamp \<Rightarrow> 'z request_db_scheme \<Rightarrow> 'z request_db_scheme \<Rightarrow> bool" where
  "request_guarantee floor_at s s' \<longleftrightarrow> keeps_decisions floor_at s s' \<and> keeps_keys s s'"

lemma keeps_decisions_refl: "keeps_decisions floor_at s s"
  unfolding keeps_decisions_def
proof (intro ballI impI)
  fix r assume "r \<in> set (requests s)"
  then show "\<exists>c. r\<lparr> rq_consumed_at := c \<rparr> \<in> set (requests s) \<and> (rq_consumed_at r \<noteq> None \<longrightarrow> c = rq_consumed_at r)"
    by (intro exI [of _ "rq_consumed_at r"]) simp
qed

lemma keeps_decisions_trans:
  assumes "keeps_decisions floor_at s t" and "keeps_decisions floor_at t u"
  shows "keeps_decisions floor_at s u"
  unfolding keeps_decisions_def
proof (intro ballI impI)
  fix r assume r: "r \<in> set (requests s)" "rq_status r \<in> set decided \<and> floor_at \<le> rq_started r"
  then obtain c where c: "r\<lparr> rq_consumed_at := c \<rparr> \<in> set (requests t)" "rq_consumed_at r \<noteq> None \<longrightarrow> c = rq_consumed_at r"
    using assms(1) unfolding keeps_decisions_def by metis
  with r obtain d where "r\<lparr> rq_consumed_at := c \<rparr>\<lparr> rq_consumed_at := d \<rparr> \<in> set (requests u)" "c \<noteq> None \<longrightarrow> d = c"
    using assms(2) unfolding keeps_decisions_def by (metis request_row.select_convs(12,13,18) request_row.surjective request_row.update_convs(18))
  with c show "\<exists>c. r\<lparr> rq_consumed_at := c \<rparr> \<in> set (requests u) \<and> (rq_consumed_at r \<noteq> None \<longrightarrow> c = rq_consumed_at r)"
    by (intro exI [of _ d]) auto
qed

interpretation request_rows: guarantee "request_guarantee floor_at :: 'z request_db_scheme \<Rightarrow> _" for floor_at
  by unfold_locales
    (auto simp: request_guarantee_def keeps_keys_def keeps_decisions_refl intro: keeps_decisions_trans)

lemma guarantee_same_requests [simp]: "requests s' = requests s \<Longrightarrow> request_guarantee floor_at s s'"
  using keeps_decisions_refl [of floor_at s] by (simp add: request_guarantee_def keeps_decisions_def keeps_keys_def)

lemma guarantee_update:
  assumes "\<And>r. P r \<Longrightarrow> row_key (f r) = row_key r"
    and "\<And>r. P r \<Longrightarrow> rq_status r \<in> set decided \<Longrightarrow>
      \<exists>c. f r = r\<lparr> rq_consumed_at := c \<rparr> \<and> (rq_consumed_at r \<noteq> None \<longrightarrow> c = rq_consumed_at r)"
  shows "request_guarantee floor_at s (s\<lparr> requests := update_many P f (requests s) \<rparr>)"
proof -
  have "map row_key (update_many P f (requests s)) = map row_key (requests s)"
    using assms(1) by (simp add: update_many_def)
  moreover have "\<exists>c. r\<lparr> rq_consumed_at := c \<rparr> \<in> set (update_many P f (requests s))
      \<and> (rq_consumed_at r \<noteq> None \<longrightarrow> c = rq_consumed_at r)"
    if r: "r \<in> set (requests s)" "rq_status r \<in> set decided" for r
  proof (cases "P r")
    case True
    with assms(2) r(2) obtain c where c: "f r = r\<lparr> rq_consumed_at := c \<rparr>" "rq_consumed_at r \<noteq> None \<longrightarrow> c = rq_consumed_at r"
      by blast
    have "f r \<in> set (update_many P f (requests s))"
      unfolding set_update_many using r(1) True by (metis (mono_tags, lifting) image_eqI)
    with c show ?thesis by (intro exI [of _ c]) simp
  next
    case False
    then have "r \<in> set (update_many P f (requests s))"
      unfolding set_update_many using r(1) by (metis (mono_tags, lifting) image_eqI)
    then show ?thesis by (intro exI [of _ "rq_consumed_at r"]) simp
  qed
  ultimately show ?thesis
    by (simp add: request_guarantee_def keeps_decisions_def keeps_keys_def unique_keys_def)
qed

lemma guarantee_update_undecided:
  assumes "\<And>r. P r \<Longrightarrow> row_key (f r) = row_key r" and "\<And>r. P r \<Longrightarrow> rq_status r \<notin> set decided"
  shows "request_guarantee floor_at s (s\<lparr> requests := update_many P f (requests s) \<rparr>)"
  using assms by (intro guarantee_update) auto

lemma statuses: "rq_status r = Req_Pending \<Longrightarrow> rq_status r \<notin> set decided"
  "rq_status r \<in> set unanswered \<Longrightarrow> rq_status r \<notin> set decided"
  by (auto simp: decided_def unanswered_def)

lemma new_request_row_key [simp]: "row_key (new_request_row request) = new_request_key request"
  by (simp add: row_key_def new_request_row_def new_request_key_def split: request_ask.split)

lemma obeys_spend_use: "obeys (request_guarantee floor_at) (spend_use tid)"
  unfolding spend_use_def spend_update_def
  by (intro obeys_rules request_rows.obeys_query) (simp add: Let_def)

lemma obeys_refund_use: "obeys (request_guarantee floor_at) (refund_use tid)"
  unfolding refund_use_def by (intro obeys_statement) simp

lemma fold_columns_key:
  "(\<And>f r. f \<in> set fs \<Longrightarrow> row_key (f r) = row_key r) \<Longrightarrow> row_key (fold (\<lambda>f. f) fs r) = row_key r"
  by (induction fs arbitrary: r) auto

definition pending_transition :: "status_transition \<Rightarrow> bool" where
  "pending_transition t \<longleftrightarrow> (\<forall>r. st_from t r \<longrightarrow> rq_status r = Req_Pending)
     \<and> (\<forall>f\<in>set (st_columns t). \<forall>r. row_key (f r) = row_key r)"

lemma pending_transition_from_pending [simp]: "pending_transition (from_pending now to)"
  by (simp add: pending_transition_def from_pending_def row_key_def)

lemma pending_transition_set [simp]:
  "pending_transition t \<Longrightarrow> (\<And>r. row_key (f r) = row_key r) \<Longrightarrow> pending_transition (transition_set f t)"
  by (auto simp: pending_transition_def transition_set_def)

lemma obeys_transition:
  assumes "pending_transition t"
  shows "obeys (request_guarantee floor_at) (transition_apply which t)"
proof -
  have "row_key (fold (\<lambda>f. f) (st_columns t) (r\<lparr> rq_status := x \<rparr>)) = row_key r" for r x
    using assms by (subst fold_columns_key) (auto simp: pending_transition_def row_key_def)
  moreover have "rq_status r \<notin> set decided" if "st_from t r" for r
    using that assms by (auto simp: pending_transition_def decided_def)
  ultimately show ?thesis
    unfolding transition_apply_def Let_def
    by (intro obeys_statement, unfold fst_conv, intro guarantee_update_undecided) simp_all
qed

lemma obeys_settle_internal:
  "pending_transition t \<Longrightarrow> obeys (request_guarantee floor_at) (settle_request_internal row t)"
  unfolding settle_request_internal_def Let_def
  by (intro obeys_rules obeys_transition obeys_refund_use)

lemma obeys_refresh: "obeys (request_guarantee floor_at) (try_refresh_pending row)"
  unfolding try_refresh_pending_def Let_def
  by (intro obeys_statement, unfold fst_conv, intro guarantee_update_undecided) (simp_all add: row_key_def decided_def)

lemma obeys_reopen_update: "obeys (request_guarantee floor_at) (reopen_update ticket_id row)"
proof -
  have "request_guarantee floor_at s (s\<lparr> requests := update_many (\<lambda>r. row_key r = row_key row \<and> rq_status r \<in> set unanswered)
      (\<lambda>r. row\<lparr> rq_status := Req_Pending, rq_scope := None, rq_resolved_by_username := None,
         rq_resolved_by_user_id := None, rq_resolved_at := None, rq_consumed_at := None \<rparr>) (requests s) \<rparr>)" for s
    by (intro guarantee_update_undecided) (auto simp: row_key_def statuses)
  then show ?thesis
    unfolding reopen_update_def Let_def by (intro obeys_rules obeys_refund_use) simp
qed

lemma obeys_reopen: "obeys (request_guarantee floor_at) (try_reopen_unanswered key ticket_id row)"
  unfolding try_reopen_unanswered_def
  by (intro obeys_rules request_rows.obeys_query obeys_reopen_update obeys_spend_use)

lemma obeys_insert: "obeys (request_guarantee floor_at) (insert_request row)"
proof -
  have "request_guarantee floor_at s (s\<lparr> requests := requests s @ [row] \<rparr>)"
    if "row_key row \<notin> row_key ` set (requests s)" for s :: "'z request_db_scheme"
    using that keeps_decisions_refl [of floor_at s]
    by (auto simp: request_guarantee_def keeps_decisions_def keeps_keys_def unique_keys_def)
  then show ?thesis unfolding insert_request_def by (intro obeys_statement) auto
qed

lemma obeys_case_reopened:
  "obeys G p \<Longrightarrow> obeys G q \<Longrightarrow> obeys G r
   \<Longrightarrow> obeys G (case x of Reopened \<Rightarrow> p | NotUnanswered \<Rightarrow> q | Reopen_TicketExhausted \<Rightarrow> r)"
  by (cases x) auto

lemma obeys_upsert: "obeys (request_guarantee floor_at) (upsert_request request)"
  unfolding upsert_request_def Let_def
  by (intro obeys_rules obeys_refresh obeys_reopen obeys_insert obeys_case_reopened)

lemma obeys_close: "obeys (request_guarantee floor_at) (close_request session_id kind target status)"
  unfolding close_request_def
  by (intro obeys_rules request_rows.obeys_query obeys_settle_internal) simp

lemma obeys_settle: "obeys (request_guarantee floor_at) (settle_request row status scope actor)"
  unfolding settle_request_def
  by (intro obeys_bind request_rows.obeys_query obeys_settle_internal pending_transition_set)
    (simp_all add: row_key_def)

lemma obeys_mark_consumed: "obeys (request_guarantee floor_at) (mark_consumed key)"
proof -
  have "request_guarantee floor_at s (s\<lparr> requests := update_many (\<lambda>r. row_key r = key \<and> rq_consumed_at r = None)
      (\<lambda>r. r\<lparr> rq_consumed_at := Some (clock s) \<rparr>) (requests s) \<rparr>)" for s :: "'z request_db_scheme"
    by (intro guarantee_update) (auto simp: row_key_def)
  then show ?thesis unfolding mark_consumed_def by (intro obeys_statement) simp
qed

lemma obeys_abandon_each: "obeys (request_guarantee floor_at) (abandon_each which)"
  unfolding abandon_each_def
  by (intro obeys_bind obeys_for request_rows.obeys_query obeys_settle_internal) simp

lemma obeys_delete:
  assumes "cutoff \<le> floor_at"
  shows "obeys (request_guarantee floor_at) (delete_all_before cutoff)"
proof -
  let ?P = "\<lambda>r. rq_started r < cutoff \<and> (rq_status r \<in> set unanswered \<or> rq_consumed_at r \<noteq> None)"
  have "request_guarantee floor_at s (s\<lparr> requests := delete_many ?P (requests s) \<rparr>)" for s :: "'z request_db_scheme"
  proof -
    have "keeps_decisions floor_at s (s\<lparr> requests := delete_many ?P (requests s) \<rparr>)"
      unfolding keeps_decisions_def
    proof (intro ballI impI)
      fix r assume "r \<in> set (requests s)" "rq_status r \<in> set decided \<and> floor_at \<le> rq_started r"
      with assms have "r \<in> set (delete_many ?P (requests s))" by simp
      then show "\<exists>c. r\<lparr> rq_consumed_at := c \<rparr> \<in> set (requests (s\<lparr> requests := delete_many ?P (requests s) \<rparr>))
          \<and> (rq_consumed_at r \<noteq> None \<longrightarrow> c = rq_consumed_at r)"
        by (intro exI [of _ "rq_consumed_at r"]) simp
    qed
    then show ?thesis
      by (auto simp: request_guarantee_def keeps_keys_def)
  qed
  then show ?thesis unfolding delete_all_before_def by (intro obeys_statement) simp
qed

section \<open>The operations running together\<close>

datatype request_op =
    Op_Upsert new_request
  | Op_Close uuid approval_kind string undecided_status
  | Op_Settle request_row request_status "approval_scope option" approval_actor
  | Op_MarkConsumed request_key
  | Op_AbandonSession uuid
  | Op_AbandonBefore timestamp
  | Op_DeleteBefore timestamp
  | Op_Spend uuid
  | Op_Refund uuid

definition forget :: "('s, 'a) prog \<Rightarrow> ('s, unit) prog" where
  "forget p = prog_bind p (\<lambda>_. Return ())"

fun request_program :: "request_op \<Rightarrow> (request_db, unit) prog" where
  "request_program (Op_Upsert request) = forget (upsert_request request)"
| "request_program (Op_Close session_id kind target status) = forget (close_request session_id kind target status)"
| "request_program (Op_Settle row status scope actor) = forget (settle_request row status scope actor)"
| "request_program (Op_MarkConsumed key) = forget (mark_consumed key)"
| "request_program (Op_AbandonSession session_id) = forget (abandon_requests_for_session session_id)"
| "request_program (Op_AbandonBefore cutoff) = forget (abandon_all_requested_before cutoff)"
| "request_program (Op_DeleteBefore cutoff) = forget (delete_all_before cutoff)"
| "request_program (Op_Spend ticket_id) = forget (spend_use ticket_id)"
| "request_program (Op_Refund ticket_id) = forget (refund_use ticket_id)"

lemma obeys_request_program:
  assumes "\<And>cutoff. op = Op_DeleteBefore cutoff \<Longrightarrow> cutoff \<le> floor_at"
  shows "obeys (request_guarantee floor_at) (request_program op)"
  using assms
  by (cases op) (simp_all add: forget_def abandon_requests_for_session_def abandon_all_requested_before_def
      obeys_bind obeys_upsert obeys_close obeys_settle obeys_mark_consumed obeys_abandon_each obeys_delete
      obeys_spend_use obeys_refund_use)

section \<open>The uses that pay for requests\<close>

definition pending_for :: "uuid \<Rightarrow> 'z request_db_scheme \<Rightarrow> nat" where
  "pending_for t s = length (filter (\<lambda>r. rq_status r = Req_Pending \<and> rq_ticket_id r = Some t) (requests s))"

text \<open>A transition that ends a request: out of the pending status, touching neither key nor ticket.\<close>

definition ending :: "status_transition \<Rightarrow> bool" where
  "ending t \<longleftrightarrow> st_to t \<noteq> Req_Pending \<and> st_from t = (\<lambda>r. rq_status r = Req_Pending)
     \<and> (\<forall>f\<in>set (st_columns t). \<forall>r. row_key (f r) = row_key r \<and> rq_status (f r) = rq_status r)"

lemma ending_from_pending [simp]: "ending (from_pending now to) \<longleftrightarrow> to \<noteq> Req_Pending"
  by (simp add: ending_def from_pending_def row_key_def)

lemma st_to_from_pending [simp]: "st_to (from_pending now to) = to"
  by (simp add: from_pending_def)

lemma ending_set [simp]:
  "ending t \<Longrightarrow> (\<And>r. row_key (f r) = row_key r \<and> rq_status (f r) = rq_status r) \<Longrightarrow> ending (transition_set f t)"
  by (auto simp: ending_def transition_set_def)

lemma fold_columns_status:
  "(\<And>f r. f \<in> set fs \<Longrightarrow> rq_status (f r) = rq_status r) \<Longrightarrow> rq_status (fold (\<lambda>f. f) fs r) = rq_status r"
  by (induction fs arbitrary: r) auto

lemma limited_same_tickets [simp]: "limited t v (s\<lparr> requests := rs \<rparr>) \<longleftrightarrow> limited t v s"
  by (simp add: limited_def)

lemma run_refund:
  assumes "limited t v s"
  shows "\<exists>s'. run (refund_use tid) s = (s', Inr ()) \<and> requests s' = requests s
    \<and> limited t (if tid = t then v + 1 else v) s'"
proof -
  obtain row where unique: "unique_keys tk_id (tickets s)" and row: "find_by tk_id t (tickets s) = Some row"
    and uses: "tk_uses_left row = Some v"
    using assms by (auto simp: limited_def)
  have id: "tk_id row = t" using find_by_SomeD [OF row] by simp
  let ?P = "\<lambda>x. tk_id x = tid \<and> tk_uses_left x \<noteq> None"
  have "find_by tk_id t (update_many ?P add_use (tickets s)) = Some (if ?P row then add_use row else row)"
    by (simp add: refunding.find_update row)
  then show ?thesis
    using unique id uses by (auto simp: refund_use_def limited_def refunding.unique_update add_use_def)
qed

lemma run_settle_pending:
  assumes unique: "unique_keys row_key (requests s)" and row: "row \<in> set (requests s)" "rq_status row = Req_Pending"
    and tr: "ending tr" and uses: "limited t v s"
  shows "\<exists>s' xs row' ys. run (settle_request_internal row tr) s = (s', Inr True)
    \<and> requests s = xs @ row # ys \<and> requests s' = xs @ row' # ys
    \<and> row_key row' = row_key row \<and> rq_status row' = st_to tr
    \<and> limited t (if st_to tr \<noteq> Req_Approved \<and> rq_ticket_id row = Some t then v + 1 else v) s'"
proof -
  let ?f = "\<lambda>r. fold (\<lambda>c. c) (st_columns tr) (r\<lparr> rq_status := st_to tr \<rparr>)"
  let ?hit = "\<lambda>r. (row_key r = row_key row \<and> rq_started r = rq_started row) \<and> st_from tr r"
  have "?hit row" and "\<And>r. ?hit r \<Longrightarrow> row_key r = row_key row"
    using tr row(2) by (simp_all add: ending_def)
  from update_one_split [where P = ?hit and f = ?f, OF unique row(1) this] obtain xs ys where
    split: "requests s = xs @ row # ys" "update_many ?hit ?f (requests s) = xs @ ?f row # ys"
      "rows_affected ?hit (requests s) = 1" by blast
  define s1 where "s1 = s\<lparr> requests := xs @ ?f row # ys \<rparr>"
  have moved: "run (transition_apply (\<lambda>r. row_key r = row_key row \<and> rq_started r = rq_started row) tr) s = (s1, 1)"
    using split by (simp add: transition_apply_def Let_def s1_def)
  have facts: "row_key (?f row) = row_key row" "rq_status (?f row) = st_to tr"
    using tr by (simp_all add: ending_def fold_columns_key fold_columns_status) (simp add: row_key_def)
  have uses1: "limited t v s1" using uses by (simp add: s1_def)
  have "\<exists>s'. run (settle_request_internal row tr) s = (s', Inr True) \<and> requests s' = requests s1
      \<and> limited t (if st_to tr \<noteq> Req_Approved \<and> rq_ticket_id row = Some t then v + 1 else v) s'"
  proof (cases "rq_ticket_id row")
    case None
    with moved uses1 show ?thesis
      by (intro exI [of _ s1]) (simp add: settle_request_internal_def Let_def run_bind row_key_def)
  next
    case (Some tid)
    obtain s2 where "run (refund_use tid) s1 = (s2, Inr ())" "requests s2 = requests s1"
      "limited t (if tid = t then v + 1 else v) s2"
      using run_refund [OF uses1] by blast
    with Some moved uses1 show ?thesis
      by (cases "st_to tr = Req_Approved") (simp_all add: settle_request_internal_def Let_def run_bind row_key_def)
  qed
  then obtain s' where s': "run (settle_request_internal row tr) s = (s', Inr True)" "requests s' = requests s1"
    "limited t (if st_to tr \<noteq> Req_Approved \<and> rq_ticket_id row = Some t then v + 1 else v) s'" by blast
  show ?thesis
    by (rule exI [of _ s'], rule exI [of _ xs], rule exI [of _ "?f row"], rule exI [of _ ys])
      (use s' split(1) facts in \<open>simp add: s1_def\<close>)
qed

text \<open>Ending a request other than by approval gives back the use that paid for it.\<close>

lemma settle_balance:
  assumes "unique_keys row_key (requests s)" and "row \<in> set (requests s)" and "rq_status row = Req_Pending"
    and "ending tr" and "limited t v s"
  shows "\<exists>s' v'. run (settle_request_internal row tr) s = (s', Inr True)
    \<and> unique_keys row_key (requests s') \<and> limited t v' s'
    \<and> v' + int (pending_for t s') =
        v + int (pending_for t s) - (if st_to tr = Req_Approved \<and> rq_ticket_id row = Some t then 1 else 0)
    \<and> set (requests s) - {row} \<subseteq> set (requests s')"
proof -
  obtain s' xs row' ys where run: "run (settle_request_internal row tr) s = (s', Inr True)"
    and rows: "requests s = xs @ row # ys" "requests s' = xs @ row' # ys"
    and row': "row_key row' = row_key row" "rq_status row' = st_to tr"
    and uses: "limited t (if st_to tr \<noteq> Req_Approved \<and> rq_ticket_id row = Some t then v + 1 else v) s'"
    using run_settle_pending [OF assms] by blast
  have "map row_key (requests s') = map row_key (requests s)" by (simp add: rows row')
  then have "unique_keys row_key (requests s')" using assms(1) by (simp add: unique_keys_def)
  moreover have "rq_status row' \<noteq> Req_Pending" using row'(2) assms(4) by (simp add: ending_def)
  then have "int (pending_for t s) = int (pending_for t s') + (if rq_ticket_id row = Some t then 1 else 0)"
    using assms(3) by (simp add: pending_for_def rows)
  ultimately show ?thesis
    using run uses rows by (intro exI [of _ s'] exI conjI) auto
qed

lemma abandon_loop_balance:
  assumes "unique_keys row_key (requests s)" and "limited t v s" and "distinct (map row_key rows)"
    and "\<forall>row\<in>set rows. row \<in> set (requests s) \<and> rq_status row = Req_Pending"
  shows "\<exists>s' v'. run (prog_for rows (\<lambda>row. prog_bind (query clock) (\<lambda>now.
        settle_request_internal row (from_pending now Req_Abandoned)))) s = (s', Inr ())
    \<and> limited t v' s' \<and> v' + int (pending_for t s') = v + int (pending_for t s)"
  using assms
proof (induction rows arbitrary: s v)
  case Nil
  then show ?case by auto
next
  case (Cons row rows)
  obtain s1 v1 where one: "run (settle_request_internal row (from_pending (clock s) Req_Abandoned)) s = (s1, Inr True)"
    "unique_keys row_key (requests s1)" "limited t v1 s1" "v1 + int (pending_for t s1) = v + int (pending_for t s)"
    "set (requests s) - {row} \<subseteq> set (requests s1)"
    using settle_balance [of s row "from_pending (clock s) Req_Abandoned" t v] Cons.prems
    by auto
  have "\<forall>r\<in>set rows. r \<in> set (requests s1) \<and> rq_status r = Req_Pending"
    using Cons.prems(3,4) one(5) by auto
  with Cons.IH [OF one(2,3)] Cons.prems(3) one(1,4) show ?case
    by (auto simp: run_try run_bind)
qed

section \<open>Properties\<close>

text \<open>
  C6: a decision is final. However the operations on approval requests, on behalf of any
  number of sessions, nodes and administrators, interleave, the row of a decided request
  keeps its decision, who made it and everything else; at most it gets, once, the mark
  that the session has taken note. Only a deletion with a later cutoff can remove it.
\<close>

theorem decisions_are_final:
  assumes "interleave (map request_program ops, s) (ps, s')" and "unique_keys row_key (requests s)"
    and "find_by row_key key (requests s) = Some r" and "rq_status r \<in> set decided"
    and "\<forall>cutoff. Op_DeleteBefore cutoff \<in> set ops \<longrightarrow> cutoff \<le> rq_started r"
  shows "\<exists>c. find_by row_key key (requests s') = Some (r\<lparr> rq_consumed_at := c \<rparr>)
    \<and> (rq_consumed_at r \<noteq> None \<longrightarrow> c = rq_consumed_at r)"
proof -
  have "\<forall>p\<in>set (map request_program ops). obeys (request_guarantee (rq_started r)) p"
    using assms(5) by (auto intro: obeys_request_program)
  from request_rows.interleave_obeys [OF assms(1) this]
  have kept: "keeps_decisions (rq_started r) s s'" and unique: "unique_keys row_key (requests s')"
    using assms(2) by (auto simp: request_guarantee_def keeps_keys_def)
  have r: "r \<in> set (requests s)" "row_key r = key" using find_by_SomeD [OF assms(3)] by simp_all
  then obtain c where c: "r\<lparr> rq_consumed_at := c \<rparr> \<in> set (requests s')" "rq_consumed_at r \<noteq> None \<longrightarrow> c = rq_consumed_at r"
    using kept assms(4) unfolding keeps_decisions_def by blast
  moreover have "row_key (r\<lparr> rq_consumed_at := c \<rparr>) = key" using r(2) by (simp add: row_key_def)
  ultimately show ?thesis using find_by_unique [OF unique c(1)] by auto
qed

text \<open>
  Withdrawing or timing out requests, one or all of a session or all older than a cutoff,
  gives back exactly the uses of the tickets that paid for them: the uses a ticket has left
  and the pending requests it pays for always add up to the same number.
\<close>

theorem ended_requests_give_back:
  assumes "unique_keys row_key (requests s)" and "limited t v s"
    and "op \<in> {Op_Close session_id kind target status, Op_AbandonSession session_id, Op_AbandonBefore cutoff}"
    and "run (request_program op) s = (s', u)"
  shows "\<exists>v'. limited t v' s' \<and> v' + int (pending_for t s') = v + int (pending_for t s)"
proof -
  have abandon: "\<exists>v'. limited t v' (fst (run (abandon_each which) s))
      \<and> v' + int (pending_for t (fst (run (abandon_each which) s))) = v + int (pending_for t s)" for which
  proof -
    let ?rows = "filter (\<lambda>r. which r \<and> rq_status r = Req_Pending) (requests s)"
    have "distinct (map row_key ?rows)" using assms(1) by (simp add: unique_keys_def distinct_map_filter)
    from abandon_loop_balance [OF assms(1,2) this] show ?thesis
      by (auto simp: abandon_each_def run_bind)
  qed
  have close: "\<exists>v'. limited t v' (fst (run (close_request session_id kind target status) s))
      \<and> v' + int (pending_for t (fst (run (close_request session_id kind target status) s))) = v + int (pending_for t s)"
  proof (cases "find (\<lambda>r. row_key r = (session_id, kind, target) \<and> rq_status r = Req_Pending) (requests s)")
    case None
    with assms(2) show ?thesis by (auto simp: close_request_def run_bind)
  next
    case (Some row)
    then have "row \<in> set (requests s)" "rq_status row = Req_Pending" by (auto simp: find_Some_iff)
    moreover have "status_of_undecided status \<noteq> Req_Pending" "status_of_undecided status \<noteq> Req_Approved"
      by (cases status; simp)+
    ultimately show ?thesis
      using settle_balance [OF assms(1) _ _ _ assms(2), of row "from_pending (clock s) (status_of_undecided status)"] Some
      by (auto simp: close_request_def run_bind)
  qed
  show ?thesis
    using assms(3,4) abandon close
    by (auto simp: forget_def run_bind abandon_requests_for_session_def abandon_all_requested_before_def
        split: prod.splits) (metis fst_conv)+
qed

section \<open>A concrete request\<close>

definition sample_new_request :: new_request where
  "sample_new_request = \<lparr> nr_session_id = 5, nr_target = ''host'', nr_node_id = 1, nr_protocol = ''SSH'',
     nr_username = ''alice'', nr_user_id = 7, nr_remote_address = None, nr_match_digest = Some ''d'',
     nr_started = 3, nr_about = Ask_Admin (Some 60) \<rparr>"

definition sample_request :: request_row where
  "sample_request = new_request_row sample_new_request"

definition sample_request_db :: "request_row \<Rightarrow> request_db" where
  "sample_request_db r = \<lparr> clock = 10, tickets = [sample_ticket\<lparr> tk_uses_left := Some 0 \<rparr>], requests = [r] \<rparr>"

definition sample_actor :: approval_actor where
  "sample_actor = \<lparr> actor_username = Some ''root'', actor_user_id = 9 \<rparr>"

lemma sample_request_facts:
  "row_key sample_request = (5, Approval_Admin, ''host'')" "rq_status sample_request = Req_Pending"
  "rq_started sample_request = 3" "rq_consumed_at sample_request = None" "rq_ticket_id sample_request = Some 60"
  by (simp_all add: sample_request_def new_request_row_def sample_new_request_def row_key_def)

text \<open>A rejection after the approval was recorded changes nothing.\<close>

theorem decisions_are_final_witness:
  "\<exists>s' c. interleave (map request_program [Op_Settle sample_request Req_Rejected None sample_actor],
        sample_request_db (sample_request\<lparr> rq_status := Req_Approved \<rparr>)) ([Return ()], s')
     \<and> find_by row_key (5, Approval_Admin, ''host'') (requests s')
         = Some (sample_request\<lparr> rq_status := Req_Approved, rq_consumed_at := c \<rparr>)"
proof -
  let ?ops = "[Op_Settle sample_request Req_Rejected None sample_actor]"
  let ?s = "sample_request_db (sample_request\<lparr> rq_status := Req_Approved \<rparr>)"
  have key: "row_key (sample_request\<lparr> rq_status := Req_Approved \<rparr>) = (5, Approval_Admin, ''host'')"
    using sample_request_facts(1) by (simp add: row_key_def)
  obtain s' where run: "run (request_program (hd ?ops)) ?s = (s', ())" by (metis old.unit.exhaust surj_pair)
  have race: "interleave (map request_program ?ops, ?s) ([Return ()], s')"
    using interleave_run [OF interleave.stay run] by simp
  show ?thesis
    using decisions_are_final [OF race, of "(5, Approval_Admin, ''host'')" "sample_request\<lparr> rq_status := Req_Approved \<rparr>"]
      race key by (auto simp: sample_request_db_def unique_keys_def decided_def)
qed

theorem ended_requests_give_back_witness:
  "\<exists>s' v'. run (request_program (Op_Close 5 Approval_Admin ''host'' Undecided_TimedOut)) (sample_request_db sample_request)
      = (s', ()) \<and> limited 60 v' s' \<and> v' + int (pending_for 60 s') = 1"
proof -
  have s: "unique_keys row_key (requests (sample_request_db sample_request))"
    "limited 60 0 (sample_request_db sample_request)" "pending_for 60 (sample_request_db sample_request) = 1"
    by (simp_all add: sample_request_db_def unique_keys_def limited_def sample_ticket_def pending_for_def
        sample_request_facts)
  obtain s' where run: "run (request_program (Op_Close 5 Approval_Admin ''host'' Undecided_TimedOut))
      (sample_request_db sample_request) = (s', ())" by (metis old.unit.exhaust surj_pair)
  show ?thesis
    using ended_requests_give_back [OF s(1,2) _ run, of 5 Approval_Admin "''host''" Undecided_TimedOut 0] run s(3)
    by auto
qed

end
