(* ===== verification/Approvals.thy ===== *)
theory Approvals
  imports Approval_Requests
begin

text \<open>
  Approvals by administrators and by the users themselves
  (\<open>warpgate-core/src/approvals\<close>): announcing a request, waiting for its decision, remembering
  decisions, and delivering a user's decision to the login attempt that asked for it. The
  state is that of one node: the shared tables, the settings, the store of login attempts,
  and what was audited and announced to the cluster.
\<close>

section \<open>Settings and state\<close>

datatype approval_event =
    SessionApprovalRequested uuid
  | SessionApprovalTimedOut uuid
  | AdminApprovalBypassed uuid
  | SessionApprovalResolved uuid "string option" bool

datatype cluster_notification = SessionApprovalsChanged | WebAuthRequested uuid uuid

record node_db = request_db +
  web_approval_grace_period_seconds :: "int option"
  admin_approval_timeout_seconds :: "int option"
  admin_approval_grace_period_seconds :: "int option"
  node_store :: auth_state_store
  node_audit :: "approval_event list"
  node_notified :: "cluster_notification list"

definition i64_seconds_to_duration :: "int \<Rightarrow> int option" where
  "i64_seconds_to_duration v = (if v < 0 then None else Some (seconds v))"

text \<open>\<open>time::Duration::seconds(d.as_secs() as i64)\<close>: a duration cut to whole seconds.\<close>

definition whole_seconds :: "int \<Rightarrow> int" where
  "whole_seconds d = seconds (d div seconds 1)"

definition web_approval_grace_period :: "(node_db, int option) prog" where
  "web_approval_grace_period =
     query (\<lambda>s. Option.bind (web_approval_grace_period_seconds s) i64_seconds_to_duration)"

definition admin_approval_timeout :: "(node_db, int) prog" where
  "admin_approval_timeout =
     query (\<lambda>s. case Option.bind (admin_approval_timeout_seconds s) i64_seconds_to_duration of
       Some d \<Rightarrow> d | None \<Rightarrow> auth_timeout)"

definition admin_approval_grace_period :: "(node_db, int option) prog" where
  "admin_approval_grace_period =
     query (\<lambda>s. Option.bind (admin_approval_grace_period_seconds s) i64_seconds_to_duration)"

definition request_lifetime :: "(node_db, int) prog" where
  "request_lifetime = prog_bind admin_approval_timeout (\<lambda>timeout. Return (max timeout auth_timeout))"

definition reap_stale :: "(node_db, unit result) prog" where
  "reap_stale =
     prog_bind request_lifetime (\<lambda>lifetime.
     prog_bind (query clock) (\<lambda>now.
       abandon_all_requested_before (now - whole_seconds lifetime)))"

definition emit :: "approval_event \<Rightarrow> (node_db, unit) prog" where
  "emit event = statement (\<lambda>s. (s\<lparr> node_audit := node_audit s @ [event] \<rparr>, ()))"

definition notify_global :: "cluster_notification \<Rightarrow> (node_db, unit) prog" where
  "notify_global notification =
     statement (\<lambda>s. (s\<lparr> node_notified := node_notified s @ [notification] \<rparr>, ()))"

section \<open>Remembered approvals\<close>

datatype approval_decision = Decision_Approved approval_scope | Decision_Rejected

definition scope_matches :: "web_approval_key \<Rightarrow> request_row \<Rightarrow> bool" where
  "scope_matches key row =
     (let asked_target = (case mk_scope key of Scope_Key_Target name \<Rightarrow> name | Untargeted \<Rightarrow> [])
      in rq_scope row = Some Scope_Target \<and> rq_target row = asked_target \<or> rq_scope row = Some Scope_AllTargets)"

definition approval_is_remembered :: "env \<Rightarrow> web_approval_key \<Rightarrow> int \<Rightarrow> (node_db, bool) prog" where
  "approval_is_remembered E key grace =
     query (\<lambda>s. let cutoff = clock s - whole_seconds grace;
         rows = filter (\<lambda>row. rq_kind row = wi_kind (mk_identity key) \<and> rq_status row = Req_Approved
           \<and> (case rq_resolved_at row of None \<Rightarrow> False | Some t \<Rightarrow> cutoff \<le> t)
           \<and> scope_matches key row) (requests s);
         digest = web_approval_identity_digest E (mk_identity key)
       in list_ex (\<lambda>row. rq_match_digest row = Some digest) rows)"

section \<open>Subjects\<close>

record approval_subject =
  sj_kind :: approval_kind
  sj_session_id :: uuid
  sj_user_info :: auth_state_user_info
  sj_protocol :: protocol
  sj_target_name :: string
  sj_remote_ip :: "ip_addr option"
  sj_remember_by :: remember_approval_by
  sj_ticket_id :: "uuid option"

definition subject_from_auth_state :: "auth_state \<Rightarrow> approval_subject" where
  "subject_from_auth_state state =
     \<lparr> sj_kind = Approval_User, sj_session_id = as_session_id state, sj_user_info = as_user_info state,
       sj_protocol = as_protocol state, sj_target_name = as_target_name state,
       sj_remote_ip = as_remote_ip state, sj_remember_by = remembered_by state, sj_ticket_id = None \<rparr>"

definition subject_match_key :: "env \<Rightarrow> approval_subject \<Rightarrow> web_approval_key option" where
  "subject_match_key E subject =
     Option.bind (sj_remote_ip subject) (\<lambda>ip.
       web_approval_match_key_build E (sj_kind subject) ip (sj_protocol subject)
         (info_username (sj_user_info subject)) (sj_target_name subject) (sj_remember_by subject))"

definition subject_match_digest :: "env \<Rightarrow> approval_subject \<Rightarrow> string option" where
  "subject_match_digest E subject =
     map_option (\<lambda>key. web_approval_identity_digest E (mk_identity key)) (subject_match_key E subject)"

definition emit_requested_event :: "approval_subject \<Rightarrow> (node_db, unit) prog" where
  "emit_requested_event subject = emit (SessionApprovalRequested (sj_session_id subject))"

definition emit_timed_out_event :: "approval_subject \<Rightarrow> (node_db, unit) prog" where
  "emit_timed_out_event subject = emit (SessionApprovalTimedOut (sj_session_id subject))"

definition emit_bypassed_event :: "approval_subject \<Rightarrow> (node_db, unit) prog" where
  "emit_bypassed_event subject = emit (AdminApprovalBypassed (sj_session_id subject))"

section \<open>Waiting for a decision\<close>

record pending_approval =
  pa_session_id :: uuid
  pa_target :: string
  pa_close_as :: "undecided_status option"

definition guarding :: "approval_subject \<Rightarrow> pending_approval" where
  "guarding subject =
     \<lparr> pa_session_id = sj_session_id subject, pa_target = sj_target_name subject,
       pa_close_as = Some Undecided_Abandoned \<rparr>"

definition guard_timed_out :: "pending_approval \<Rightarrow> pending_approval" where
  "guard_timed_out guard = guard\<lparr> pa_close_as := Some Undecided_TimedOut \<rparr>"

definition guard_decided :: "pending_approval \<Rightarrow> pending_approval" where
  "guard_decided guard = guard\<lparr> pa_close_as := None \<rparr>"

text \<open>The task that dropping the guard starts.\<close>

definition pending_approval_drop :: "pending_approval \<Rightarrow> (node_db, unit result) prog" where
  "pending_approval_drop guard =
     (case pa_close_as guard of
        Some status \<Rightarrow>
          prog_try (close_request (pa_session_id guard) Approval_Admin (pa_target guard) status)
            (\<lambda>_. Return (Inr ()))
      | None \<Rightarrow> mark_consumed (pa_session_id guard, Approval_Admin, pa_target guard))"

definition advertise_admin_request ::
  "env \<Rightarrow> uuid \<Rightarrow> approval_subject \<Rightarrow> (node_db, advertised result) prog" where
  "advertise_admin_request E node_id subject =
     prog_bind (query clock) (\<lambda>now.
       upsert_request
         \<lparr> nr_session_id = sj_session_id subject, nr_target = sj_target_name subject, nr_node_id = node_id,
           nr_protocol = protocol_name (sj_protocol subject),
           nr_username = info_username (sj_user_info subject), nr_user_id = info_id (sj_user_info subject),
           nr_remote_address = map_option (show_ip E) (sj_remote_ip subject),
           nr_match_digest = subject_match_digest E subject, nr_started = now,
           nr_about = Ask_Admin (sj_ticket_id subject) \<rparr>)"

definition poll_interval :: int where
  "poll_interval = seconds 1"

datatype decision_wait_outcome = Wait_Decided approval_decision | Wait_Ended | Wait_TimedOut

datatype row_state = Row_Pending | Row_Decided approval_decision | Row_Ended

fun row_state_of :: "request_status \<Rightarrow> approval_scope option \<Rightarrow> row_state" where
  "row_state_of Req_Pending _ = Row_Pending"
| "row_state_of Req_TimedOut _ = Row_Ended"
| "row_state_of Req_Abandoned _ = Row_Ended"
| "row_state_of Req_Rejected _ = Row_Decided Decision_Rejected"
| "row_state_of Req_Approved scope =
     Row_Decided (Decision_Approved (case scope of Some x \<Rightarrow> x | None \<Rightarrow> Scope_Once))"

definition row_state :: "request_row \<Rightarrow> row_state" where
  "row_state row = row_state_of (rq_status row) (rq_scope row)"

definition find_row :: "uuid \<Rightarrow> approval_kind \<Rightarrow> string \<Rightarrow> (node_db, request_row option) prog" where
  "find_row session_id kind target = query (\<lambda>s. find_by row_key (session_id, kind, target) (requests s))"

definition row_decision :: "uuid \<Rightarrow> approval_kind \<Rightarrow> string \<Rightarrow> (node_db, approval_decision option) prog" where
  "row_decision session_id kind target =
     prog_bind (find_row session_id kind target) (\<lambda>row.
       case row of
         None \<Rightarrow> Return None
       | Some row \<Rightarrow> Return (case row_state row of Row_Decided decision \<Rightarrow> Some decision | _ \<Rightarrow> None))"

definition close_timed_out :: "approval_subject \<Rightarrow> (node_db, bool result) prog" where
  "close_timed_out subject =
     prog_try (close_request (sj_session_id subject) Approval_Admin (sj_target_name subject) Undecided_TimedOut)
       (\<lambda>closed. if closed then prog_bind (emit_timed_out_event subject) (\<lambda>_. Return (Inr closed))
                 else Return (Inr closed))"

text \<open>
  The polling loop: one item for each tick before the deadline, which tells whether the
  reading of the row fails. A failed reading does not end the wait.
\<close>

fun await_row_decision ::
  "uuid \<Rightarrow> approval_kind \<Rightarrow> string \<Rightarrow> bool list \<Rightarrow> (node_db, decision_wait_outcome) prog" where
  "await_row_decision session_id kind target [] = Return Wait_TimedOut"
| "await_row_decision session_id kind target (fails # ticks) =
     prog_bind (find_row session_id kind target) (\<lambda>row.
       if fails then await_row_decision session_id kind target ticks
       else case row of
         None \<Rightarrow> Return Wait_Ended
       | Some row \<Rightarrow> (case row_state row of
           Row_Pending \<Rightarrow> await_row_decision session_id kind target ticks
         | Row_Decided decision \<Rightarrow> Return (Wait_Decided decision)
         | Row_Ended \<Rightarrow> Return Wait_Ended))"

definition emit_resolved_event :: "request_row \<Rightarrow> approval_actor \<Rightarrow> bool \<Rightarrow> (node_db, unit) prog" where
  "emit_resolved_event row actor approved =
     emit (SessionApprovalResolved (rq_session_id row) (actor_username actor) approved)"

fun decision_columns :: "approval_decision \<Rightarrow> request_status \<times> approval_scope option" where
  "decision_columns (Decision_Approved scope) = (Req_Approved, Some scope)"
| "decision_columns Decision_Rejected = (Req_Rejected, None)"

definition record_decision ::
  "uuid \<Rightarrow> approval_kind \<Rightarrow> string \<Rightarrow> approval_decision \<Rightarrow> approval_actor \<Rightarrow> (node_db, bool result) prog" where
  "record_decision session_id kind target decision actor =
     (let (status, scope) = decision_columns decision
      in prog_bind (find_row session_id kind target) (\<lambda>row.
         case (case row of Some row \<Rightarrow> if rq_status row = Req_Pending then Some row else None | None \<Rightarrow> None) of
           None \<Rightarrow> Return (Inr False)
         | Some row \<Rightarrow>
             prog_try (settle_request row status scope actor) (\<lambda>recorded.
               if recorded
               then prog_bind (emit_resolved_event row actor (status = Req_Approved)) (\<lambda>_. Return (Inr recorded))
               else Return (Inr recorded))))"

section \<open>The administrator's gate\<close>

datatype 'o gate_outcome = Gate_Approved "'o target_authorization" | Gate_Refused | Gate_Expired

fun gate_approved :: "'o gate_outcome \<Rightarrow> 'o target_authorization option" where
  "gate_approved (Gate_Approved target) = Some target"
| "gate_approved Gate_Refused = None"
| "gate_approved Gate_Expired = None"

datatype 'o polled_gate = Polled_Approved "'o target_authorization" | Polled_Refused | Polled_Pending

record gated_connection =
  gc_remote_ip :: "ip_addr option"
  gc_credentials :: remember_approval_by

definition subject_for :: "gated_connection \<Rightarrow> uuid \<Rightarrow> 'o target_authorization \<Rightarrow> approval_subject" where
  "subject_for connection session_id authorization =
     \<lparr> sj_kind = Approval_Admin, sj_session_id = session_id, sj_user_info = ta_user_info authorization,
       sj_protocol = ta_protocol authorization, sj_target_name = tgt_name (ta_target authorization),
       sj_remote_ip = gc_remote_ip connection, sj_remember_by = gc_credentials connection,
       sj_ticket_id = ta_ticket_id authorization \<rparr>"

definition admin_approval_is_remembered :: "env \<Rightarrow> approval_subject \<Rightarrow> (node_db, bool) prog" where
  "admin_approval_is_remembered E subject =
     (case subject_match_key E subject of
        None \<Rightarrow> Return False
      | Some key \<Rightarrow>
          prog_bind admin_approval_grace_period (\<lambda>grace.
            case grace of
              None \<Rightarrow> Return False
            | Some grace \<Rightarrow> approval_is_remembered E key grace))"

definition announce_admin_request ::
  "env \<Rightarrow> uuid \<Rightarrow> approval_subject \<Rightarrow> (node_db, advertised result) prog" where
  "announce_admin_request E node_id subject =
     prog_try (advertise_admin_request E node_id subject) (\<lambda>advertised.
       if advertised = Asked
       then prog_bind (emit_requested_event subject) (\<lambda>_.
            prog_bind (notify_global SessionApprovalsChanged) (\<lambda>_. Return (Inr advertised)))
       else Return (Inr advertised))"

definition gate_of_decision :: "'o target_authorization \<Rightarrow> approval_decision \<Rightarrow> 'o gate_outcome" where
  "gate_of_decision authorization decision =
     (case decision of Decision_Approved _ \<Rightarrow> Gate_Approved authorization | Decision_Rejected \<Rightarrow> Gate_Refused)"

text \<open>
  The wait after the request was announced. The guard is returned as it is when the
  operation ends, since dropping it starts the task \<open>pending_approval_drop\<close>.
\<close>

definition await_admin_decision ::
  "'o target_authorization \<Rightarrow> approval_subject \<Rightarrow> bool list \<Rightarrow> pending_approval
   \<Rightarrow> (node_db, 'o gate_outcome result \<times> pending_approval option) prog" where
  "await_admin_decision authorization subject ticks guard =
     prog_bind admin_approval_timeout (\<lambda>timeout.
     prog_bind (await_row_decision (sj_session_id subject) Approval_Admin (sj_target_name subject)
         (take (Suc (nat (timeout div poll_interval))) ticks)) (\<lambda>outcome.
       case outcome of
         Wait_Decided decision \<Rightarrow> Return (Inr (gate_of_decision authorization decision), Some (guard_decided guard))
       | Wait_TimedOut \<Rightarrow>
           (let guard = guard_timed_out guard
            in prog_bind (close_timed_out subject) (\<lambda>closed. case closed of
                 Inl e \<Rightarrow> Return (Inl e, Some guard)
               | Inr closed \<Rightarrow>
                   if closed then Return (Inr Gate_Expired, Some guard)
                   else prog_bind (row_decision (sj_session_id subject) Approval_Admin (sj_target_name subject)) (\<lambda>found.
                     case found of
                       Some decision \<Rightarrow>
                         Return (Inr (gate_of_decision authorization decision), Some (guard_decided guard))
                     | None \<Rightarrow> Return (Inr Gate_Expired, Some guard))))
       | Wait_Ended \<Rightarrow> Return (Inr Gate_Expired, Some guard)))"

text \<open>
  \<open>Services::require_admin_approval\<close>; \<open>notified\<close> is what the callback \<open>notify_waiting\<close> answers.
\<close>

definition require_admin_approval ::
  "env \<Rightarrow> uuid \<Rightarrow> 'o target_authorization \<Rightarrow> uuid \<Rightarrow> gated_connection \<Rightarrow> unit result \<Rightarrow> bool list
   \<Rightarrow> (node_db, 'o gate_outcome result \<times> pending_approval option) prog" where
  "require_admin_approval E node_id authorization session_id connection notified ticks =
     (let subject = subject_for connection session_id authorization
      in if \<not> tgt_require_approval (ta_target authorization)
         then Return (Inr (Gate_Approved authorization), None)
         else prog_bind (admin_approval_is_remembered E subject) (\<lambda>remembered.
           if remembered
           then prog_bind (emit_bypassed_event subject) (\<lambda>_. Return (Inr (Gate_Approved authorization), None))
           else let guard = guarding subject
             in prog_bind (announce_admin_request E node_id subject) (\<lambda>advertised. case advertised of
                  Inl e \<Rightarrow> Return (Inl e, Some guard)
                | Inr advertised \<Rightarrow>
                    if advertised = TicketExhausted then Return (Inr Gate_Refused, Some guard)
                    else case notified of
                      Inl e \<Rightarrow> Return (Inl e, Some guard)
                    | Inr _ \<Rightarrow> await_admin_decision authorization subject ticks guard)))"

definition ask_again :: "env \<Rightarrow> uuid \<Rightarrow> approval_subject \<Rightarrow> (node_db, 'o polled_gate result) prog" where
  "ask_again E node_id subject =
     prog_try (announce_admin_request E node_id subject) (\<lambda>advertised.
       Return (Inr (if advertised = TicketExhausted then Polled_Refused else Polled_Pending)))"

definition poll_admin_approval ::
  "env \<Rightarrow> uuid \<Rightarrow> 'o target_authorization \<Rightarrow> uuid \<Rightarrow> gated_connection \<Rightarrow> (node_db, 'o polled_gate result) prog" where
  "poll_admin_approval E node_id authorization session_id connection =
     (if \<not> tgt_require_approval (ta_target authorization) then Return (Inr (Polled_Approved authorization))
      else let subject = subject_for connection session_id authorization
      in prog_bind (admin_approval_is_remembered E subject) (\<lambda>remembered.
         if remembered
         then prog_bind (emit_bypassed_event subject) (\<lambda>_. Return (Inr (Polled_Approved authorization)))
         else prog_bind (find_row (sj_session_id subject) Approval_Admin (sj_target_name subject)) (\<lambda>row. case row of
           None \<Rightarrow> ask_again E node_id subject
         | Some row \<Rightarrow> (case row_state row of
             Row_Ended \<Rightarrow> ask_again E node_id subject
           | Row_Pending \<Rightarrow>
               prog_bind admin_approval_timeout (\<lambda>timeout.
               prog_bind (query clock) (\<lambda>now.
                 if whole_seconds timeout \<le> now - rq_started row
                 then prog_try (close_timed_out subject) (\<lambda>_. ask_again E node_id subject)
                 else Return (Inr Polled_Pending)))
           | Row_Decided decision \<Rightarrow>
               prog_try (mark_consumed (sj_session_id subject, Approval_Admin, sj_target_name subject)) (\<lambda>_.
                 Return (Inr (case decision of
                   Decision_Approved _ \<Rightarrow> Polled_Approved authorization
                 | Decision_Rejected \<Rightarrow> Polled_Refused)))))))"

section \<open>The user's own approval\<close>

definition needs_web_approval :: "auth_state \<Rightarrow> bool" where
  "needs_web_approval state =
     (case verify state of Need kinds \<Rightarrow> Kind_WebUserApproval \<in> kinds | _ \<Rightarrow> False)"

text \<open>The attempt behind a handle: what is read or changed while its lock is held.\<close>

definition read_attempt :: "arc \<Rightarrow> (node_db, auth_state option) prog" where
  "read_attempt a = query (\<lambda>s. store_heap (node_store s) a)"

definition change_attempt ::
  "arc \<Rightarrow> (auth_state \<Rightarrow> auth_state option) \<Rightarrow> (node_db, bool) prog" where
  "change_attempt a f =
     statement (\<lambda>s. case Option.bind (store_heap (node_store s) a) f of
       None \<Rightarrow> (s, False)
     | Some state \<Rightarrow> (s\<lparr> node_store := store_modify a state (node_store s) \<rparr>, True))"

definition bypass_attempt :: "env \<Rightarrow> auth_state \<Rightarrow> auth_state option" where
  "bypass_attempt E state =
     (if is_step_up_pending state then None
      else if \<not> needs_web_approval state then None
      else Some (emit_web_approval_bypassed_event (fst (add_web_user_approval_via_grace_bypass E state))))"

definition try_web_approval_bypass :: "env \<Rightarrow> arc \<Rightarrow> (node_db, bool result) prog" where
  "try_web_approval_bypass E state_arc =
     prog_bind web_approval_grace_period (\<lambda>grace. case grace of
       None \<Rightarrow> Return (Inr False)
     | Some grace \<Rightarrow>
         prog_bind (read_attempt state_arc) (\<lambda>state.
         case Option.bind state (web_approval_match_key E) of
           None \<Rightarrow> Return (Inr False)
         | Some key \<Rightarrow>
             prog_bind (approval_is_remembered E key grace) (\<lambda>remembered.
             if \<not> remembered then Return (Inr False)
             else prog_bind (change_attempt state_arc (bypass_attempt E)) (\<lambda>bypassed.
             if \<not> bypassed then Return (Inr False)
             else prog_bind (read_attempt state_arc) (\<lambda>state. case state of
               None \<Rightarrow> Return (Inr True)
             | Some state \<Rightarrow>
                 prog_try (close_request (as_session_id state) Approval_User (as_target_name state) Undecided_Abandoned)
                   (\<lambda>withdrawn.
                      if withdrawn
                      then prog_bind (notify_global (WebAuthRequested (as_session_id state)
                             (info_id (as_user_info state)))) (\<lambda>_. Return (Inr True))
                      else Return (Inr True)))))))"

text \<open>What a decision does to the attempt, if it is the one that was asked about.\<close>

definition apply_decision ::
  "env \<Rightarrow> request_row \<Rightarrow> approval_decision \<Rightarrow> auth_state \<Rightarrow> auth_state option" where
  "apply_decision E row decision state =
     (let subject = subject_from_auth_state state
      in if rq_target row \<noteq> sj_target_name subject \<or> rq_user_id row \<noteq> info_id (sj_user_info subject) then None
         else if \<not> needs_web_approval state then None
         else case decision of
           Decision_Approved _ \<Rightarrow> Some (fst (add_web_user_approval E state))
         | Decision_Rejected \<Rightarrow>
             Some (emit_authentication_failed_event (Some Cred_WebUserApproval) ''approval rejected by user''
               (reject E state)))"

definition deliver_user_decision :: "env \<Rightarrow> request_row \<Rightarrow> (node_db, bool result) prog" where
  "deliver_user_decision E row =
     (case row_state row of
        Row_Decided decision \<Rightarrow>
          (let consumed = mark_consumed (rq_session_id row, Approval_User, rq_target row)
           in prog_bind (query (\<lambda>s. store_get (node_store s) (rq_session_id row))) (\<lambda>state_arc. case state_arc of
                None \<Rightarrow> prog_try consumed (\<lambda>_. Return (Inr False))
              | Some state_arc \<Rightarrow>
                  prog_bind (change_attempt state_arc (apply_decision E row decision)) (\<lambda>delivered.
                    prog_try consumed (\<lambda>_. Return (Inr delivered)))))
      | _ \<Rightarrow> Return (Inr False))"

definition apply_recorded_user_decision :: "env \<Rightarrow> uuid \<Rightarrow> uuid \<Rightarrow> (node_db, unit result) prog" where
  "apply_recorded_user_decision E node_id session_id =
     prog_bind (undelivered_user_approvals_for_session node_id session_id) (\<lambda>rows.
       prog_for rows (deliver_user_decision E))"

definition apply_decided_user_approvals :: "env \<Rightarrow> uuid \<Rightarrow> (node_db, unit result) prog" where
  "apply_decided_user_approvals E node_id =
     prog_bind (undelivered_user_approvals_for_node node_id) (\<lambda>rows. prog_for rows (deliver_user_decision E))"

definition advertise_user_request :: "env \<Rightarrow> uuid \<Rightarrow> arc \<Rightarrow> (node_db, bool result) prog" where
  "advertise_user_request E node_id state_arc =
     prog_bind (read_attempt state_arc) (\<lambda>state. case state of
       None \<Rightarrow> Return (Inr False)
     | Some state \<Rightarrow>
         if \<not> needs_web_approval state then Return (Inr False)
         else prog_try (upsert_request
             \<lparr> nr_session_id = as_session_id state, nr_target = as_target_name state, nr_node_id = node_id,
               nr_protocol = protocol_name (as_protocol state), nr_username = info_username (as_user_info state),
               nr_user_id = info_id (as_user_info state),
               nr_remote_address = map_option (show_ip E) (as_remote_ip state),
               nr_match_digest = map_option (\<lambda>key. web_approval_identity_digest E (mk_identity key))
                 (web_approval_match_key E state),
               nr_started = as_started state, nr_about = Ask_User (as_identification_string state) \<rparr>)
           (\<lambda>_. Return (Inr True)))"

section \<open>What a passed gate rests on\<close>

definition approved_row :: "uuid \<Rightarrow> string \<Rightarrow> node_db \<Rightarrow> bool" where
  "approved_row session_id target s \<longleftrightarrow>
     (\<exists>r\<in>set (requests s). row_key r = (session_id, Approval_Admin, target) \<and> rq_status r = Req_Approved)"

text \<open>A stored approval that covers the key: same identity, covering scope, still in the grace period.\<close>

definition remembered_for :: "env \<Rightarrow> web_approval_key \<Rightarrow> int \<Rightarrow> node_db \<Rightarrow> bool" where
  "remembered_for E key grace s \<longleftrightarrow>
     (\<exists>r\<in>set (requests s). rq_kind r = wi_kind (mk_identity key) \<and> rq_status r = Req_Approved
        \<and> (\<exists>t. rq_resolved_at r = Some t \<and> clock s - whole_seconds grace \<le> t)
        \<and> scope_matches key r
        \<and> rq_match_digest r = Some (web_approval_identity_digest E (mk_identity key)))"

lemma approval_is_remembered_eq: "approval_is_remembered E key grace = query (remembered_for E key grace)"
  unfolding approval_is_remembered_def remembered_for_def
  by (intro arg_cong [where f = query] ext) (auto simp: Let_def list_ex_iff split: option.split_asm)

definition admin_remembered :: "env \<Rightarrow> approval_subject \<Rightarrow> node_db set \<Rightarrow> bool" where
  "admin_remembered E subject H \<longleftrightarrow>
     (\<exists>key grace. subject_match_key E subject = Some key
        \<and> (\<exists>s\<in>H. Option.bind (admin_approval_grace_period_seconds s) i64_seconds_to_duration = Some grace)
        \<and> (\<exists>s\<in>H. remembered_for E key grace s))"

lemma wp_remembered:
  "wp (\<lambda>x H. x \<longrightarrow> admin_remembered E subject H) (admin_approval_is_remembered E subject) H"
  by (auto simp: admin_approval_is_remembered_def admin_approval_grace_period_def approval_is_remembered_eq
      admin_remembered_def split: option.split)

lemma row_state_approved_iff: "row_state r = Row_Decided (Decision_Approved sc) \<Longrightarrow> rq_status r = Req_Approved"
  by (cases "rq_status r") (simp_all add: row_state_def)

lemma found_approved:
  assumes "find_by row_key (session_id, Approval_Admin, target) (requests s) = Some r"
    and "row_state r = Row_Decided (Decision_Approved sc)"
  shows "approved_row session_id target s"
  using find_by_SomeD [OF assms(1)] row_state_approved_iff [OF assms(2)] by (auto simp: approved_row_def)

lemma wp_await:
  "wp (\<lambda>x H. \<forall>sc. x = Wait_Decided (Decision_Approved sc) \<longrightarrow> (\<exists>s\<in>H. approved_row session_id target s))
     (await_row_decision session_id Approval_Admin target ticks) H"
proof (induction ticks arbitrary: H)
  case (Cons fails ticks)
  then show ?case
    by (auto simp: find_row_def intro: found_approved split: option.split row_state.split)
qed simp

lemma wp_row_decision:
  "wp (\<lambda>x H. \<forall>sc. x = Some (Decision_Approved sc) \<longrightarrow> (\<exists>s\<in>H. approved_row session_id target s))
     (row_decision session_id Approval_Admin target) H"
  by (auto simp: row_decision_def find_row_def intro: found_approved split: option.split row_state.split)

definition gate_justified ::
  "'o target_authorization \<Rightarrow> approval_subject \<Rightarrow> 'o gate_outcome result \<times> pending_approval option \<Rightarrow> node_db set \<Rightarrow> bool" where
  "gate_justified authorization subject x H \<longleftrightarrow>
     (\<forall>a. fst x = Inr (Gate_Approved a) \<longrightarrow> a = authorization
        \<and> (\<exists>s\<in>H. approved_row (sj_session_id subject) (sj_target_name subject) s))"

lemma gate_of_decision_approved:
  "gate_of_decision authorization d = Gate_Approved a \<longleftrightarrow> a = authorization \<and> (\<exists>sc. d = Decision_Approved sc)"
  by (auto simp: gate_of_decision_def split: approval_decision.split)

lemma wp_await_admin:
  "wp (gate_justified authorization subject) (await_admin_decision authorization subject ticks guard) H"
proof -
  have found: "wp (gate_justified authorization subject) (prog_bind
      (row_decision (sj_session_id subject) Approval_Admin (sj_target_name subject)) (\<lambda>found. case found of
        Some decision \<Rightarrow> Return (Inr (gate_of_decision authorization decision), Some g)
      | None \<Rightarrow> Return (Inr Gate_Expired, Some g'))) H'" for g g' H'
    unfolding wp_bind
    by (rule wp_mono [OF wp_row_decision])
      (auto simp: gate_justified_def gate_of_decision_approved split: option.split)
  show ?thesis
    unfolding await_admin_decision_def admin_approval_timeout_def wp_bind wp_query
  proof (rule allI, rule wp_mono [OF wp_await], goal_cases)
    case (1 s x H')
    show ?case
    proof (cases x)
      case (Wait_Decided d)
      with 1(2) show ?thesis by (auto simp: gate_justified_def gate_of_decision_approved)
    next
      case Wait_Ended
      then show ?thesis by (simp add: gate_justified_def)
    next
      case Wait_TimedOut
      have "wp (gate_justified authorization subject) (case closed of
          Inl e \<Rightarrow> Return (Inl e, Some g)
        | Inr closed \<Rightarrow> if closed then Return (Inr Gate_Expired, Some g)
            else prog_bind (row_decision (sj_session_id subject) Approval_Admin (sj_target_name subject)) (\<lambda>found.
              case found of Some decision \<Rightarrow> Return (Inr (gate_of_decision authorization decision), Some (guard_decided g))
              | None \<Rightarrow> Return (Inr Gate_Expired, Some g))) H''" for closed g H''
        using found by (auto simp: gate_justified_def split: sum.split)
      then show ?thesis using Wait_TimedOut by (simp add: Let_def wp_always)
    qed
  qed
qed

section \<open>What a recorded decision leaves behind\<close>

definition resolved_as :: "approval_decision \<Rightarrow> approval_actor \<Rightarrow> request_row \<Rightarrow> bool" where
  "resolved_as decision actor r \<longleftrightarrow> (rq_status r, rq_scope r) = decision_columns decision
     \<and> rq_resolved_by_username r = actor_username actor \<and> rq_resolved_by_user_id r = Some (actor_user_id actor)"

lemma resolved_as_decided: "resolved_as decision actor r \<Longrightarrow> rq_status r \<in> set decided"
  by (cases decision) (auto simp: resolved_as_def decided_def)

lemma resolved_as_consumed [simp]: "resolved_as decision actor (r\<lparr> rq_consumed_at := c \<rparr>) \<longleftrightarrow> resolved_as decision actor r"
  by (simp add: resolved_as_def)

lemma run_in_statement:
  "run_in (statement f) envs s = (tl envs, [case envs of [] \<Rightarrow> s | env # _ \<Rightarrow> env s],
     fst (f (case envs of [] \<Rightarrow> s | env # _ \<Rightarrow> env s)), snd (f (case envs of [] \<Rightarrow> s | env # _ \<Rightarrow> env s)))"
  by (simp add: statement_def Let_def)

lemma run_in_query:
  "run_in (query f) envs s = (tl envs, [case envs of [] \<Rightarrow> s | env # _ \<Rightarrow> env s],
     (case envs of [] \<Rightarrow> s | env # _ \<Rightarrow> env s), f (case envs of [] \<Rightarrow> s | env # _ \<Rightarrow> env s))"
  by (simp add: query_def Let_def)

text \<open>A transition that moved something has left a row with the new columns.\<close>

lemma run_in_transition:
  assumes "run_in (transition_apply which tr) envs s = (envs', trace, s', moved)" and "0 < moved"
  shows "\<exists>t\<in>set trace. \<exists>r\<in>set (requests t). which r \<and> st_from tr r
    \<and> fold (\<lambda>c. c) (st_columns tr) (r\<lparr> rq_status := st_to tr \<rparr>) \<in> set (requests s')"
proof -
  define t where "t = (case envs of [] \<Rightarrow> s | env # _ \<Rightarrow> env s)"
  let ?hit = "\<lambda>r. which r \<and> st_from tr r"
  let ?f = "\<lambda>r. fold (\<lambda>c. c) (st_columns tr) (r\<lparr> rq_status := st_to tr \<rparr>)"
  have trace: "trace = [t]" and s': "s' = t\<lparr> requests := update_many ?hit ?f (requests t) \<rparr>"
    and moved: "moved = rows_affected ?hit (requests t)"
    using assms(1) by (auto simp: transition_apply_def run_in_statement Let_def t_def)
  obtain r where r: "r \<in> set (requests t)" "?hit r"
    using assms(2) unfolding moved rows_affected_pos_iff by blast
  then have "?f r \<in> set (requests s')"
    unfolding s' by (simp add: set_update_many)
  with r trace show ?thesis by auto
qed

lemma obeys_emit: "obeys (request_guarantee floor_at) (emit event)"
  unfolding emit_def by (intro obeys_statement) simp

definition settle_tail ::
  "request_row \<Rightarrow> approval_actor \<Rightarrow> request_status \<Rightarrow> nat \<Rightarrow> (node_db, bool result) prog" where
  "settle_tail row actor status moved = prog_bind
     (case rq_ticket_id row of
        Some ticket_id \<Rightarrow> if 0 < moved \<and> status \<noteq> Req_Approved
          then prog_bind (refund_use ticket_id) (\<lambda>_. Return (Inr (0 < moved))) else Return (Inr (0 < moved))
      | None \<Rightarrow> Return (Inr (0 < moved)))
     (\<lambda>r. case r of Inl e \<Rightarrow> Return (Inl e) | Inr recorded \<Rightarrow>
        if recorded then prog_bind (emit_resolved_event row actor (status = Req_Approved)) (\<lambda>_. Return (Inr recorded))
        else Return (Inr recorded))"

lemma obeys_settle_tail: "obeys (request_guarantee floor_at) (settle_tail row actor status moved)"
  unfolding settle_tail_def emit_resolved_event_def by (intro obeys_rules obeys_emit obeys_refund_use)

lemma wp_settle_tail: "wp (\<lambda>x H. x = Inr (0 < moved)) (settle_tail row actor status moved) H"
  by (auto simp: settle_tail_def emit_resolved_event_def emit_def refund_use_def split: option.split)

text \<open>The recording as a sequence: read the row, read the clock, move the row, finish.\<close>

definition decision_transition ::
  "timestamp \<Rightarrow> request_status \<Rightarrow> approval_scope option \<Rightarrow> approval_actor \<Rightarrow> status_transition" where
  "decision_transition now status scope actor =
     transition_set (\<lambda>r. r\<lparr> rq_resolved_by_user_id := Some (actor_user_id actor) \<rparr>)
       (transition_set (\<lambda>r. r\<lparr> rq_resolved_by_username := actor_username actor \<rparr>)
         (transition_set (\<lambda>r. r\<lparr> rq_scope := scope \<rparr>) (from_pending now status)))"

lemma settle_sequence:
  "prog_try (settle_request row status scope actor) (\<lambda>recorded.
      if recorded then prog_bind (emit_resolved_event row actor (status = Req_Approved)) (\<lambda>_. Return (Inr recorded))
      else Return (Inr recorded))
   = prog_bind (query clock) (\<lambda>now. prog_bind (transition_apply
       (\<lambda>r. row_key r = row_key row \<and> rq_started r = rq_started row) (decision_transition now status scope actor))
       (settle_tail row actor status))"
proof -
  have to: "st_to (decision_transition now status scope actor) = status" for now
    by (simp add: decision_transition_def transition_set_def)
  show ?thesis
    unfolding prog_try_def settle_request_def settle_request_internal_def Let_def prog_bind_assoc
      decision_transition_def [symmetric] settle_tail_def row_key_def [of row] to
    by (rule refl)
qed

lemma decision_transition_row:
  assumes "(status, scope) = decision_columns decision"
    and "r' = fold (\<lambda>c. c) (st_columns (decision_transition now status scope actor))
      (r\<lparr> rq_status := st_to (decision_transition now status scope actor) \<rparr>)"
  shows "row_key r' = row_key r \<and> rq_started r' = rq_started r \<and> resolved_as decision actor r'"
    and "st_from (decision_transition now status scope actor) r \<longleftrightarrow> rq_status r = Req_Pending"
  using assms
  by (simp_all add: decision_transition_def transition_set_def from_pending_def row_key_def resolved_as_def)

section \<open>What reaches the login attempt\<close>

text \<open>The attempt a decision is about: the one of its session, if it still asks the same question.\<close>

definition asked_by :: "request_row \<Rightarrow> node_db \<Rightarrow> arc \<Rightarrow> auth_state \<Rightarrow> bool" where
  "asked_by row s a st \<longleftrightarrow> store_get (node_store s) (rq_session_id row) = Some a
     \<and> store_heap (node_store s) a = Some st \<and> as_target_name st = rq_target row
     \<and> info_id (as_user_info st) = rq_user_id row \<and> needs_web_approval st"

lemma approved_attempt: "has_real_web_approval (fst (add_web_user_approval E st))"
  by (simp add: add_web_user_approval_def has_real_web_approval_def maybe_update_frame)

lemma bypassed_attempt:
  "\<not> has_real_web_approval (emit_web_approval_bypassed_event (fst (add_web_user_approval_via_grace_bypass E st)))"
  by (simp add: add_web_user_approval_via_grace_bypass_def has_real_web_approval_def maybe_update_frame
      emit_bypassed_frame)

lemma rejected_attempt: "verify (emit_authentication_failed_event c why (reject E st)) = Rejected"
  by (simp add: verify_def current_verification_state_def reject_def maybe_update_frame emit_failed_frame)

lemma run_mark_consumed:
  "run (mark_consumed key) s = (s\<lparr> requests := update_many (\<lambda>r. row_key r = key \<and> rq_consumed_at r = None)
      (\<lambda>r. r\<lparr> rq_consumed_at := Some (clock s) \<rparr>) (requests s) \<rparr>, Inr ())"
  by (simp add: mark_consumed_def)

lemma all_consumed:
  assumes "q \<in> set (update_many (\<lambda>r. row_key r = key \<and> rq_consumed_at r = None)
      (\<lambda>r. r\<lparr> rq_consumed_at := Some now \<rparr>) rows)" and "row_key q = key"
  shows "rq_consumed_at q \<noteq> None"
proof -
  obtain r where "q = (if row_key r = key \<and> rq_consumed_at r = None then r\<lparr> rq_consumed_at := Some now \<rparr> else r)"
    using assms(1) unfolding set_update_many by (rule imageE)
  with assms(2) show ?thesis by (auto split: if_splits)
qed

lemma change_attempt_run:
  "run (change_attempt a f) s =
     (case store_heap (node_store s) a of
        None \<Rightarrow> (s, False)
      | Some st \<Rightarrow> (case f st of None \<Rightarrow> (s, False)
          | Some st' \<Rightarrow> (s\<lparr> node_store := store_modify a st' (node_store s) \<rparr>, True)))"
  by (cases "store_heap (node_store s) a") (simp_all add: change_attempt_def)

lemma apply_decision_iff:
  "apply_decision E row d st =
     (if as_target_name st = rq_target row \<and> info_id (as_user_info st) = rq_user_id row \<and> needs_web_approval st
      then Some (case d of Decision_Approved _ \<Rightarrow> fst (add_web_user_approval E st)
        | Decision_Rejected \<Rightarrow> emit_authentication_failed_event (Some Cred_WebUserApproval)
            ''approval rejected by user'' (reject E st))
      else None)"
  by (auto simp: apply_decision_def subject_from_auth_state_def Let_def split: approval_decision.split)

text \<open>The delivery of a decision as one step.\<close>

lemma run_deliver:
  assumes "row_state row = Row_Decided d"
  shows "run (deliver_user_decision E row) s =
    (let (s1, delivered) = (case store_get (node_store s) (rq_session_id row) of
           None \<Rightarrow> (s, False) | Some a \<Rightarrow> run (change_attempt a (apply_decision E row d)) s)
     in (fst (run (mark_consumed (rq_session_id row, Approval_User, rq_target row)) s1), Inr delivered))"
  by (cases "store_get (node_store s) (rq_session_id row)")
    (auto simp: deliver_user_decision_def assms Let_def run_bind run_try run_mark_consumed split: prod.split)

text \<open>A timeout of zero is a timeout, not the absence of one.\<close>

lemma zero_timeout_is_kept:
  "admin_approval_timeout_seconds s = Some 0 \<Longrightarrow> snd (run admin_approval_timeout s) = 0 \<and> 0 < auth_timeout"
  by (simp add: admin_approval_timeout_def i64_seconds_to_duration_def seconds_def auth_timeout_def)

section \<open>Bypassing the question\<close>

text \<open>Operations on requests leave the attempts alone.\<close>

definition same_attempts :: "node_db \<Rightarrow> node_db \<Rightarrow> bool" where
  "same_attempts s s' \<longleftrightarrow> node_store s' = node_store s"

interpretation attempts: guarantee same_attempts
  by unfold_locales (simp_all add: same_attempts_def)

lemma close_keeps_attempts:
  "node_store (fst (run (close_request session_id kind target status) s)) = node_store (s :: node_db)"
proof -
  have "obeys same_attempts (close_request session_id kind target status)"
    unfolding close_request_def settle_request_internal_def transition_apply_def refund_use_def Let_def
    by (intro obeys_rules attempts.obeys_query) (simp_all add: same_attempts_def)
  from attempts.run_obeys [OF this] show ?thesis by (simp add: same_attempts_def)
qed

lemma close_returns: "\<exists>b. snd (run (close_request session_id kind target status) s) = Inr b"
proof -
  have "wp (\<lambda>x H. \<exists>b. x = Inr b) (close_request session_id kind target status) {}"
    by (auto simp: close_request_def settle_request_internal_def transition_apply_def refund_use_def Let_def
        split: option.split prod.split)
  from wp_run [OF this] show ?thesis by blast
qed

lemma run_close:
  obtains s1 b where "run (close_request session_id kind target status) s = (s1, Inr b)" "node_store s1 = node_store (s :: node_db)"
  using close_keeps_attempts [of session_id kind target status s] close_returns [of session_id kind target status s]
  by (cases "run (close_request session_id kind target status) s") auto

section \<open>Properties\<close>

definition gate_reason ::
  "env \<Rightarrow> 'o target_authorization \<Rightarrow> uuid \<Rightarrow> gated_connection \<Rightarrow> node_db set \<Rightarrow> bool" where
  "gate_reason E authorization session_id connection H \<longleftrightarrow>
     \<not> tgt_require_approval (ta_target authorization)
     \<or> admin_remembered E (subject_for connection session_id authorization) H
     \<or> (\<exists>t\<in>H. approved_row session_id (tgt_name (ta_target authorization)) t)"

lemma wp_require_admin_approval:
  "wp (\<lambda>x H. \<forall>a. fst x = Inr (Gate_Approved a) \<longrightarrow>
         a = authorization \<and> gate_reason E authorization session_id connection H)
     (require_admin_approval E node_id authorization session_id connection notified ticks) H"
proof -
  let ?subject = "subject_for connection session_id authorization"
  let ?Q = "\<lambda>x H. \<forall>a. fst x = Inr (Gate_Approved a) \<longrightarrow> a = authorization
      \<and> (\<not> tgt_require_approval (ta_target authorization) \<or> admin_remembered E ?subject H
         \<or> (\<exists>t\<in>H. approved_row session_id (tgt_name (ta_target authorization)) t))"
  have names: "sj_session_id ?subject = session_id" "sj_target_name ?subject = tgt_name (ta_target authorization)"
    by (simp_all add: subject_for_def)
  have asked: "wp ?Q (case advertised of
          Inl e \<Rightarrow> Return (Inl e, Some g)
        | Inr advertised \<Rightarrow> if advertised = TicketExhausted then Return (Inr Gate_Refused, Some g)
            else case notified of Inl e \<Rightarrow> Return (Inl e, Some g)
              | Inr _ \<Rightarrow> await_admin_decision authorization ?subject ticks g) H" for advertised g H
    using wp_mono [OF wp_await_admin [of authorization ?subject ticks g H], of ?Q]
    by (auto simp: gate_justified_def names split: sum.split)
  have "wp ?Q (require_admin_approval E node_id authorization session_id connection notified ticks) H"
  proof (cases "tgt_require_approval (ta_target authorization)")
    case False
    then show ?thesis by (simp add: require_admin_approval_def Let_def)
  next
    case True
    have "wp (\<lambda>x. wp ?Q (if x then prog_bind (emit_bypassed_event ?subject)
              (\<lambda>_. Return (Inr (Gate_Approved authorization), None))
            else let guard = guarding ?subject in prog_bind (announce_admin_request E node_id ?subject) (\<lambda>advertised.
              case advertised of Inl e \<Rightarrow> Return (Inl e, Some guard)
              | Inr advertised \<Rightarrow> if advertised = TicketExhausted then Return (Inr Gate_Refused, Some guard)
                  else case notified of Inl e \<Rightarrow> Return (Inl e, Some guard)
                    | Inr _ \<Rightarrow> await_admin_decision authorization ?subject ticks guard)))
        (admin_approval_is_remembered E ?subject) H"
    proof (rule wp_mono [OF wp_remembered], goal_cases)
      case (1 x H')
      show ?case
      proof (cases x)
        case True
        with 1 show ?thesis by (auto simp: emit_bypassed_event_def emit_def admin_remembered_def)
      next
        case False
        then show ?thesis by (simp only: if_False Let_def wp_bind) (rule wp_always, rule asked)
      qed
    qed
    with True show ?thesis by (simp add: require_admin_approval_def Let_def)
  qed
  then show ?thesis by (simp add: gate_reason_def)
qed

text \<open>
  C3: the gate in front of a target that requires approval opens only for a reason. Whatever
  the rest of the system does between the statements of the gate, it passes only with the
  very authorization it was given, and only if the target requires no approval, or an
  earlier approval of the same identity that covers the target was found within the grace
  period, or the request of this session for this target was seen approved.
\<close>

theorem gate_opens_only_with_reason:
  assumes "run_in (require_admin_approval E node_id authorization session_id connection notified ticks) envs s
      = (envs', trace, s', Inr (Gate_Approved a), guard)"
  shows "a = authorization
    \<and> (\<not> tgt_require_approval (ta_target authorization)
       \<or> admin_remembered E (subject_for connection session_id authorization) (set trace)
       \<or> (\<exists>t\<in>set trace. approved_row session_id (tgt_name (ta_target authorization)) t))"
  using wp_run_in [OF wp_require_admin_approval [of authorization E session_id connection node_id notified ticks "{}"] assms]
  by (simp add: gate_reason_def)

text \<open>
  C34: a decision that is reported as recorded is on the row and stays there. If the recording
  of a decision succeeds, whatever other operations on requests run in between, then a
  pending request of that session and target was seen, and the row carries exactly this
  decision and its author when the recording returns; so of two people who answer the same
  request only one is told to have decided it.
\<close>

theorem recorded_decision_stands:
  assumes "\<forall>env\<in>set envs. \<forall>s. request_guarantee floor_at s (env s)"
    and "run_in (record_decision session_id kind target decision actor) envs s = (envs', trace, s', Inr True)"
  shows "\<exists>row. row_key row = (session_id, kind, target) \<and> rq_status row = Req_Pending
    \<and> (\<exists>t\<in>set trace. row \<in> set (requests t))
    \<and> (floor_at \<le> rq_started row \<longrightarrow>
        (\<exists>r\<in>set (requests s'). row_key r = (session_id, kind, target) \<and> rq_started r = rq_started row
           \<and> resolved_as decision actor r))"
proof -
  obtain status scope where columns: "(status, scope) = decision_columns decision" by (cases decision) auto
  let ?key = "(session_id, kind, target)"
  define t0 where "t0 = (case envs of [] \<Rightarrow> s | env # _ \<Rightarrow> env s)"
  have read: "run_in (find_row session_id kind target) envs s = (tl envs, [t0], t0, find_by row_key ?key (requests t0))"
    by (simp add: find_row_def run_in_query t0_def)
  obtain row where row: "find_by row_key ?key (requests t0) = Some row" "rq_status row = Req_Pending"
    using assms(2) columns [symmetric] read
    by (auto simp: record_decision_def run_in_bind split: option.splits if_splits)
  have key: "row \<in> set (requests t0)" "row_key row = ?key" using find_by_SomeD [OF row(1)] by simp_all
  obtain rest where rest: "run_in (prog_bind (query clock) (\<lambda>now. prog_bind (transition_apply
       (\<lambda>r. row_key r = row_key row \<and> rq_started r = rq_started row) (decision_transition now status scope actor))
       (settle_tail row actor status))) (tl envs) t0 = (envs', rest, s', Inr True)" and trace: "trace = t0 # rest"
    using assms(2) columns [symmetric] read row
    by (auto simp: record_decision_def run_in_bind [of "find_row session_id kind target"] settle_sequence
        split: prod.splits)
  obtain t1 envs1 envs2 trace2 s2 moved trace3 where
    clock: "run_in (query clock) (tl envs) t0 = (envs1, [t1], t1, clock t1)" and
    move: "run_in (transition_apply (\<lambda>r. row_key r = row_key row \<and> rq_started r = rq_started row)
        (decision_transition (clock t1) status scope actor)) envs1 t1 = (envs2, trace2, s2, moved)" and
    tail: "run_in (settle_tail row actor status moved) envs2 s2 = (envs', trace3, s', Inr True)"
    using rest by (auto simp: run_in_bind run_in_query split: prod.splits)
  have "0 < moved" using wp_run_in [OF wp_settle_tail tail] by simp
  from run_in_transition [OF move this] obtain r where r: "row_key r = row_key row"
      "rq_started r = rq_started row" and moved: "fold (\<lambda>c. c) (st_columns (decision_transition (clock t1) status scope actor))
        (r\<lparr> rq_status := st_to (decision_transition (clock t1) status scope actor) \<rparr>) \<in> set (requests s2)"
    by metis
  let ?r = "fold (\<lambda>c. c) (st_columns (decision_transition (clock t1) status scope actor))
        (r\<lparr> rq_status := st_to (decision_transition (clock t1) status scope actor) \<rparr>)"
  note written = decision_transition_row [OF columns refl, of "clock t1" actor r]
  have tl: "set (tl xs) \<subseteq> set xs" for xs :: "(node_db \<Rightarrow> node_db) list" by (cases xs) auto
  have "envs2 = tl (tl (tl envs))"
    using clock move by (simp add: run_in_query transition_apply_def run_in_statement)
  then have "set envs2 \<subseteq> set envs" using subset_trans [OF tl subset_trans [OF tl tl]] by simp
  then have "\<forall>env\<in>set envs2. \<forall>s. request_guarantee floor_at s (env s)"
    using assms(1) by (simp add: subset_iff)
  from request_rows.run_in_obeys [OF obeys_settle_tail this tail]
  have kept: "keeps_decisions floor_at s2 s'" by (simp add: request_guarantee_def)
  have "\<exists>r\<in>set (requests s'). row_key r = ?key \<and> rq_started r = rq_started row \<and> resolved_as decision actor r"
    if floor: "floor_at \<le> rq_started row"
  proof -
    obtain c where "?r\<lparr> rq_consumed_at := c \<rparr> \<in> set (requests s')"
      using kept moved floor written(1) r resolved_as_decided [of decision actor ?r]
      unfolding keeps_decisions_def by metis
    then show ?thesis
      by (rule bexI [rotated]) (use written(1) r key(2) in \<open>simp add: row_key_def\<close>)
  qed
  with key row(2) trace show ?thesis by (intro exI [of _ row]) auto
qed

text \<open>
  C35: a user's decision reaches exactly the attempt that asked for it. It is delivered when the
  attempt of its session is still about the same user and target and still needs the
  approval; an approval then gives that attempt an approval of its own and a rejection
  makes it rejected for ever. Nothing else happens to any attempt, and a decided row is
  marked as taken note of either way, so it is offered only once.
\<close>

theorem decision_reaches_its_asker:
  assumes "run (deliver_user_decision E row) s = (s', r)" and "row_state row = Row_Decided d"
  shows "(r = Inr True \<longleftrightarrow> (\<exists>a st. asked_by row s a st))
    \<and> (\<forall>a st. asked_by row s a st \<longrightarrow> (\<exists>st'. node_store s' = store_modify a st' (node_store s)
        \<and> (if d = Decision_Rejected then verify st' = Rejected
           else st' = fst (add_web_user_approval E st) \<and> has_real_web_approval st')))
    \<and> (r \<noteq> Inr True \<longrightarrow> node_store s' = node_store s)
    \<and> (\<forall>q\<in>set (requests s'). row_key q = (rq_session_id row, Approval_User, rq_target row) \<longrightarrow> rq_consumed_at q \<noteq> None)"
proof -
  have consumed: "\<forall>q\<in>set (requests s'). row_key q = (rq_session_id row, Approval_User, rq_target row)
      \<longrightarrow> rq_consumed_at q \<noteq> None"
    using assms(1) unfolding run_deliver [OF assms(2)]
    by (auto simp: Let_def run_mark_consumed split: prod.splits option.splits dest: all_consumed)
  show ?thesis
  proof (cases "\<exists>a st. asked_by row s a st")
    case True
    then obtain a st where asked: "asked_by row s a st" by blast
    let ?st' = "case d of Decision_Approved _ \<Rightarrow> fst (add_web_user_approval E st)
        | Decision_Rejected \<Rightarrow> emit_authentication_failed_event (Some Cred_WebUserApproval)
            ''approval rejected by user'' (reject E st)"
    have result: "r = Inr True" "node_store s' = store_modify a ?st' (node_store s)"
      using assms(1) asked unfolding run_deliver [OF assms(2)] asked_by_def
      by (auto simp: Let_def change_attempt_run apply_decision_iff run_mark_consumed)
    have "if d = Decision_Rejected then verify ?st' = Rejected
        else ?st' = fst (add_web_user_approval E st) \<and> has_real_web_approval ?st'"
      by (cases d) (simp_all add: approved_attempt rejected_attempt)
    with result(2) have effect: "\<exists>st'. node_store s' = store_modify a st' (node_store s)
        \<and> (if d = Decision_Rejected then verify st' = Rejected
           else st' = fst (add_web_user_approval E st) \<and> has_real_web_approval st')" by blast
    have "a' = a \<and> st' = st" if "asked_by row s a' st'" for a' st'
      using that asked by (simp add: asked_by_def)
    with effect True consumed result(1) show ?thesis by metis
  next
    case False
    then have none: "\<not> asked_by row s a st" for a st by blast
    have "r = Inr False" "node_store s' = node_store s"
    proof (atomize (full), cases "store_get (node_store s) (rq_session_id row)")
      case None
      with assms(1) show "r = Inr False \<and> node_store s' = node_store s"
        unfolding run_deliver [OF assms(2)] by (auto simp: Let_def run_mark_consumed)
    next
      case (Some a)
      have "apply_decision E row d st = None" if "store_heap (node_store s) a = Some st" for st
        using none [of a st] Some that by (auto simp: asked_by_def apply_decision_iff)
      with assms(1) Some show "r = Inr False \<and> node_store s' = node_store s"
        unfolding run_deliver [OF assms(2)]
        by (auto simp: Let_def run_mark_consumed change_attempt_run split: option.splits)
    qed
    with False consumed show ?thesis by simp
  qed
qed

text \<open>
  An earlier approval spares the user the question exactly when a grace period is set, the
  attempt has an identity that can be remembered, an approval of this identity with a
  covering scope was given within the grace period, the attempt needs the approval, and no
  step-up is pending. The attempt then goes on with an approval that does not count as one
  of its own; in every other case it is left alone.
\<close>

theorem bypass_needs_remembered_approval:
  assumes "run (try_web_approval_bypass E a) s = (s', r)" and "store_heap (node_store s) a = Some st"
  shows "(r = Inr True \<longleftrightarrow>
      (\<exists>grace key. Option.bind (web_approval_grace_period_seconds s) i64_seconds_to_duration = Some grace
         \<and> web_approval_match_key E st = Some key \<and> remembered_for E key grace s)
      \<and> needs_web_approval st \<and> \<not> is_step_up_pending st)
    \<and> (if r = Inr True
       then \<exists>st'. node_store s' = store_modify a st' (node_store s) \<and> \<not> has_real_web_approval st'
       else r = Inr False \<and> s' = s)"
proof (cases "(\<exists>grace key. Option.bind (web_approval_grace_period_seconds s) i64_seconds_to_duration = Some grace
         \<and> web_approval_match_key E st = Some key \<and> remembered_for E key grace s)
      \<and> needs_web_approval st \<and> \<not> is_step_up_pending st")
  case True
  let ?st' = "emit_web_approval_bypassed_event (fst (add_web_user_approval_via_grace_bypass E st))"
  have changed: "bypass_attempt E st = Some ?st'" using True by (simp add: bypass_attempt_def)
  define s1 where "s1 = s\<lparr> node_store := store_modify a ?st' (node_store s) \<rparr>"
  have heap: "store_heap (node_store s1) a = Some ?st'" by (simp add: s1_def store_modify_def)
  obtain s2 b where close: "run (close_request (as_session_id ?st') Approval_User (as_target_name ?st') Undecided_Abandoned) s1
      = (s2, Inr b)" "node_store s2 = node_store s1" by (rule run_close)
  have "r = Inr True \<and> node_store s' = node_store s1"
    using True assms heap close changed
    by (auto simp: try_web_approval_bypass_def web_approval_grace_period_def run_bind read_attempt_def
        approval_is_remembered_eq change_attempt_run s1_def [symmetric] run_try notify_global_def
        split: option.splits if_splits)
  then show ?thesis using True bypassed_attempt by (auto simp: s1_def)
next
  case False
  then have "r = Inr False \<and> s' = s"
    using assms
    by (auto simp: try_web_approval_bypass_def web_approval_grace_period_def run_bind read_attempt_def
        approval_is_remembered_eq change_attempt_run bypass_attempt_def split: option.splits if_splits)
  with False show ?thesis by auto
qed

section \<open>A concrete node\<close>

definition sample_node :: "auth_state_store \<Rightarrow> request_row list \<Rightarrow> node_db" where
  "sample_node st rows = \<lparr> clock = 10, tickets = [], requests = rows, web_approval_grace_period_seconds = Some 60,
     admin_approval_timeout_seconds = None, admin_approval_grace_period_seconds = Some 60,
     node_store = st, node_audit = [], node_notified = [] \<rparr>"

lemma sample_node_fields [simp]:
  "clock (sample_node st rows) = 10" "requests (sample_node st rows) = rows" "node_store (sample_node st rows) = st"
  "web_approval_grace_period_seconds (sample_node st rows) = Some 60"
  "admin_approval_grace_period_seconds (sample_node st rows) = Some 60"
  by (simp_all add: sample_node_def)

lemma sample_grace: "i64_seconds_to_duration 60 = Some (seconds 60)" "10 - whole_seconds (seconds 60) \<le> 5"
  by (simp_all add: i64_seconds_to_duration_def whole_seconds_def seconds_def)

text \<open>An approval for all targets, given in another session to the identity of a key.\<close>

definition remembering_row :: "web_approval_key \<Rightarrow> request_row" where
  "remembering_row key = sample_request\<lparr> rq_session_id := 6, rq_kind := wi_kind (mk_identity key), rq_status := Req_Approved,
     rq_resolved_at := Some 5, rq_scope := Some Scope_AllTargets,
     rq_match_digest := Some (web_approval_identity_digest sample_env (mk_identity key)) \<rparr>"

lemma remembering_row_remembered: "remembered_for sample_env key (seconds 60) (sample_node st [remembering_row key])"
  using sample_grace(2) by (simp add: remembered_for_def remembering_row_def scope_matches_def)

definition sample_authorization :: "unit target_authorization" where
  "sample_authorization = \<lparr> ta_user_info = sample_info, ta_target = sample_target\<lparr> tgt_require_approval := True \<rparr>,
     ta_protocol = Ssh, ta_ticket_id = None \<rparr>"

definition sample_connection :: gated_connection where
  "sample_connection = \<lparr> gc_remote_ip = Some (V4 1), gc_credentials = remember_from_credentials [] \<rparr>"

lemma sample_subject_key: "\<exists>key. subject_match_key sample_env (subject_for sample_connection 5 sample_authorization) = Some key"
  by (simp add: subject_match_key_def subject_for_def sample_connection_def web_approval_match_key_build_def
      remember_from_credentials_def)

theorem gate_opens_only_with_reason_witness:
  "\<exists>key trace s'. run_in (require_admin_approval sample_env 1 sample_authorization 5 sample_connection (Inr ()) [])
        [] (sample_node store_new [remembering_row key]) = ([], trace, s', Inr (Gate_Approved sample_authorization), None)
    \<and> admin_remembered sample_env (subject_for sample_connection 5 sample_authorization) (set trace)"
proof -
  obtain key where key: "subject_match_key sample_env (subject_for sample_connection 5 sample_authorization) = Some key"
    using sample_subject_key by blast
  have ask: "tgt_require_approval (ta_target sample_authorization)" by (simp add: sample_authorization_def)
  obtain trace s' where run: "run_in (require_admin_approval sample_env 1 sample_authorization 5 sample_connection (Inr ()) [])
        [] (sample_node store_new [remembering_row key]) = ([], trace, s', Inr (Gate_Approved sample_authorization), None)"
    and trace: "\<not> (\<exists>t\<in>set trace. requests t \<noteq> [remembering_row key])"
    using ask key remembering_row_remembered [of key store_new] sample_grace(1)
    by (simp add: require_admin_approval_def Let_def admin_approval_is_remembered_def admin_approval_grace_period_def
        run_in_bind run_in_query approval_is_remembered_eq emit_bypassed_event_def emit_def run_in_statement)
  have "\<not> approved_row 5 target t" if "requests t = [remembering_row key]" for target t
    using that by (simp add: approved_row_def row_key_def remembering_row_def)
  with trace gate_opens_only_with_reason [OF run] run ask show ?thesis by blast
qed

lemma record_sample:
  "\<exists>trace s'. run_in (record_decision 5 Approval_Admin ''host'' (Decision_Approved Scope_Once) sample_actor) []
      (sample_node store_new [sample_request]) = ([], trace, s', Inr True)"
  by (simp add: record_decision_def settle_sequence run_in_bind run_in_query find_row_def sample_request_facts
      transition_apply_def run_in_statement settle_tail_def Let_def rows_affected_def decision_transition_def
      transition_set_def from_pending_def refund_use_def emit_resolved_event_def emit_def)

theorem recorded_decision_stands_witness:
  "\<exists>trace s'. run_in (record_decision 5 Approval_Admin ''host'' (Decision_Approved Scope_Once) sample_actor) []
      (sample_node store_new [sample_request]) = ([], trace, s', Inr True)
    \<and> (\<exists>row. row_key row = (5, Approval_Admin, ''host'') \<and> (rq_started row \<ge> 0 \<longrightarrow>
        (\<exists>r\<in>set (requests s'). resolved_as (Decision_Approved Scope_Once) sample_actor r)))"
proof -
  obtain trace s' where run: "run_in (record_decision 5 Approval_Admin ''host'' (Decision_Approved Scope_Once) sample_actor) []
      (sample_node store_new [sample_request]) = ([], trace, s', Inr True)"
    using record_sample by blast
  have "\<forall>env\<in>set []. \<forall>s. request_guarantee 0 s (env s)" by simp
  from recorded_decision_stands [OF this run] run show ?thesis by blast
qed

text \<open>An attempt that waits for its web approval.\<close>

definition sample_web_attempt :: auth_state where
  "sample_web_attempt = auth_state_new sample_env 0 (1, 2, 3, 4) 5 (Some (V4 1)) sample_info Ssh ''host''
     (is_sufficient (AnySingleCredentialPolicy {Kind_WebUserApproval}))"

definition sample_web_store :: auth_state_store where
  "sample_web_store = \<lparr> store_heap = [0 \<mapsto> sample_web_attempt], store_next = 1, store_map = [5 \<mapsto> (0, 0)] \<rparr>"

lemma sample_web_frame:
  "as_user_info sample_web_attempt = sample_info" "as_target_name sample_web_attempt = ''host''"
  "as_protocol sample_web_attempt = Ssh" "as_valid_credentials sample_web_attempt = []"
  "as_force_rejected sample_web_attempt = False" "as_pending_step_up sample_web_attempt = False"
  "as_remote_ip sample_web_attempt = Some (V4 1)"
  "as_policy sample_web_attempt = is_sufficient (AnySingleCredentialPolicy {Kind_WebUserApproval})"
  by (simp_all add: sample_web_attempt_def auth_state_new_def)

lemma sample_web_needs: "needs_web_approval sample_web_attempt"
  by (simp add: needs_web_approval_def verify_def current_verification_state_def sample_web_frame
      valid_credential_kinds_def)

definition sample_user_decision :: request_row where
  "sample_user_decision = sample_request\<lparr> rq_kind := Approval_User, rq_status := Req_Approved, rq_scope := Some Scope_Once \<rparr>"

lemma sample_user_decision_facts:
  "rq_session_id sample_user_decision = 5" "rq_target sample_user_decision = ''host''" "rq_user_id sample_user_decision = 7"
  "row_state sample_user_decision = Row_Decided (Decision_Approved Scope_Once)"
  by (simp_all add: sample_user_decision_def sample_request_def new_request_row_def sample_new_request_def row_state_def)

theorem decision_reaches_its_asker_witness:
  "\<exists>s' st'. run (deliver_user_decision sample_env sample_user_decision) (sample_node sample_web_store [sample_user_decision])
      = (s', Inr True) \<and> node_store s' = store_modify 0 st' sample_web_store \<and> has_real_web_approval st'"
proof -
  let ?s = "sample_node sample_web_store [sample_user_decision]"
  have asked: "asked_by sample_user_decision ?s 0 sample_web_attempt"
    by (simp add: asked_by_def sample_web_store_def store_get_def sample_user_decision_facts sample_web_frame
        sample_info_def sample_web_needs)
  obtain s' r where run: "run (deliver_user_decision sample_env sample_user_decision) ?s = (s', r)" by fastforce
  note delivered = decision_reaches_its_asker [OF run sample_user_decision_facts(4)]
  have "r = Inr True" using delivered asked by blast
  moreover have "\<exists>st'. node_store s' = store_modify 0 st' (node_store ?s) \<and> has_real_web_approval st'"
    using conjunct1 [OF conjunct2 [OF delivered]] asked by auto
  ultimately show ?thesis using run by auto
qed

theorem bypass_needs_remembered_approval_witness:
  "\<exists>key s' st'. run (try_web_approval_bypass sample_env 0) (sample_node sample_web_store [remembering_row key])
      = (s', Inr True) \<and> node_store s' = store_modify 0 st' sample_web_store \<and> \<not> has_real_web_approval st'"
proof -
  obtain key where key: "web_approval_match_key sample_env sample_web_attempt = Some key"
    by (simp add: web_approval_match_key_def sample_web_frame web_approval_match_key_build_def remembered_by_def
        remember_from_credentials_def)
  let ?s = "sample_node sample_web_store [remembering_row key]"
  have heap: "store_heap (node_store ?s) 0 = Some sample_web_attempt" by (simp add: sample_web_store_def)
  obtain s' r where run: "run (try_web_approval_bypass sample_env 0) ?s = (s', r)" by fastforce
  note bypass = bypass_needs_remembered_approval [OF run heap]
  have "r = Inr True"
    using bypass key remembering_row_remembered [of key sample_web_store] sample_web_needs
    by (simp add: sample_grace(1) is_step_up_pending_def sample_web_frame)
  then show ?thesis using run bypass by (intro exI [of _ key]) auto
qed

end
