(* ===== verification/Wire.thy ===== *)
theory Wire
  imports Prelude
begin

text \<open>
  Reading and writing the fields of database protocol packets
  (\<open>warpgate-database-protocols/src/io\<close> and \<open>.../src/mysql/io\<close>). A buffer is a list
  of bytes; a reader returns the value and the rest of the buffer, or the protocol
  error; a writer returns the bytes it appends. The contract of a field, that reading
  what was written gives the value and leaves the rest, is a locale interpreted for
  every kind of field. UTF-8 validation is that of Rust's \<open>from_utf8\<close>. Sizes are those
  of a 64-bit machine, so \<open>usize::try_from\<close> of a \<open>u64\<close> does not fail.
\<close>

section \<open>Errors and readers\<close>

text \<open>Every error is an \<open>Error::Protocol\<close>; the constructors are its messages.\<close>

datatype wire_error =
    TryGetError nat nat
  | ExpectedNul
  | InvalidUtf8
  | UnknownPlugin string
  | UnexpectedHeader byte
  | UnknownColumnType byte

type_synonym bytes = "byte list"
type_synonym 'a read = "wire_error + 'a \<times> bytes"

text \<open>The operator \<open>?\<close> on a reader.\<close>

definition read_then :: "'a read \<Rightarrow> ('a \<Rightarrow> bytes \<Rightarrow> wire_error + 'b) \<Rightarrow> wire_error + 'b" where
  "read_then r f = (case r of Inl e \<Rightarrow> Inl e | Inr (x, buf) \<Rightarrow> f x buf)"

lemma read_then_simps [simp]:
  "read_then (Inl e) f = Inl e"
  "read_then (Inr (x, buf)) f = f x buf"
  by (simp_all add: read_then_def)

lemma read_then_InrE:
  assumes "read_then r f = Inr y"
  obtains x buf where "r = Inr (x, buf)" and "f x buf = Inr y"
  using assms by (cases r) auto

section \<open>UTF-8\<close>

definition utf8_tail :: "byte \<Rightarrow> bool" where
  "utf8_tail b \<longleftrightarrow> 128 \<le> b \<and> b \<le> 191"

definition utf8_lead2 :: "byte \<Rightarrow> bool" where
  "utf8_lead2 a \<longleftrightarrow> 194 \<le> a \<and> a \<le> 223"

definition utf8_lead3 :: "byte \<Rightarrow> byte \<Rightarrow> bool" where
  "utf8_lead3 a b \<longleftrightarrow>
     a = 224 \<and> 160 \<le> b \<and> b \<le> 191 \<or>
     225 \<le> a \<and> a \<le> 236 \<and> utf8_tail b \<or>
     a = 237 \<and> 128 \<le> b \<and> b \<le> 159 \<or>
     238 \<le> a \<and> a \<le> 239 \<and> utf8_tail b"

definition utf8_lead4 :: "byte \<Rightarrow> byte \<Rightarrow> bool" where
  "utf8_lead4 a b \<longleftrightarrow>
     a = 240 \<and> 144 \<le> b \<and> b \<le> 191 \<or>
     241 \<le> a \<and> a \<le> 243 \<and> utf8_tail b \<or>
     a = 244 \<and> 128 \<le> b \<and> b \<le> 143"

fun utf8_valid :: "bytes \<Rightarrow> bool" where
  "utf8_valid [] = True"
| "utf8_valid (a # bs) =
     (if a < 128 then utf8_valid bs
      else case bs of [] \<Rightarrow> False | b # cs \<Rightarrow>
        if utf8_lead2 a then utf8_tail b \<and> utf8_valid cs
        else case cs of [] \<Rightarrow> False | c # ds \<Rightarrow>
          if utf8_lead3 a b then utf8_tail c \<and> utf8_valid ds
          else case ds of [] \<Rightarrow> False | d # es \<Rightarrow>
            utf8_lead4 a b \<and> utf8_tail c \<and> utf8_tail d \<and> utf8_valid es)"

lemma utf8_valid_append [simp]: "utf8_valid xs \<Longrightarrow> utf8_valid (xs @ ys) = utf8_valid ys"
proof (induction xs rule: length_induct)
  case (1 xs)
  have IH: "utf8_valid zs \<Longrightarrow> length zs < length xs \<Longrightarrow> utf8_valid (zs @ ys) = utf8_valid ys" for zs
    using 1 by blast
  show ?case
  proof (cases xs)
    case (Cons a bs)
    show ?thesis
    proof (cases "a < 128")
      case True
      with 1(2) Cons IH [of bs] show ?thesis by simp
    next
      case False
      with 1(2) Cons obtain b cs where bs: "bs = b # cs"
        by (auto split: list.splits)
      show ?thesis
      proof (cases "utf8_lead2 a")
        case True
        with 1(2) Cons bs False IH [of cs] show ?thesis by simp
      next
        case lead2: False
        with 1(2) Cons bs False obtain c ds where cs: "cs = c # ds"
          by (auto split: list.splits)
        show ?thesis
        proof (cases "utf8_lead3 a b")
          case True
          with 1(2) Cons bs cs lead2 False IH [of ds] show ?thesis by simp
        next
          case lead3: False
          with 1(2) Cons bs cs lead2 False obtain d es where "ds = d # es"
            by (auto split: list.splits)
          with 1(2) Cons bs cs lead2 lead3 False IH [of es] show ?thesis by simp
        qed
      qed
    qed
  qed simp
qed

lemma utf8_valid_ascii: "(\<forall>b\<in>set bs. b < 128) \<Longrightarrow> utf8_valid bs"
  by (induction bs) auto

text \<open>The text of a byte sequence, inverse of \<^const>\<open>as_bytes\<close>.\<close>

definition of_bytes :: "bytes \<Rightarrow> string" where
  "of_bytes bs = map (\<lambda>b. char_of (unat b)) bs"

lemma unat_of_char [simp]: "unat (word_of_nat (of_char c) :: byte) = of_char c"
  by (simp add: unat_of_nat of_char_mod_256)

lemma of_bytes_as_bytes [simp]: "of_bytes (as_bytes s) = s"
  by (induction s) (simp_all add: of_bytes_def as_bytes_def)

lemma as_bytes_of_bytes [simp]: "as_bytes (of_bytes bs) = bs"
  by (induction bs) (simp_all add: of_bytes_def as_bytes_def)

lemma length_of_bytes [simp]: "length (of_bytes bs) = length bs"
  by (simp add: of_bytes_def)

text \<open>A text is a Rust string when its bytes are valid UTF-8.\<close>

definition is_str :: "string \<Rightarrow> bool" where
  "is_str s \<longleftrightarrow> utf8_valid (as_bytes s)"

definition utf8 :: "bytes \<Rightarrow> wire_error + string" where
  "utf8 bs = (if utf8_valid bs then Inr (of_bytes bs) else Inl InvalidUtf8)"

lemma utf8_as_bytes: "is_str s \<Longrightarrow> utf8 (as_bytes s) = Inr s"
  by (simp add: utf8_def is_str_def)

lemma utf8_InrD: "utf8 bs = Inr s \<Longrightarrow> is_str s \<and> as_bytes s = bs"
  by (auto simp: utf8_def is_str_def split: if_splits)

section \<open>Readers\<close>

definition get_bytes :: "nat \<Rightarrow> bytes \<Rightarrow> bytes read" where
  "get_bytes len buf =
     (if length buf < len then Inl (TryGetError len (length buf))
      else Inr (take len buf, drop len buf))"

definition skip :: "nat \<Rightarrow> bytes \<Rightarrow> unit read" where
  "skip len buf = read_then (get_bytes len buf) (\<lambda>_ buf. Inr ((), buf))"

definition get_bytes_nul :: "bytes \<Rightarrow> bytes read" where
  "get_bytes_nul buf =
     (if 0 \<in> set buf
      then Inr (takeWhile (\<lambda>b. b \<noteq> 0) buf, tl (dropWhile (\<lambda>b. b \<noteq> 0) buf))
      else Inl ExpectedNul)"

definition get_str_nul :: "bytes \<Rightarrow> string read" where
  "get_str_nul buf =
     read_then (get_bytes_nul buf) (\<lambda>v buf.
     case utf8 v of Inl e \<Rightarrow> Inl e | Inr s \<Rightarrow> Inr (s, buf))"

definition get_str :: "nat \<Rightarrow> bytes \<Rightarrow> string read" where
  "get_str len buf =
     read_then (get_bytes len buf) (\<lambda>v buf.
     case utf8 v of Inl e \<Rightarrow> Inl e | Inr s \<Rightarrow> Inr (s, buf))"

text \<open>The fixed-width readers of \<open>bytes::Buf\<close>: little-endian, failing on a short buffer.\<close>

definition try_get_uint_le :: "nat \<Rightarrow> bytes \<Rightarrow> nat read" where
  "try_get_uint_le n buf =
     (if length buf < n then Inl (TryGetError n (length buf))
      else Inr (le_val (take n buf), drop n buf))"

definition try_get_le :: "nat \<Rightarrow> bytes \<Rightarrow> 'w::len word read" where
  "try_get_le n buf = read_then (try_get_uint_le n buf) (\<lambda>v buf. Inr (word_of_nat v, buf))"

definition try_get_u8 :: "bytes \<Rightarrow> byte read" where
  "try_get_u8 = try_get_le 1"

definition try_get_u16_le :: "bytes \<Rightarrow> u16 read" where
  "try_get_u16_le = try_get_le 2"

definition try_get_u32_le :: "bytes \<Rightarrow> u32 read" where
  "try_get_u32_le = try_get_le 4"

definition try_get_u64_le :: "bytes \<Rightarrow> u64 read" where
  "try_get_u64_le = try_get_le 8"

definition get_uint_lenenc :: "bytes \<Rightarrow> u64 read" where
  "get_uint_lenenc buf =
     read_then (try_get_u8 buf) (\<lambda>v buf.
     if v = 0xfc then read_then (try_get_u16_le buf) (\<lambda>x buf. Inr (ucast x, buf))
     else if v = 0xfd then try_get_le 3 buf
     else if v = 0xfe then try_get_u64_le buf
     else Inr (ucast v, buf))"

definition lenenc_size :: "bytes \<Rightarrow> nat read" where
  "lenenc_size buf = read_then (get_uint_lenenc buf) (\<lambda>size buf. Inr (unat size, buf))"

definition get_bytes_lenenc :: "bytes \<Rightarrow> bytes read" where
  "get_bytes_lenenc buf = read_then (lenenc_size buf) get_bytes"

definition get_str_lenenc :: "bytes \<Rightarrow> string read" where
  "get_str_lenenc buf = read_then (lenenc_size buf) get_str"

section \<open>Writers\<close>

definition put_str_nul :: "string \<Rightarrow> bytes" where
  "put_str_nul s = as_bytes s @ [0]"

definition to_le_bytes :: "nat \<Rightarrow> 'w::len word \<Rightarrow> bytes" where
  "to_le_bytes n v = le_bytes n (unat v)"

definition put_uint_lenenc :: "u64 \<Rightarrow> bytes" where
  "put_uint_lenenc v =
     (if v < 251 then [ucast v]
      else if v < 0x10000 then 0xfc # to_le_bytes 2 (ucast v :: u16)
      else if v < 0x1000000 then 0xfd # take 3 (to_le_bytes 4 (ucast v :: u32))
      else 0xfe # to_le_bytes 8 v)"

definition put_bytes_lenenc :: "bytes \<Rightarrow> bytes" where
  "put_bytes_lenenc v = put_uint_lenenc (word_of_nat (length v)) @ v"

definition put_str_lenenc :: "string \<Rightarrow> bytes" where
  "put_str_lenenc v = put_bytes_lenenc (as_bytes v)"

section \<open>The contract of a field\<close>

text \<open>
  Reading a written field gives the value and leaves what follows. Such an encoding is
  prefix-free: the value and the rest are determined by the bytes.
\<close>

locale wire_field =
  fixes ok :: "'a \<Rightarrow> bool"
    and put :: "'a \<Rightarrow> bytes"
    and get :: "bytes \<Rightarrow> 'a read"
  assumes get_put: "ok x \<Longrightarrow> get (put x @ rest) = Inr (x, rest)"
begin

lemma get_put_end: "ok x \<Longrightarrow> get (put x) = Inr (x, [])"
  using get_put [of x "[]"] by simp

lemma put_prefix_free: "ok x \<Longrightarrow> ok y \<Longrightarrow> put x @ r = put y @ s \<Longrightarrow> x = y \<and> r = s"
  by (metis get_put Pair_inject sum.inject(2))

end

text \<open>A reader takes a prefix of the buffer: it invents nothing and reads nothing twice.\<close>

locale prefix_reader =
  fixes get :: "bytes \<Rightarrow> 'a read"
  assumes takes_prefix: "get buf = Inr (x, rest) \<Longrightarrow> \<exists>used. buf = used @ rest"
begin

lemma rest_not_longer: "get buf = Inr (x, rest) \<Longrightarrow> length rest \<le> length buf"
  by (auto dest!: takes_prefix)

lemma rest_subset: "get buf = Inr (x, rest) \<Longrightarrow> set rest \<subseteq> set buf"
  by (auto dest!: takes_prefix)

end

subsection \<open>Fixed-width integers\<close>

lemma try_get_uint_le_append:
  "length bs = n \<Longrightarrow> try_get_uint_le n (bs @ rest) = Inr (le_val bs, rest)"
  by (simp add: try_get_uint_le_def)

lemma try_get_le_put:
  assumes "2 ^ LENGTH('w) \<le> (256::nat) ^ n"
  shows "try_get_le n (to_le_bytes n (v :: 'w::len word) @ rest) = Inr (v, rest)"
proof -
  have "unat v < 256 ^ n"
    using unsigned_less [of v, where ?'a = nat] assms by (rule less_le_trans)
  then show ?thesis
    by (simp add: try_get_le_def to_le_bytes_def try_get_uint_le_append le_val_le_bytes)
qed

lemma to_le_bytes_1 [simp]: "to_le_bytes 1 (v :: byte) = [v]"
  by (simp add: to_le_bytes_def)

lemma try_get_u8_simps [simp]:
  "try_get_u8 [] = Inl (TryGetError 1 0)"
  "try_get_u8 (b # buf) = Inr (b, buf)"
  by (simp_all add: try_get_u8_def try_get_le_def try_get_uint_le_def)

lemma try_get_le_prefix: "try_get_le n buf = Inr (x, rest) \<Longrightarrow> buf = take n buf @ rest"
  by (auto simp: try_get_le_def try_get_uint_le_def split: if_splits)

interpretation u16_field: wire_field "\<lambda>_. True" "to_le_bytes 2" try_get_u16_le
  unfolding try_get_u16_le_def by unfold_locales (rule try_get_le_put, simp)

interpretation u32_field: wire_field "\<lambda>_. True" "to_le_bytes 4" try_get_u32_le
  unfolding try_get_u32_le_def by unfold_locales (rule try_get_le_put, simp)

interpretation u64_field: wire_field "\<lambda>_. True" "to_le_bytes 8" try_get_u64_le
  unfolding try_get_u64_le_def by unfold_locales (rule try_get_le_put, simp)

subsection \<open>Length-encoded integers\<close>

lemma take_le_bytes: "m \<le> n \<Longrightarrow> take m (le_bytes n x) = le_bytes m x"
  by (induction n arbitrary: m x) (auto simp: take_Cons' gr0_conv_Suc)

lemma try_get_u24_put:
  assumes "v < 0x1000000"
  shows "try_get_le 3 (take 3 (to_le_bytes 4 (ucast v :: u32)) @ rest) = Inr (v :: u64, rest)"
proof -
  have v: "unat v < 0x1000000"
    using assms by (simp add: word_less_nat_alt)
  then have "unat (ucast v :: u32) = unat v"
    by (simp add: unsigned_ucast_eq take_bit_nat_eq_self)
  then have "take 3 (to_le_bytes 4 (ucast v :: u32)) = le_bytes 3 (unat v)"
    by (simp add: to_le_bytes_def take_le_bytes)
  with v show ?thesis
    by (simp add: try_get_le_def try_get_uint_le_append le_val_le_bytes)
qed

lemma ucast_small:
  assumes "unat v < 2 ^ LENGTH('w)"
  shows "ucast (ucast (v :: u64) :: 'w::len word) = v"
proof (rule word_unat_eq_iff [THEN iffD2])
  have "unat v < 2 ^ 64"
    using unsigned_less [of v, where ?'a = nat] by simp
  with assms show "unat (ucast (ucast v :: 'w word) :: u64) = unat v"
    by (simp add: unsigned_ucast_eq take_bit_nat_eq_self unsigned_take_bit_eq)
qed

lemma get_put_uint_lenenc: "get_uint_lenenc (put_uint_lenenc v @ rest) = Inr (v, rest)"
proof -
  consider (one) "v < 251" | (two) "\<not> v < 251" "v < 0x10000"
    | (three) "\<not> v < 251" "\<not> v < 0x10000" "v < 0x1000000"
    | (eight) "\<not> v < 251" "\<not> v < 0x10000" "\<not> v < 0x1000000" by blast
  then show ?thesis
  proof cases
    case one
    then have u: "unat v < 251" by (simp add: word_less_nat_alt)
    then have "unat (ucast v :: byte) = unat v"
      by (simp add: unsigned_ucast_eq take_bit_nat_eq_self)
    with u have "(ucast v :: byte) \<noteq> 0xfc" "(ucast v :: byte) \<noteq> 0xfd" "(ucast v :: byte) \<noteq> 0xfe"
      by (auto simp: word_unat_eq_iff)
    moreover have "ucast (ucast v :: byte) = v"
      by (rule ucast_small) (use u in simp)
    ultimately show ?thesis
      using one by (simp add: get_uint_lenenc_def put_uint_lenenc_def)
  next
    case two
    have "ucast (ucast v :: u16) = v"
      by (rule ucast_small) (use two in \<open>simp add: word_less_nat_alt\<close>)
    with two show ?thesis
      by (simp add: get_uint_lenenc_def put_uint_lenenc_def u16_field.get_put)
  next
    case three
    then show ?thesis
      by (simp add: get_uint_lenenc_def put_uint_lenenc_def try_get_u24_put)
  next
    case eight
    then show ?thesis
      by (simp add: get_uint_lenenc_def put_uint_lenenc_def u64_field.get_put)
  qed
qed

interpretation lenenc_field: wire_field "\<lambda>_. True" put_uint_lenenc get_uint_lenenc
  by unfold_locales (rule get_put_uint_lenenc)

subsection \<open>Byte sequences and strings\<close>

lemma get_bytes_append [simp]: "length bs = n \<Longrightarrow> get_bytes n (bs @ rest) = Inr (bs, rest)"
  by (simp add: get_bytes_def)

lemma get_bytes_all [simp]: "get_bytes (length bs) bs = Inr (bs, [])"
  by (simp add: get_bytes_def)

lemma skip_append [simp]: "length bs = n \<Longrightarrow> skip n (bs @ rest) = Inr ((), rest)"
  by (simp add: skip_def)

lemma skip_1_Cons [simp]: "skip (Suc 0) (b # rest) = Inr ((), rest)"
  by (simp add: skip_def get_bytes_def)

definition fits_lenenc :: "bytes \<Rightarrow> bool" where
  "fits_lenenc bs \<longleftrightarrow> length bs < 2 ^ 64"

interpretation bytes_field: wire_field fits_lenenc put_bytes_lenenc get_bytes_lenenc
proof
  fix x rest
  assume "fits_lenenc x"
  then have "unat (word_of_nat (length x) :: u64) = length x"
    by (simp add: fits_lenenc_def unat_of_nat)
  then show "get_bytes_lenenc (put_bytes_lenenc x @ rest) = Inr (x, rest)"
    by (simp add: get_bytes_lenenc_def put_bytes_lenenc_def lenenc_size_def lenenc_field.get_put)
qed

text \<open>A string that can be written with a terminating NUL.\<close>

definition nul_free :: "string \<Rightarrow> bool" where
  "nul_free s \<longleftrightarrow> 0 \<notin> set (as_bytes s)"

lemma get_bytes_nul_append:
  assumes "0 \<notin> set bs"
  shows "get_bytes_nul (bs @ 0 # rest) = Inr (bs, rest)"
proof -
  have "\<forall>b\<in>set bs. b \<noteq> 0" using assms by metis
  then show ?thesis
    by (simp add: get_bytes_nul_def takeWhile_append2 dropWhile_append2)
qed

interpretation str_field: wire_field "\<lambda>s. is_str s \<and> nul_free s" put_str_nul get_str_nul
  by unfold_locales
    (simp add: get_str_nul_def put_str_nul_def nul_free_def get_bytes_nul_append utf8_as_bytes)

lemma get_str_all: "is_str s \<Longrightarrow> get_str (length s) (as_bytes s) = Inr (s, [])"
  using get_bytes_all [of "as_bytes s"] by (simp add: get_str_def utf8_as_bytes)

subsection \<open>What readers take\<close>

interpretation bytes_taken: prefix_reader "get_bytes n"
  by unfold_locales (auto simp: get_bytes_def split: if_splits intro: append_take_drop_id [symmetric])

interpretation word_taken: prefix_reader "try_get_le n"
  by unfold_locales (metis try_get_le_prefix)

lemma get_bytes_nul_split:
  assumes "get_bytes_nul buf = Inr (v, rest)"
  shows "buf = v @ 0 # rest" and "0 \<notin> set v"
proof -
  have "0 \<in> set buf" and v: "v = takeWhile (\<lambda>b. b \<noteq> 0) buf"
    and rest: "rest = tl (dropWhile (\<lambda>b. b \<noteq> 0) buf)"
    using assms by (auto simp: get_bytes_nul_def split: if_splits)
  then obtain b bs where d: "dropWhile (\<lambda>b. b \<noteq> 0) buf = b # bs"
    by (cases "dropWhile (\<lambda>b. b \<noteq> 0) buf") (auto simp: dropWhile_eq_Nil_conv)
  then have "b = 0" using hd_dropWhile [of "\<lambda>b. b \<noteq> 0" buf] by simp
  with d v rest show "buf = v @ 0 # rest"
    using takeWhile_dropWhile_id [of "\<lambda>b. b \<noteq> 0" buf] by simp
  show "0 \<notin> set v" unfolding v by (auto dest: set_takeWhileD)
qed

lemma get_str_nul_split:
  assumes "get_str_nul buf = Inr (s, rest)"
  shows "buf = put_str_nul s @ rest" and "is_str s" and "nul_free s"
proof -
  from assms obtain v where v: "get_bytes_nul buf = Inr (v, rest)" "utf8 v = Inr s"
    by (auto simp: get_str_nul_def elim!: read_then_InrE split: sum.splits)
  then have "as_bytes s = v" and "is_str s" by (auto dest: utf8_InrD)
  with get_bytes_nul_split [OF v(1)] show "buf = put_str_nul s @ rest" "is_str s" "nul_free s"
    by (auto simp: put_str_nul_def nul_free_def)
qed

interpretation str_taken: prefix_reader get_str_nul
  by unfold_locales (metis get_str_nul_split(1))

lemma get_uint_lenenc_split: "get_uint_lenenc buf = Inr (v, rest) \<Longrightarrow> \<exists>used. buf = used @ rest"
  by (cases buf)
    (auto simp: get_uint_lenenc_def try_get_u16_le_def try_get_u64_le_def elim!: read_then_InrE
      split: if_splits dest!: word_taken.takes_prefix)

interpretation lenenc_taken: prefix_reader get_uint_lenenc
  by unfold_locales (rule get_uint_lenenc_split)

end
