(* ===== verification/Texts.thy ===== *)
theory Texts
  imports Wire
begin

text \<open>
  The operations of Rust's strings that the program uses on stored and configured values:
  \<open>strip_prefix\<close>, \<open>split_once\<close>, \<open>split\<close> and \<open>trim\<close>. A text is its UTF-8 bytes. The separators
  the program uses are ASCII characters, which UTF-8 never has inside another character.
\<close>

definition strip_prefix :: "string \<Rightarrow> string \<Rightarrow> string option" where
  "strip_prefix p s = (if take (length p) s = p then Some (drop (length p) s) else None)"

definition starts_with :: "string \<Rightarrow> string \<Rightarrow> bool" where
  "starts_with p s \<longleftrightarrow> take (length p) s = p"

definition split_once :: "char \<Rightarrow> string \<Rightarrow> (string \<times> string) option" where
  "split_once c s =
     (if c \<in> set s then Some (takeWhile (\<lambda>x. x \<noteq> c) s, drop 1 (dropWhile (\<lambda>x. x \<noteq> c) s)) else None)"

fun split_on :: "char \<Rightarrow> string \<Rightarrow> string list" where
  "split_on c [] = [[]]"
| "split_on c (x # xs) =
     (if x = c then [] # split_on c xs
      else case split_on c xs of [] \<Rightarrow> [[x]] | y # ys \<Rightarrow> (x # y) # ys)"

text \<open>The characters with the property \<open>White_Space\<close>, in UTF-8.\<close>

definition white_space :: "bytes list" where
  "white_space =
     [[9], [10], [11], [12], [13], [32], [0xC2, 0x85], [0xC2, 0xA0], [0xE1, 0x9A, 0x80]]
     @ map (\<lambda>b. [0xE2, 0x80, b]) [0x80, 0x81, 0x82, 0x83, 0x84, 0x85, 0x86, 0x87, 0x88, 0x89, 0x8A, 0xA8, 0xA9, 0xAF]
     @ [[0xE2, 0x81, 0x9F], [0xE3, 0x80, 0x80]]"

text \<open>Taking characters of a list off the front, for as long as one is there.\<close>

function trim_front :: "bytes list \<Rightarrow> bytes \<Rightarrow> bytes" where
  "trim_front ws s =
     (case find (\<lambda>w. w \<noteq> [] \<and> take (length w) s = w) ws of
        None \<Rightarrow> s
      | Some w \<Rightarrow> trim_front ws (drop (length w) s))"
  by pat_completeness auto

termination
proof (relation "measure (\<lambda>(_, s). length s)", goal_cases)
  case (2 ws s w)
  then have "w \<noteq> []" "take (length w) s = w" by (auto simp: find_Some_iff)
  then have "0 < length w" "length w \<le> length s"
    by (auto, metis length_take min.absorb_iff2 min.commute nat_le_linear)
  then have "length s - length w < length s" by (intro diff_less) auto
  then show ?case by simp
qed simp

declare trim_front.simps [simp del]

definition trim :: "string \<Rightarrow> string" where
  "trim s =
     (let front = trim_front white_space (as_bytes s)
      in of_bytes (rev (trim_front (map rev white_space) (rev front))))"

section \<open>Laws\<close>

lemma strip_prefix_append [simp]: "strip_prefix p (p @ s) = Some s"
  by (simp add: strip_prefix_def)

lemma strip_prefix_SomeD: "strip_prefix p s = Some r \<Longrightarrow> s = p @ r"
  by (metis append_take_drop_id option.distinct(1) option.inject strip_prefix_def)

lemma starts_with_iff: "starts_with p s \<longleftrightarrow> (\<exists>r. s = p @ r)"
  unfolding starts_with_def by (metis append_eq_conv_conj)

lemma strip_prefix_None_iff: "strip_prefix p s = None \<longleftrightarrow> \<not> starts_with p s"
  by (simp add: strip_prefix_def starts_with_def)

lemma split_once_append [simp]: "c \<notin> set a \<Longrightarrow> split_once c (a @ c # b) = Some (a, b)"
proof -
  assume "c \<notin> set a"
  then have "takeWhile (\<lambda>x. x \<noteq> c) (a @ c # b) = a" "dropWhile (\<lambda>x. x \<noteq> c) (a @ c # b) = c # b"
    by (induction a) auto
  then show ?thesis by (simp add: split_once_def)
qed

lemma split_once_SomeD:
  assumes "split_once c s = Some (a, b)"
  shows "s = a @ c # b \<and> c \<notin> set a"
proof -
  have c: "c \<in> set s" and a: "a = takeWhile (\<lambda>x. x \<noteq> c) s" and b: "b = drop 1 (dropWhile (\<lambda>x. x \<noteq> c) s)"
    using assms by (auto simp: split_once_def split: if_splits)
  have "dropWhile (\<lambda>x. x \<noteq> c) s \<noteq> []" using c by (auto simp: dropWhile_eq_Nil_conv)
  moreover from this have "hd (dropWhile (\<lambda>x. x \<noteq> c) s) = c"
    using hd_dropWhile [of "\<lambda>x. x \<noteq> c" s] by blast
  ultimately have "dropWhile (\<lambda>x. x \<noteq> c) s = c # b" unfolding b by (cases "dropWhile (\<lambda>x. x \<noteq> c) s") auto
  then show ?thesis unfolding a using takeWhile_dropWhile_id [of "\<lambda>x. x \<noteq> c" s] set_takeWhileD by fastforce
qed

lemma split_once_None_iff: "split_once c s = None \<longleftrightarrow> c \<notin> set s"
  by (simp add: split_once_def)

lemma split_on_not_Nil [simp]: "split_on c s \<noteq> []"
  by (cases s) (auto split: list.split)

lemma split_on_free: "c \<notin> set s \<Longrightarrow> split_on c s = [s]"
  by (induction s) auto

lemma split_on_append: "c \<notin> set a \<Longrightarrow> split_on c (a @ c # b) = a # split_on c b"
  by (induction a) auto

lemma split_on_concat: "s \<in> set (split_on c t) \<Longrightarrow> c \<notin> set s"
  by (induction t arbitrary: s) (auto split: list.splits if_splits)

text \<open>A text that begins and ends with visible ASCII characters is trimmed already.\<close>

lemma trim_front_kept:
  assumes "\<forall>w\<in>set ws. w \<noteq> [] \<longrightarrow> hd w \<noteq> hd s"
  shows "trim_front ws s = s"
proof -
  have "take (length w) s \<noteq> w" if "w \<in> set ws" "w \<noteq> []" for w
    using assms that by (cases s; cases w) auto
  then have "find (\<lambda>w. w \<noteq> [] \<and> take (length w) s = w) ws = None"
    by (auto simp: find_None_iff)
  then show ?thesis by (simp add: trim_front.simps)
qed

lemma trim_visible:
  assumes "s \<noteq> []" and "hd (as_bytes s) \<in> {33..<128}" and "last (as_bytes s) \<in> {33..<128}"
  shows "trim s = s"
proof -
  have ws: "\<forall>w\<in>set white_space. w \<noteq> [] \<longrightarrow> hd w \<notin> {33..<128}"
    "\<forall>w\<in>set (map rev white_space). w \<noteq> [] \<longrightarrow> hd w \<notin> {33..<128}"
    by (auto simp: white_space_def)
  have "as_bytes s \<noteq> []" using assms(1) by (simp add: as_bytes_def)
  then have "hd (rev (as_bytes s)) = last (as_bytes s)" by (simp add: hd_rev)
  with assms(2,3) ws have "trim_front white_space (as_bytes s) = as_bytes s"
    "trim_front (map rev white_space) (rev (as_bytes s)) = rev (as_bytes s)"
    by (intro trim_front_kept, metis)+
  then show ?thesis by (simp add: trim_def)
qed

lemma split_on_cover: "x \<in> set t \<Longrightarrow> x \<noteq> c \<Longrightarrow> \<exists>s\<in>set (split_on c t). x \<in> set s"
proof (induction t)
  case (Cons y t)
  then show ?case by (cases "split_on c t") auto
qed simp

end
