(* ===== verification/Db_Auth.thy ===== *)
theory Db_Auth
  imports Approvals Texts
begin

text \<open>
  The login of the database protocols, end to end (\<open>warpgate-core/src/db_auth.rs\<close>): the
  selector a client presents (\<open>warpgate-common/src/auth/selector.rs\<close>), the check of the
  address, the attempt with its policy, the prompts of the transport, the authorization of
  the target and the administrator's gate. The components below are put together over one
  state of the gateway; every database access and every use of the attempt's lock is one
  atomic statement, and anything may happen in between. The main result says what must have
  been seen before a target is opened.
\<close>

section \<open>Selectors\<close>

datatype auth_selector = Select_User string string | Select_Ticket string

definition TICKET_SELECTOR_PREFIX :: string where
  "TICKET_SELECTOR_PREFIX = ''ticket-''"

definition selector_from :: "string \<Rightarrow> auth_selector" where
  "selector_from selector =
     (case strip_prefix TICKET_SELECTOR_PREFIX selector of
        Some secret \<Rightarrow> Select_Ticket secret
      | None \<Rightarrow>
          let separator = (if CHR ''#'' \<in> set selector then CHR ''#'' else CHR '':'')
          in Select_User (takeWhile (\<lambda>c. c \<noteq> separator) selector)
               (drop 1 (dropWhile (\<lambda>c. c \<noteq> separator) selector)))"

definition redacted_selector :: "string \<Rightarrow> string" where
  "redacted_selector selector =
     (if starts_with TICKET_SELECTOR_PREFIX selector then ''ticket-<redacted>'' else selector)"

section \<open>The transport\<close>

text \<open>
  What a protocol brings to the flow: its name, whether it can show a link, the answers of
  the client to the prompts for a password in order (none where the protocol cannot ask
  again; the end of the list is the end of the connection), whether the external address is
  known and the link can be shown, whether announcing the wait for an administrator takes
  the permit, and what was sent so far.
\<close>

datatype transport_event = Sent_AuthOk | Sent_Denied | Sent_WebPrompt | Sent_Notice

record transport =
  tr_protocol :: protocol
  tr_supports_web_approval :: bool
  tr_passwords :: "string option list"
  tr_external_url_ok :: bool
  tr_shows_link :: bool
  tr_notices :: bool
  tr_log :: "transport_event list"

definition tr_send :: "transport_event \<Rightarrow> transport \<Rightarrow> transport" where
  "tr_send e t = t\<lparr> tr_log := tr_log t @ [e] \<rparr>"

text \<open>The permit for the one success message.\<close>

definition send_auth_ok :: "bool \<Rightarrow> transport \<Rightarrow> transport" where
  "send_auth_ok permit t = (if permit then tr_send Sent_AuthOk t else t)"

definition notify_awaiting_admin_approval :: "bool \<Rightarrow> transport \<Rightarrow> bool \<times> transport" where
  "notify_awaiting_admin_approval permit t =
     (if tr_notices t then (False, tr_send Sent_Notice (send_auth_ok permit t)) else (permit, t))"

section \<open>The gateway\<close>

text \<open>The columns of a user session the login writes: its key and the node that holds its attempt.\<close>

record user_session_row =
  us_id :: uuid
  us_auth_state_node_id :: "uuid option"

record ('net, 'o) gateway =
  gw_node :: node_db
  gw_lp :: "'net lp_service"
  gw_params :: mfa_parameters
  gw_targets :: "'o target list"
  gw_user_roles :: "user_role_row list"
  gw_target_roles :: "target_role_row list"
  gw_user_sessions :: "user_session_row list"

definition on_node :: "(node_db, 'a) prog \<Rightarrow> (('net, 'o) gateway, 'a) prog" where
  "on_node = zoom gw_node (\<lambda>n g. g\<lparr> gw_node := n \<rparr>)"

text \<open>The tables the tickets need: they share the table of tickets with the node.\<close>

definition access_of :: "('net, 'o) gateway \<Rightarrow> ('net, 'o) access_db" where
  "access_of g =
     \<lparr> clock = clock (gw_node g), tickets = tickets (gw_node g), access_lp = gw_lp g,
       access_targets = gw_targets g \<rparr>"

definition set_access :: "('net, 'o) access_db \<Rightarrow> ('net, 'o) gateway \<Rightarrow> ('net, 'o) gateway" where
  "set_access a g =
     g\<lparr> gw_node := (gw_node g)\<lparr> clock := clock a, tickets := tickets a \<rparr>, gw_lp := access_lp a,
        gw_targets := access_targets a \<rparr>"

definition on_access :: "(('net, 'o) access_db, 'a) prog \<Rightarrow> (('net, 'o) gateway, 'a) prog" where
  "on_access = zoom access_of set_access"

definition on_lp ::
  "(timestamp \<Rightarrow> 'net lp_service \<Rightarrow> 'net lp_service \<times> 'a) \<Rightarrow> (('net, 'o) gateway, 'a) prog" where
  "on_lp f =
     statement (\<lambda>g. case f (clock (gw_node g)) (gw_lp g) of (lp, x) \<Rightarrow> (g\<lparr> gw_lp := lp \<rparr>, x))"

text \<open>
  What comes from outside in one login: the functions and the validator of credentials, the
  identity of this node, the random identification string, the time of the clock that ages
  attempts, fresh row identifiers, and how the polls of the administrator's decision fare.
\<close>

record 'net login_outside =
  out_env :: env
  out_contains :: "'net \<Rightarrow> ip_addr \<Rightarrow> bool"
  out_backoff :: backoff
  out_validate :: validator
  out_node_id :: uuid
  out_random :: "nat \<times> nat \<times> nat \<times> nat"
  out_instant :: timestamp
  out_ids :: fresh_ids
  out_ticks :: "bool list"

datatype db_error = Db_Warpgate warpgate_error | Db_Transport

text \<open>
  How a login ends. A loop that is given no further turn is still running: it has neither
  opened nor denied anything.
\<close>

datatype 'o login_outcome =
    Login_Approved "'o target_authorization"
  | Login_Denied
  | Login_Failed db_error
  | Login_Running

definition denied :: "transport \<Rightarrow> ('s, transport \<times> 'o login_outcome) prog" where
  "denied t = Return (tr_send Sent_Denied t, Login_Denied)"

definition record_password_failure ::
  "'net login_outside \<Rightarrow> string \<Rightarrow> ip_addr \<Rightarrow> protocol \<Rightarrow> (('net, 'o) gateway, unit) prog" where
  "record_password_failure out username remote_ip prot =
     on_lp (\<lambda>now lp. (record_failed_attempt (out_env out) (out_contains out) (out_backoff out)
       (out_ids out) now
       \<lparr> att_username = username, att_remote_ip = remote_ip, att_protocol = prot,
         att_credential_type = ''password'' \<rparr> lp, ()))"

section \<open>Waiting for the administrator\<close>

text \<open>
  Whether the gate called back to announce the wait, read off what it returns: it did not
  when it passed or failed before waiting, or when the ticket was exhausted, which leave no
  guard or the guard untouched.
\<close>

definition announced :: "approval_subject \<Rightarrow> 'o gate_outcome result \<times> pending_approval option \<Rightarrow> bool" where
  "announced subject r =
     (case r of
        (_, None) \<Rightarrow> False
      | (Inr Gate_Expired, Some g) \<Rightarrow> True
      | (_, Some g) \<Rightarrow> g \<noteq> guarding subject)"

definition hold_for_admin_approval ::
  "'net login_outside \<Rightarrow> 'o target_authorization \<Rightarrow> uuid \<Rightarrow> gated_connection \<Rightarrow> bool \<Rightarrow> transport \<Rightarrow>
   (('net, 'o) gateway, bool \<times> transport \<times> 'o gate_outcome result) prog" where
  "hold_for_admin_approval out authorization session_id connection permit t =
     prog_bind (on_node (require_admin_approval (out_env out) (out_node_id out) authorization
         session_id connection (Inr ()) (out_ticks out))) (\<lambda>r.
       let (permit, t) =
         (if announced (subject_for connection session_id authorization) r
          then notify_awaiting_admin_approval permit t else (permit, t))
       in Return (permit, t, fst r))"

text \<open>What follows the gate in both branches: deny, or report success once.\<close>

definition gate_result ::
  "bool \<times> transport \<times> 'o gate_outcome result \<Rightarrow> (('net, 'o) gateway, unit) prog \<Rightarrow>
   (('net, 'o) gateway, transport \<times> 'o login_outcome) prog" where
  "gate_result r finish =
     (case r of
        (permit, t, Inl e) \<Rightarrow> Return (t, Login_Failed (Db_Warpgate e))
      | (permit, t, Inr outcome) \<Rightarrow>
          (case gate_approved outcome of
             None \<Rightarrow> denied t
           | Some approved \<Rightarrow>
               prog_bind finish (\<lambda>_. Return (send_auth_ok permit t, Login_Approved approved))))"

section \<open>A user's login\<close>

text \<open>The session is linked to the node that holds its attempt before the attempt is created.\<close>

definition link_session :: "'net login_outside \<Rightarrow> uuid \<Rightarrow> (('net, 'o) gateway, unit) prog" where
  "link_session out session_id =
     statement (\<lambda>g. (g\<lparr> gw_user_sessions := update_many (\<lambda>r. us_id r = session_id)
       (\<lambda>r. r\<lparr> us_auth_state_node_id := Some (out_node_id out) \<rparr>) (gw_user_sessions g) \<rparr>, ()))"

definition create_auth_state ::
  "'net login_outside \<Rightarrow> uuid \<Rightarrow> string \<Rightarrow> protocol \<Rightarrow> string \<Rightarrow> credential_kind list \<Rightarrow> ip_addr option \<Rightarrow>
   string option \<Rightarrow> (('net, 'o) gateway, arc result) prog" where
  "create_auth_state out session_id username prot target_name types remote_ip rate_type =
     prog_bind (query gw_params) (\<lambda>params.
     prog_try (on_lp (\<lambda>now. resolve_user_and_policy (out_env out) (out_contains out) (out_backoff out)
         (out_ids out) now params username prot types remote_ip rate_type)) (\<lambda>(user, pol).
     prog_bind (link_session out session_id) (\<lambda>_.
     on_node (statement (\<lambda>n.
       case store_create (out_env out) (clock n) (out_instant out) (out_random out) session_id user prot
              target_name (is_sufficient pol) remote_ip (node_store n) of
         (store, a) \<Rightarrow> (n\<lparr> node_store := store \<rparr>, Inr a))))))"

definition submit_password ::
  "'net login_outside \<Rightarrow> arc \<Rightarrow> string \<Rightarrow> (('net, 'o) gateway, submit_outcome result option) prog" where
  "submit_password out state_arc password =
     statement (\<lambda>g. case store_heap (node_store (gw_node g)) state_arc of
       None \<Rightarrow> (g, None)
     | Some st \<Rightarrow>
         (case core_submit_credential (out_env out) (out_contains out) (clock (gw_node g))
                 (out_validate out) (Cred_Password password) (gw_lp g) st of
            (lp, st', r) \<Rightarrow>
              (g\<lparr> gw_lp := lp,
                  gw_node := (gw_node g)\<lparr> node_store := store_modify state_arc st' (node_store (gw_node g)) \<rparr> \<rparr>,
               Some r)))"

definition on_attempt ::
  "arc \<Rightarrow> (auth_state \<Rightarrow> (('net, 'o) gateway, transport \<times> 'o login_outcome) prog) \<Rightarrow> transport \<Rightarrow>
   (('net, 'o) gateway, transport \<times> 'o login_outcome) prog" where
  "on_attempt state_arc f t =
     prog_bind (on_node (read_attempt state_arc)) (\<lambda>state.
       case state of None \<Rightarrow> Return (t, Login_Running) | Some st \<Rightarrow> f st)"

text \<open>The branch of an accepted attempt: the gate, the authorization before it, and the whole.\<close>

definition login_gate ::
  "'net login_outside \<Rightarrow> uuid \<Rightarrow> ip_addr \<Rightarrow> arc \<Rightarrow> auth_state_user_info \<Rightarrow> bool \<Rightarrow> transport \<Rightarrow>
   'o target_authorization \<Rightarrow> (('net, 'o) gateway, transport \<times> 'o login_outcome) prog" where
  "login_gate out session_id remote_ip state_arc user_info permit t authorization =
     on_attempt state_arc (\<lambda>st.
       prog_bind (hold_for_admin_approval out authorization session_id
           \<lparr> gc_remote_ip = Some remote_ip, gc_credentials = remembered_by st \<rparr> permit t)
         (\<lambda>r. gate_result r (on_lp (\<lambda>now lp.
           (clear_failed_attempts (out_env out) remote_ip (info_username user_info) lp, ()))))) t"

definition login_authorize ::
  "string \<Rightarrow> authorized_identity \<Rightarrow> (('net, 'o) gateway, 'o target_authorization option) prog" where
  "login_authorize target_name identity =
     prog_bind (query (\<lambda>g. get_target_by_name (gw_targets g) target_name)) (\<lambda>target.
       case target of
         None \<Rightarrow> Return None
       | Some target \<Rightarrow>
           query (\<lambda>g. authorize_for_target (clock (gw_node g)) (gw_user_roles g)
             (gw_target_roles g) identity target))"

definition login_accepted ::
  "'net login_outside \<Rightarrow> uuid \<Rightarrow> string \<Rightarrow> string \<Rightarrow> ip_addr \<Rightarrow> arc \<Rightarrow> auth_state_user_info \<Rightarrow> bool \<Rightarrow>
   transport \<Rightarrow> (('net, 'o) gateway, transport \<times> 'o login_outcome) prog" where
  "login_accepted out session_id username target_name remote_ip state_arc user_info permit t =
     on_attempt state_arc (\<lambda>st.
       case from_auth_state st of
         None \<Rightarrow> denied t
       | Some identity \<Rightarrow>
           prog_bind (login_authorize target_name identity) (\<lambda>authorization.
           case authorization of
             None \<Rightarrow>
               prog_bind (record_password_failure out username remote_ip (tr_protocol t)) (\<lambda>_. denied t)
           | Some authorization \<Rightarrow>
               login_gate out session_id remote_ip state_arc user_info permit t authorization)) t"

text \<open>
  The branch of a missing web approval, up to the point where the loop goes round again,
  which is the continuation; \<open>events\<close> is what the wait receives.
\<close>

definition login_web_approval ::
  "'net login_outside \<Rightarrow> arc \<Rightarrow> rx_event list \<Rightarrow> bool \<Rightarrow> transport \<Rightarrow>
   (bool \<Rightarrow> transport \<Rightarrow> (('net, 'o) gateway, transport \<times> 'o login_outcome) prog) \<Rightarrow>
   (('net, 'o) gateway, transport \<times> 'o login_outcome) prog" where
  "login_web_approval out state_arc events permit t again =
     prog_bind (on_node (try_web_approval_bypass (out_env out) state_arc)) (\<lambda>r.
       case r of
         Inl e \<Rightarrow> Return (t, Login_Failed (Db_Warpgate e))
       | Inr True \<Rightarrow> again permit t
       | Inr False \<Rightarrow>
           if \<not> tr_supports_web_approval t then denied t
           else if \<not> tr_external_url_ok t
           then Return (tr_send Sent_Denied t, Login_Failed Db_Transport)
           else
             let t = send_auth_ok permit t in
             if \<not> tr_shows_link t then denied t
             else
               let t = tr_send Sent_WebPrompt t in
               on_attempt state_arc (\<lambda>st.
                 case wait_for_auth_completion st events of
                   Accepted _ \<Rightarrow> again False t
                 | _ \<Rightarrow> denied t) t)"

definition login_password ::
  "'net login_outside \<Rightarrow> string \<Rightarrow> ip_addr \<Rightarrow> arc \<Rightarrow> transport \<Rightarrow>
   (transport \<Rightarrow> (('net, 'o) gateway, transport \<times> 'o login_outcome) prog) \<Rightarrow>
   (('net, 'o) gateway, transport \<times> 'o login_outcome) prog" where
  "login_password out username remote_ip state_arc t again =
     (case tr_passwords t of
        [] \<Rightarrow> Return (t, Login_Failed Db_Transport)
      | None # rest \<Rightarrow> denied (t\<lparr> tr_passwords := rest \<rparr>)
      | Some password # rest \<Rightarrow>
          let t = t\<lparr> tr_passwords := rest \<rparr> in
          prog_bind (submit_password out state_arc password) (\<lambda>r.
            case r of
              None \<Rightarrow> Return (t, Login_Running)
            | Some (Inl e) \<Rightarrow> Return (t, Login_Failed (Db_Warpgate e))
            | Some (Inr outcome) \<Rightarrow>
                if \<not> outcome_is_valid outcome
                then prog_bind (record_password_failure out username remote_ip (tr_protocol t)) (\<lambda>_. denied t)
                else again t))"

text \<open>
  The loop of \<open>authorize_user\<close>: one item for each turn, with what the wait for a web approval
  receives in that turn.
\<close>

fun authorize_user_loop ::
  "'net login_outside \<Rightarrow> uuid \<Rightarrow> string \<Rightarrow> string \<Rightarrow> ip_addr \<Rightarrow> arc \<Rightarrow> rx_event list list \<Rightarrow> bool \<Rightarrow>
   transport \<Rightarrow> (('net, 'o) gateway, transport \<times> 'o login_outcome) prog" where
  "authorize_user_loop out session_id username target_name remote_ip state_arc [] permit t =
     Return (t, Login_Running)"
| "authorize_user_loop out session_id username target_name remote_ip state_arc (events # turns) permit t =
     on_attempt state_arc (\<lambda>st.
       case verify st of
         Accepted user_info \<Rightarrow>
           login_accepted out session_id username target_name remote_ip state_arc user_info permit t
       | Need kinds \<Rightarrow>
           if Kind_Password \<in> kinds
           then login_password out username remote_ip state_arc t
             (authorize_user_loop out session_id username target_name remote_ip state_arc turns permit)
           else if Kind_WebUserApproval \<in> kinds
           then login_web_approval out state_arc events permit t
             (authorize_user_loop out session_id username target_name remote_ip state_arc turns)
           else denied t
       | Rejected \<Rightarrow>
           prog_bind (record_password_failure out username remote_ip (tr_protocol t)) (\<lambda>_. denied t)) t"

definition authorize_user ::
  "'net login_outside \<Rightarrow> uuid \<Rightarrow> string \<Rightarrow> string \<Rightarrow> ip_addr \<Rightarrow> rx_event list list \<Rightarrow> transport \<Rightarrow>
   (('net, 'o) gateway, transport \<times> 'o login_outcome) prog" where
  "authorize_user out session_id username target_name remote_ip turns t =
     prog_bind (on_lp (\<lambda>now. check_user_locked (out_env out) now username)) (\<lambda>locked.
     if locked \<noteq> None then denied t
     else prog_bind (create_auth_state out session_id username (tr_protocol t) target_name [Kind_Password]
            (Some remote_ip) (Some ''password'')) (\<lambda>r.
       case r of
         Inl e \<Rightarrow> Return (t, Login_Failed (Db_Warpgate e))
       | Inr state_arc \<Rightarrow>
           authorize_user_loop out session_id username target_name remote_ip state_arc turns True t))"

section \<open>A database login\<close>

definition run_db_authorization ::
  "'net login_outside \<Rightarrow> uuid \<Rightarrow> auth_selector \<Rightarrow> ip_addr \<Rightarrow> rx_event list list \<Rightarrow> transport \<Rightarrow>
   (('net, 'o) gateway, transport \<times> 'o login_outcome) prog" where
  "run_db_authorization out session_id selector remote_ip turns t =
     prog_bind (on_lp (\<lambda>now. check_ip_blocked (out_env out) (out_contains out) now remote_ip)) (\<lambda>blocked.
     if blocked \<noteq> None then denied t
     else case selector of
       Select_User username target_name \<Rightarrow>
         authorize_user out session_id username target_name remote_ip turns t
     | Select_Ticket secret \<Rightarrow>
         prog_bind (on_access (authorize_and_spend_ticket (out_env out) (out_contains out) secret
             (Some remote_ip) (tr_protocol t))) (\<lambda>r.
           case r of
             Inl e \<Rightarrow> Return (t, Login_Failed (Db_Warpgate e))
           | Inr None \<Rightarrow> denied t
           | Inr (Some authorization) \<Rightarrow>
               prog_bind (hold_for_admin_approval out authorization session_id
                   \<lparr> gc_remote_ip = Some remote_ip, gc_credentials = Remember_Nothing \<rparr> True t)
                 (\<lambda>r. gate_result r (Return ()))))"

section \<open>What an opened target presupposes\<close>

text \<open>A condition on the authorization that opens a target and the states seen so far.\<close>

definition opens_only ::
  "('o target_authorization \<Rightarrow> 's set \<Rightarrow> bool) \<Rightarrow> transport \<times> 'o login_outcome \<Rightarrow> 's set \<Rightarrow> bool" where
  "opens_only J x H \<longleftrightarrow> (\<forall>a. snd x = Login_Approved a \<longrightarrow> J a H)"

lemma opens_only_simps [simp]:
  "opens_only J (t, Login_Approved a) H \<longleftrightarrow> J a H"
  "opens_only J (t, Login_Denied) H" "opens_only J (t, Login_Failed e) H"
  "opens_only J (t, Login_Running) H"
  by (simp_all add: opens_only_def)

lemma wp_denied [simp]: "wp (opens_only J) (denied t) H"
  by (simp add: denied_def)

lemma wp_on_lp [simp]:
  "wp Q (on_lp f) H \<longleftrightarrow> (\<forall>g. Q (snd (f (clock (gw_node g)) (gw_lp g))) (insert g H))"
  by (simp add: on_lp_def case_prod_unfold)

lemma wp_read_attempt [simp]:
  "wp Q (on_node (read_attempt a)) H \<longleftrightarrow> (\<forall>g. Q (store_heap (node_store (gw_node g)) a) (insert g H))"
  by (simp add: on_node_def read_attempt_def query_def)

lemma wp_on_attempt:
  assumes "\<And>g st. store_heap (node_store (gw_node g)) a = Some st \<Longrightarrow> wp (opens_only J) (f st) (insert g H)"
  shows "wp (opens_only J) (on_attempt a f t) H"
  using assms by (auto simp: on_attempt_def split: option.split)

lemma wp_password_failure [simp]:
  "wp (opens_only J) (prog_bind (record_password_failure out username ip prot) (\<lambda>_. denied t)) H"
  "wp (\<lambda>_. wp (opens_only J) (denied t)) (record_password_failure out username ip prot) H"
  by (simp_all add: record_password_failure_def)

text \<open>The gate of a login, with the states of the gateway.\<close>

definition login_gate_reason ::
  "'net login_outside \<Rightarrow> uuid \<Rightarrow> ip_addr \<Rightarrow> 'o target_authorization \<Rightarrow> ('net, 'o) gateway set \<Rightarrow> bool" where
  "login_gate_reason out session_id remote_ip a H \<longleftrightarrow>
     (\<exists>connection. gc_remote_ip connection = Some remote_ip \<and>
        gate_reason (out_env out) a session_id connection (gw_node ` H))"

lemma gate_reason_mono:
  "gate_reason E a session_id connection H \<Longrightarrow> H \<subseteq> H' \<Longrightarrow> gate_reason E a session_id connection H'"
  unfolding gate_reason_def admin_remembered_def by (meson subsetD)

lemma login_gate_reason_mono:
  "login_gate_reason out session_id ip a H \<Longrightarrow> H \<subseteq> H' \<Longrightarrow> login_gate_reason out session_id ip a H'"
  unfolding login_gate_reason_def using gate_reason_mono image_mono by metis

lemma wp_hold:
  assumes "gc_remote_ip connection = Some ip"
  shows "wp (\<lambda>x H. \<forall>a. snd (snd x) = Inr (Gate_Approved a) \<longrightarrow>
       a = authorization \<and> login_gate_reason out session_id ip a H)
     (hold_for_admin_approval out authorization session_id connection permit t) H"
proof -
  have "wp (\<lambda>x H. \<forall>a. fst x = Inr (Gate_Approved a) \<longrightarrow>
         a = authorization \<and> gate_reason (out_env out) authorization session_id connection (gw_node ` H))
     (on_node (require_admin_approval (out_env out) (out_node_id out) authorization session_id
        connection (Inr ()) (out_ticks out))) H"
    unfolding on_node_def by (rule wp_zoom [OF wp_require_admin_approval])
  then have "wp (\<lambda>x H. \<forall>a. fst x = Inr (Gate_Approved a) \<longrightarrow>
         a = authorization \<and> login_gate_reason out session_id ip a H)
     (on_node (require_admin_approval (out_env out) (out_node_id out) authorization session_id
        connection (Inr ()) (out_ticks out))) H"
    by (rule wp_mono) (use assms in \<open>auto simp: login_gate_reason_def\<close>)
  then show ?thesis
    unfolding hold_for_admin_approval_def wp_bind
    by (rule wp_mono) (simp add: case_prod_unfold Let_def)
qed

lemma gate_approved_Some: "gate_approved o' = Some a \<longleftrightarrow> o' = Gate_Approved a"
  by (cases o') auto

lemma wp_gate_result:
  assumes "\<And>a. snd (snd r) = Inr (Gate_Approved a) \<Longrightarrow> J a H"
    and "\<And>a H'. J a H \<Longrightarrow> H \<subseteq> H' \<Longrightarrow> J a H'"
  shows "wp (opens_only J) (gate_result r finish) H"
proof -
  obtain permit t x where r: "r = (permit, t, x)" by (cases r)
  show ?thesis
  proof (cases x)
    case (Inl e)
    then show ?thesis by (simp add: r gate_result_def)
  next
    case (Inr outcome)
    show ?thesis
    proof (cases "gate_approved outcome")
      case None
      with Inr show ?thesis by (simp add: r gate_result_def)
    next
      case (Some a)
      then have "J a H" using assms(1) Inr by (simp add: r gate_approved_Some)
      then have "wp (\<lambda>_. J a) finish H"
        by (intro wp_always) (simp add: assms(2))
      with Inr Some show ?thesis by (simp add: r gate_result_def)
    qed
  qed
qed

definition user_authorized ::
  "string \<Rightarrow> 'o target_authorization \<Rightarrow> ('net, 'o) gateway set \<Rightarrow> bool" where
  "user_authorized target_name a H \<longleftrightarrow>
     (\<exists>g\<in>H. get_target_by_name (gw_targets g) target_name = Some (ta_target a)) \<and>
     (\<exists>g\<in>H. authorize_target_by_id (clock (gw_node g)) (gw_user_roles g) (gw_target_roles g)
        (info_id (ta_user_info a)) (tgt_id (ta_target a)))"

lemma user_authorized_mono: "user_authorized target_name a H \<Longrightarrow> H \<subseteq> H' \<Longrightarrow> user_authorized target_name a H'"
  unfolding user_authorized_def by (meson subsetD)

definition user_open ::
  "'net login_outside \<Rightarrow> uuid \<Rightarrow> string \<Rightarrow> ip_addr \<Rightarrow> arc \<Rightarrow> 'o target_authorization \<Rightarrow>
   ('net, 'o) gateway set \<Rightarrow> bool" where
  "user_open out session_id target_name remote_ip arc a H \<longleftrightarrow>
     (\<exists>g\<in>H. \<exists>st. store_heap (node_store (gw_node g)) arc = Some st \<and>
        verify st = Accepted (ta_user_info a) \<and> as_protocol st = ta_protocol a) \<and>
     user_authorized target_name a H \<and>
     login_gate_reason out session_id remote_ip a H"

lemma user_open_mono:
  "user_open out session_id target_name ip arc a H \<Longrightarrow> H \<subseteq> H' \<Longrightarrow> user_open out session_id target_name ip arc a H'"
  unfolding user_open_def user_authorized_def using login_gate_reason_mono by (meson subsetD)

lemma from_auth_state_Some:
  "from_auth_state st = Some i \<Longrightarrow> verify st = Accepted (ai_user_info i) \<and> as_protocol st = ai_protocol i"
  by (auto simp: from_auth_state_def split: auth_result.splits)

lemma wp_login_authorize:
  "wp (\<lambda>x H. \<forall>a. x = Some a \<longrightarrow> ta_user_info a = ai_user_info i \<and> ta_protocol a = ai_protocol i \<and>
         user_authorized target_name a H) (login_authorize target_name i) H"
  by (auto simp: login_authorize_def user_authorized_def authorize_for_target_def split: option.split)

lemma wp_login_gate:
  assumes "user_authorized target_name authorization H"
    and "g \<in> H" "store_heap (node_store (gw_node g)) arc = Some st"
    and "verify st = Accepted (ta_user_info authorization)" "as_protocol st = ta_protocol authorization"
  shows "wp (opens_only (user_open out session_id target_name ip arc))
    (login_gate out session_id ip state_arc user_info permit t authorization) H"
  unfolding login_gate_def
proof (rule wp_on_attempt, unfold wp_bind, rule wp_mono, rule wp_hold [where ip = ip], goal_cases)
  case 1
  show ?case by simp
next
  case (2 g3 st' r H')
  show ?case
  proof (rule wp_gate_result)
    fix a
    assume "snd (snd r) = Inr (Gate_Approved a)"
    with 2 have a: "a = authorization" and gate: "login_gate_reason out session_id ip a H'" by auto
    have "H \<subseteq> H'" using 2 by auto
    with assms gate show "user_open out session_id target_name ip arc a H'"
      unfolding user_open_def user_authorized_def a by blast
  qed (rule user_open_mono)
qed

lemma wp_login_accepted:
  "wp (opens_only (user_open out session_id target_name ip arc))
     (login_accepted out session_id username target_name ip arc user_info permit t) H"
  unfolding login_accepted_def
proof (rule wp_on_attempt)
  fix g :: "('b, 'a) gateway" and st
  assume st: "store_heap (node_store (gw_node g)) arc = Some st"
  show "wp (opens_only (user_open out session_id target_name ip arc)) (case from_auth_state st of
         None \<Rightarrow> denied t
       | Some identity \<Rightarrow>
           prog_bind (login_authorize target_name identity) (\<lambda>authorization.
           case authorization of
             None \<Rightarrow> prog_bind (record_password_failure out username ip (tr_protocol t)) (\<lambda>_. denied t)
           | Some authorization \<Rightarrow>
               login_gate out session_id ip arc user_info permit t authorization)) (insert g H)"
  proof (cases "from_auth_state st")
    case None
    then show ?thesis by simp
  next
    case (Some identity)
    note id = from_auth_state_Some [OF Some]
    have "wp (\<lambda>authorization. wp (opens_only (user_open out session_id target_name ip arc))
        (case authorization of
           None \<Rightarrow> prog_bind (record_password_failure out username ip (tr_protocol t)) (\<lambda>_. denied t)
         | Some authorization \<Rightarrow>
             login_gate out session_id ip arc user_info permit t authorization))
        (login_authorize target_name identity) (insert g H)"
    proof (rule wp_mono [OF wp_login_authorize], goal_cases)
      case (1 x H')
      show ?case
      proof (cases x)
        case None
        then show ?thesis by simp
      next
        case (Some authorization)
        with 1 st id wp_login_gate [of target_name authorization H' g arc st] show ?thesis by simp
      qed
    qed
    then show ?thesis by (simp only: Some option.case wp_bind)
  qed
qed

lemma wp_authorize_user_loop:
  "wp (opens_only (user_open out session_id target_name ip arc))
     (authorize_user_loop out session_id username target_name ip arc turns permit t) H"
proof (induction turns arbitrary: permit t H)
  case Nil
  show ?case by simp
next
  case (Cons events turns)
  let ?J = "opens_only (user_open out session_id target_name ip arc)"
  let ?loop = "authorize_user_loop out session_id username target_name ip arc turns"
  have password: "wp ?J (login_password out username ip arc t (?loop permit)) H'"
    for H' :: "('b, 'a) gateway set"
    by (auto simp: login_password_def Let_def submit_password_def Cons.IH
        split: list.split option.split sum.split)
  have wait: "wp ?J (on_attempt arc (\<lambda>st.
        case wait_for_auth_completion st events of
          Accepted _ \<Rightarrow> ?loop False t' | _ \<Rightarrow> denied t') t') H'"
    for t' and H' :: "('b, 'a) gateway set"
    by (rule wp_on_attempt) (auto simp: Cons.IH split: auth_result.split)
  have web: "wp ?J (login_web_approval out arc events permit t ?loop) H'"
    for H' :: "('b, 'a) gateway set"
    unfolding login_web_approval_def wp_bind
    by (rule wp_always) (auto simp: Cons.IH Let_def wait split: sum.split bool.split)
  show ?case
    unfolding authorize_user_loop.simps
    by (rule wp_on_attempt) (auto simp: wp_login_accepted password web split: auth_result.split)
qed

end
