(* ===== verification/Db_Login.thy ===== *)
theory Db_Login
  imports Db_Auth
begin

text \<open>
  A database login together with the rest of the system. Whatever else runs between the
  statements of a login, the attempts on the node evolve only by the operations of the state
  machine (\<open>attempts_evolve\<close>), which every statement of the login keeps as well. So the
  attempt that was accepted is a later state of the one the login created, and the
  authorization it opens is for the user whose name was given, by a policy that was
  satisfied. The last section has what the client is told.
\<close>

section \<open>How attempts evolve\<close>

definition store_fresh :: "auth_state_store \<Rightarrow> bool" where
  "store_fresh st \<longleftrightarrow> (\<forall>a s. store_heap st a = Some s \<longrightarrow> a < store_next st)"

definition attempts_evolve :: "env \<Rightarrow> validator \<Rightarrow> auth_state_store \<Rightarrow> auth_state_store \<Rightarrow> bool" where
  "attempts_evolve E V st st' \<longleftrightarrow> (store_fresh st \<longrightarrow> store_fresh st' \<and>
     (\<forall>a s. store_heap st a = Some s \<longrightarrow> (\<exists>ops s'. store_heap st' a = Some s' \<and> auth_run E V ops s s')))"

lemma auth_run_append:
  "auth_run E V ops s t \<Longrightarrow> auth_run E V ops' t u \<Longrightarrow> auth_run E V (ops @ ops') s u"
  by (induction rule: auth_run.induct) (auto intro: auth_run.intros)

lemma auth_run_one: "auth_step E V op s t \<Longrightarrow> auth_run E V [op] s t"
  by (auto intro: auth_run.intros)

lemma evolveI:
  assumes "store_fresh st \<Longrightarrow> store_fresh st'"
    and "\<And>a s. store_fresh st \<Longrightarrow> store_heap st a = Some s \<Longrightarrow>
      \<exists>ops s'. store_heap st' a = Some s' \<and> auth_run E V ops s s'"
  shows "attempts_evolve E V st st'"
  using assms by (simp add: attempts_evolve_def)

lemma evolve_attempt:
  assumes "attempts_evolve E V st st'" and "store_fresh st" and "store_heap st a = Some s"
  obtains ops s' where "store_heap st' a = Some s'" "auth_run E V ops s s'"
  using assms unfolding attempts_evolve_def by meson

lemma evolve_fresh: "attempts_evolve E V st st' \<Longrightarrow> store_fresh st \<Longrightarrow> store_fresh st'"
  by (simp add: attempts_evolve_def)

lemma evolve_kept:
  assumes "store_fresh st \<Longrightarrow> store_fresh st'"
    and "\<And>a s. store_fresh st \<Longrightarrow> store_heap st a = Some s \<Longrightarrow> store_heap st' a = Some s"
  shows "attempts_evolve E V st st'"
  using assms by (blast intro: evolveI auth_run.run_nil)

lemma evolve_refl: "attempts_evolve E V st st"
  by (rule evolve_kept)

lemma evolve_trans:
  assumes "attempts_evolve E V st st'" and "attempts_evolve E V st' st''"
  shows "attempts_evolve E V st st''"
proof (rule evolveI)
  assume "store_fresh st"
  then show "store_fresh st''" by (intro evolve_fresh [OF assms(2)] evolve_fresh [OF assms(1)])
next
  fix a s
  assume fresh: "store_fresh st" and "store_heap st a = Some s"
  then obtain ops s' where s': "store_heap st' a = Some s'" "auth_run E V ops s s'"
    by (rule evolve_attempt [OF assms(1)])
  from evolve_fresh [OF assms(1) fresh] this(1)
  obtain ops' s'' where "store_heap st'' a = Some s''" "auth_run E V ops' s' s''"
    by (rule evolve_attempt [OF assms(2)])
  with s' show "\<exists>ops s''. store_heap st'' a = Some s'' \<and> auth_run E V ops s s''"
    using auth_run_append by blast
qed

lemma evolve_modify:
  assumes "store_heap st a = Some s" and "auth_run E V ops s s'"
  shows "attempts_evolve E V st (store_modify a s' st)"
proof (rule evolveI)
  assume "store_fresh st"
  with assms(1) show "store_fresh (store_modify a s' st)"
    by (auto simp: store_fresh_def store_modify_def)
next
  fix b t
  assume "store_heap st b = Some t"
  with assms show "\<exists>ops s''. store_heap (store_modify a s' st) b = Some s'' \<and> auth_run E V ops t s''"
    by (cases "b = a") (auto simp: store_modify_def intro: auth_run.run_nil)
qed

lemma evolve_insert: "attempts_evolve E V st (fst (store_insert sid inst s st))"
proof (rule evolve_kept)
  assume "store_fresh st"
  then show "store_fresh (fst (store_insert sid inst s st))"
    by (auto simp: store_fresh_def store_insert_def Let_def less_Suc_eq)
next
  fix a t
  assume "store_fresh st" "store_heap st a = Some t"
  then show "store_heap (fst (store_insert sid inst s st)) a = Some t"
    by (auto simp: store_fresh_def store_insert_def Let_def)
qed

definition node_evolves :: "env \<Rightarrow> validator \<Rightarrow> node_db \<Rightarrow> node_db \<Rightarrow> bool" where
  "node_evolves E V n n' \<longleftrightarrow> attempts_evolve E V (node_store n) (node_store n')"

definition gw_evolves :: "env \<Rightarrow> validator \<Rightarrow> ('net, 'o) gateway \<Rightarrow> ('net, 'o) gateway \<Rightarrow> bool" where
  "gw_evolves E V g g' \<longleftrightarrow> node_evolves E V (gw_node g) (gw_node g')"

interpretation node_evolution: guarantee "node_evolves E V" for E V
  by unfold_locales (auto simp: node_evolves_def evolve_refl intro: evolve_trans)

interpretation gw_evolution: guarantee "gw_evolves E V" for E V
  by unfold_locales (auto simp: gw_evolves_def node_evolution.G_refl intro: node_evolution.G_trans)

lemma same_attempts_evolve: "same_attempts n n' \<Longrightarrow> node_evolves E V n n'"
  by (simp add: same_attempts_def node_evolves_def evolve_refl)

lemma gw_evolves_frame [simp]:
  "node_store (gw_node g') = node_store (gw_node g) \<Longrightarrow> gw_evolves E V g g'"
  by (simp add: gw_evolves_def node_evolves_def evolve_refl)

section \<open>What the operations on the node keep\<close>

lemma obeys_case_row_state [obeys_rules]:
  "obeys G p \<Longrightarrow> (\<And>d. obeys G (f d)) \<Longrightarrow> obeys G q
   \<Longrightarrow> obeys G (case x of Row_Pending \<Rightarrow> p | Row_Decided d \<Rightarrow> f d | Row_Ended \<Rightarrow> q)"
  by (cases x) auto

lemma obeys_case_wait [obeys_rules]:
  "(\<And>d. obeys G (f d)) \<Longrightarrow> obeys G p \<Longrightarrow> obeys G q
   \<Longrightarrow> obeys G (case x of Wait_Decided d \<Rightarrow> f d | Wait_Ended \<Rightarrow> p | Wait_TimedOut \<Rightarrow> q)"
  by (cases x) auto

lemmas attempts_kept = obeys_rules obeys_case_reopened attempts.obeys_query

lemma keeps_refund: "obeys same_attempts (refund_use tid)"
  unfolding refund_use_def by (intro attempts_kept) (simp add: same_attempts_def)

lemma keeps_spend: "obeys same_attempts (spend_use tid)"
  unfolding spend_use_def spend_update_def Let_def by (intro attempts_kept) (simp add: same_attempts_def)

lemma keeps_emit: "obeys same_attempts (emit e)" "obeys same_attempts (notify_global n)"
  unfolding emit_def notify_global_def by (intro attempts_kept, simp add: same_attempts_def)+

lemma keeps_reopen: "obeys same_attempts (try_reopen_unanswered key tid row)"
  unfolding try_reopen_unanswered_def reopen_update_def Let_def
  by (intro attempts_kept keeps_refund keeps_spend) (simp_all add: same_attempts_def)

lemma keeps_refresh: "obeys same_attempts (try_refresh_pending row)"
  unfolding try_refresh_pending_def Let_def by (intro attempts_kept) (simp add: same_attempts_def)

lemma keeps_upsert: "obeys same_attempts (upsert_request request)"
  unfolding upsert_request_def insert_request_def Let_def
  by (intro attempts_kept keeps_reopen keeps_refresh) (simp add: same_attempts_def)

lemma keeps_close: "obeys same_attempts (close_request session_id kind target status)"
  unfolding close_request_def settle_request_internal_def transition_apply_def Let_def
  by (intro attempts_kept keeps_refund) (simp add: same_attempts_def)

lemma keeps_find: "obeys same_attempts (find_row session_id kind target)"
  unfolding find_row_def by (intro attempts_kept)

lemma keeps_await: "obeys same_attempts (await_row_decision session_id kind target ticks)"
proof (induction ticks)
  case (Cons fails ticks)
  show ?case unfolding await_row_decision.simps by (intro attempts_kept keeps_find Cons.IH)
qed simp

lemma keeps_gate:
  "obeys same_attempts (require_admin_approval E node_id authorization session_id connection notified ticks)"
proof -
  have announce: "obeys same_attempts (announce_admin_request E node_id subject)" for subject
    unfolding announce_admin_request_def advertise_admin_request_def emit_requested_event_def
    by (intro attempts_kept keeps_upsert keeps_emit)
  have wait: "obeys same_attempts (await_admin_decision authorization subject ticks guard)" for subject guard
    unfolding await_admin_decision_def close_timed_out_def row_decision_def emit_timed_out_event_def Let_def
      admin_approval_timeout_def
    by (intro attempts_kept keeps_await keeps_close keeps_find keeps_emit)
  show ?thesis
    unfolding require_admin_approval_def Let_def admin_approval_is_remembered_def approval_is_remembered_def
      admin_approval_grace_period_def emit_bypassed_event_def
    by (intro attempts_kept announce wait keeps_emit)
qed

lemma evolves_change:
  assumes "\<And>s s'. f s = Some s' \<Longrightarrow> \<exists>ops. auth_run E V ops s s'"
  shows "obeys (node_evolves E V) (change_attempt a f)"
proof -
  have "node_evolves E V n (fst (case Option.bind (store_heap (node_store n) a) f of
       None \<Rightarrow> (n, False)
     | Some state \<Rightarrow> (n\<lparr> node_store := store_modify a state (node_store n) \<rparr>, True)))" for n
  proof (cases "Option.bind (store_heap (node_store n) a) f")
    case (Some s')
    then obtain s where s: "store_heap (node_store n) a = Some s" "f s = Some s'"
      by (auto simp: bind_eq_Some_conv)
    from assms [OF s(2)] obtain ops where "auth_run E V ops s s'" ..
    from evolve_modify [OF s(1) this] Some show ?thesis by (simp add: node_evolves_def)
  qed (simp add: node_evolves_def evolve_refl)
  then show ?thesis unfolding change_attempt_def by (intro obeys_rules)
qed

lemma bypass_attempt_run:
  assumes "bypass_attempt E s = Some s'"
  shows "\<exists>ops. auth_run E V ops s s'"
proof -
  let ?t = "fst (add_web_user_approval_via_grace_bypass E s)"
  have "s' = emit_web_approval_bypassed_event ?t"
    using assms by (auto simp: bypass_attempt_def split: if_splits)
  then have "auth_run E V [Op_GraceBypass, Op_EmitBypassed] s s'"
    by (auto intro!: auth_run.intros)
  then show ?thesis ..
qed

lemma evolves_bypass: "obeys (node_evolves E V) (try_web_approval_bypass E a)"
proof -
  have close: "obeys (node_evolves E V) (close_request session_id kind target status)" for session_id kind target status
    using keeps_close same_attempts_evolve by (rule obeys_mono)
  have emits: "obeys (node_evolves E V) (notify_global n)" for n
    using keeps_emit(2) same_attempts_evolve by (rule obeys_mono)
  show ?thesis
    unfolding try_web_approval_bypass_def web_approval_grace_period_def read_attempt_def
      approval_is_remembered_def
    by (intro obeys_rules node_evolution.obeys_query close emits evolves_change bypass_attempt_run)
qed

section \<open>What a login keeps\<close>

lemma core_submit_run:
  assumes "core_submit_credential E contains now V c lp s = (lp', s', r)"
  shows "\<exists>ops. auth_run E V ops s s'"
proof -
  have "s' = s \<or> s' = fst (submit_credential E V c s)"
    using assms by (auto simp: core_submit_credential_def Let_def split: option.splits prod.splits if_splits)
  then show ?thesis
    by (metis auth_run.run_nil auth_run_one auth_step.submit)
qed

lemma evolves_on_lp: "obeys (gw_evolves E V) (on_lp f)"
  unfolding on_lp_def by (intro obeys_rules) (simp split: prod.split)

lemma evolves_on_node: "obeys (node_evolves E V) p \<Longrightarrow> obeys (gw_evolves E V) (on_node p)"
  unfolding on_node_def by (erule obeys_zoom) (simp add: gw_evolves_def)

lemma evolves_hold:
  "obeys (gw_evolves E V) (hold_for_admin_approval out authorization session_id connection permit t)"
  unfolding hold_for_admin_approval_def Let_def
  by (intro obeys_rules evolves_on_node obeys_mono [OF keeps_gate same_attempts_evolve])

lemma evolves_gate_result:
  assumes "obeys (gw_evolves E V) finish"
  shows "obeys (gw_evolves E V) (gate_result r finish)"
  unfolding gate_result_def denied_def by (intro obeys_rules assms)

lemma evolves_denied: "obeys G (denied t)"
  by (simp add: denied_def)

lemma evolves_on_attempt:
  assumes "\<And>st. obeys (gw_evolves E V) (f st)"
  shows "obeys (gw_evolves E V) (on_attempt a f t)"
  unfolding on_attempt_def read_attempt_def
  by (intro obeys_rules evolves_on_node node_evolution.obeys_query assms)

lemma evolves_submit:
  "obeys (gw_evolves (out_env out) (out_validate out)) (submit_password out a password)"
proof -
  have "gw_evolves (out_env out) (out_validate out) g (fst (case store_heap (node_store (gw_node g)) a of
       None \<Rightarrow> (g, None)
     | Some st \<Rightarrow>
         (case core_submit_credential (out_env out) (out_contains out) (clock (gw_node g))
                 (out_validate out) (Cred_Password password) (gw_lp g) st of
            (lp, st', r) \<Rightarrow>
              (g\<lparr> gw_lp := lp,
                  gw_node := (gw_node g)\<lparr> node_store := store_modify a st' (node_store (gw_node g)) \<rparr> \<rparr>,
               Some r))))" for g
  proof (cases "store_heap (node_store (gw_node g)) a")
    case (Some st)
    obtain lp st' r where submit: "core_submit_credential (out_env out) (out_contains out) (clock (gw_node g))
        (out_validate out) (Cred_Password password) (gw_lp g) st = (lp, st', r)" by (rule prod_cases3)
    from core_submit_run [OF this] obtain ops where "auth_run (out_env out) (out_validate out) ops st st'" ..
    from evolve_modify [OF Some this] show ?thesis
      by (simp add: Some submit gw_evolves_def node_evolves_def)
  qed simp
  then show ?thesis unfolding submit_password_def by (intro obeys_rules)
qed

lemma obeys_case_auth_result [obeys_rules]:
  "(\<And>u. obeys G (f u)) \<Longrightarrow> (\<And>k. obeys G (h k)) \<Longrightarrow> obeys G q
   \<Longrightarrow> obeys G (case x of Accepted u \<Rightarrow> f u | Need k \<Rightarrow> h k | Rejected \<Rightarrow> q)"
  by (cases x) auto

lemmas login_keeps = obeys_rules gw_evolution.obeys_query evolves_on_lp evolves_denied evolves_on_attempt

lemma evolves_accepted:
  "obeys (gw_evolves E V) (login_accepted out session_id username target_name ip a user_info permit t)"
  unfolding login_accepted_def login_authorize_def login_gate_def record_password_failure_def
  by (intro login_keeps evolves_hold evolves_gate_result)

lemma evolves_password:
  assumes "\<And>t. obeys (gw_evolves (out_env out) (out_validate out)) (again t)"
  shows "obeys (gw_evolves (out_env out) (out_validate out)) (login_password out username ip a t again)"
  unfolding login_password_def Let_def record_password_failure_def
  by (auto intro!: login_keeps evolves_submit assms split: list.split option.split)

lemma evolves_web_approval:
  assumes "\<And>permit t. obeys (gw_evolves (out_env out) (out_validate out)) (again permit t)"
  shows "obeys (gw_evolves (out_env out) (out_validate out)) (login_web_approval out a events permit t again)"
  unfolding login_web_approval_def Let_def
  by (auto intro!: login_keeps evolves_on_node evolves_bypass assms split: bool.split)

lemma evolves_loop:
  "obeys (gw_evolves (out_env out) (out_validate out))
     (authorize_user_loop out session_id username target_name ip a turns permit t)"
proof (induction turns arbitrary: permit t)
  case (Cons events turns)
  then show ?case
    unfolding authorize_user_loop.simps record_password_failure_def
    by (intro login_keeps evolves_accepted evolves_password evolves_web_approval)
qed simp

section \<open>The attempt of a login\<close>

lemma on_node_statement:
  "on_node (statement f) =
     statement (\<lambda>g. (g\<lparr> gw_node := fst (f (gw_node g)) \<rparr>, snd (f (gw_node g))))"
  by (simp add: on_node_def statement_def)

text \<open>The row found under the name, in any spelling, by a login that may come from this address.\<close>

definition resolved_user :: "'net login_outside \<Rightarrow> string \<Rightarrow> ip_addr option \<Rightarrow> ('net, 'o) gateway \<Rightarrow> 'net user \<Rightarrow> bool" where
  "resolved_user out username remote_ip g user \<longleftrightarrow>
     find (\<lambda>u. username_eq_ci_str (out_env out) (user_username u) username) (db_users (svc_db (gw_lp g))) = Some user
     \<and> ip_allowed (out_contains out) (user_allowed_ip_ranges user) remote_ip"

lemma resolve_user_Inr:
  assumes "case_maps_agree E"
    and "snd (resolve_user_and_policy E contains backoff ids now params username prot types remote_ip rate_type lp)
      = Inr (user, pol)"
  shows "find (\<lambda>u. username_eq_ci_str E (user_username u) username) (db_users (svc_db lp)) = Some user
    \<and> ip_allowed contains (user_allowed_ip_ranges user) remote_ip
    \<and> pol = user_credential_policy_tree params user types"
  using assms
  by (auto simp: resolve_user_and_policy_def Let_def get_credential_policy_def case_maps_agree_def
      username_eq_ci_str_def check_ip_allowed_def split: option.splits if_splits)

lemma run_in_create:
  assumes "case_maps_agree (out_env out)"
    and "run_in (create_auth_state out session_id username prot target_name types remote_ip rate_type) envs g
      = (envs', trace, g', Inr arc)"
  shows "\<exists>user. \<exists>h\<in>set trace. \<exists>g\<in>set trace. \<exists>now. resolved_user out username remote_ip g user
    \<and> store_heap (node_store (gw_node g')) arc = Some (auth_state_new (out_env out) now (out_random out)
         session_id remote_ip (user_info_of user) prot target_name
         (is_sufficient (user_credential_policy_tree (gw_params h) user types)))"
proof -
  define h where "h = (case envs of [] \<Rightarrow> g | env # _ \<Rightarrow> env g)"
  define lookup where "lookup = (on_lp (\<lambda>now. resolve_user_and_policy (out_env out) (out_contains out)
      (out_backoff out) (out_ids out) now (gw_params h) username prot types remote_ip rate_type)
      :: (('a, 'b) gateway, _) prog)"
  obtain envs1 tr1 g1 r tr2 where resolve: "run_in lookup (tl envs) h = (envs1, tr1, g1, r)"
    and rest: "run_in (case r of Inl e \<Rightarrow> Return (Inl e) | Inr (user, pol) \<Rightarrow>
         prog_bind (link_session out session_id) (\<lambda>_. on_node (statement (\<lambda>n.
         case store_create (out_env out) (clock n) (out_instant out) (out_random out) session_id user prot
                target_name (is_sufficient pol) remote_ip (node_store n) of
           (store, a) \<Rightarrow> (n\<lparr> node_store := store \<rparr>, Inr a))))) envs1 g1 = (envs', tr2, g', Inr arc)"
    and trace: "trace = h # tr1 @ tr2"
    using assms(2) unfolding create_auth_state_def prog_try_def
    by (auto simp: run_in_bind run_in_query h_def [symmetric] lookup_def [symmetric] split: prod.splits)
  from rest obtain user pol where r: "r = Inr (user, pol)" by (auto split: sum.splits prod.splits)
  from resolve obtain g2 where g2: "g2 \<in> set tr1" and "snd (resolve_user_and_policy (out_env out)
      (out_contains out) (out_backoff out) (out_ids out) (clock (gw_node g2)) (gw_params h) username prot types
      remote_ip rate_type (gw_lp g2)) = Inr (user, pol)"
    by (auto simp: lookup_def on_lp_def run_in_statement r split: prod.splits)
  from resolve_user_Inr [OF assms(1) this(2)]
  have user: "resolved_user out username remote_ip g2 user"
    and pol: "pol = user_credential_policy_tree (gw_params h) user types"
    by (simp_all add: resolved_user_def)
  have "\<exists>now. store_heap (node_store (gw_node g')) arc = Some (auth_state_new (out_env out) now
      (out_random out) session_id remote_ip (user_info_of user) prot target_name (is_sufficient pol))"
    using rest by (auto simp: r run_in_bind link_session_def on_node_statement run_in_statement store_create_def store_insert_def Let_def)
  with user pol g2 trace show ?thesis by auto
qed

text \<open>An attempt that was accepted after a run from its creation, with what the run keeps.\<close>

lemma auth_state_new_identity:
  "as_user_info (auth_state_new E now rnd sid ip info prot tgt pol) = info"
  "as_protocol (auth_state_new E now rnd sid ip info prot tgt pol) = prot"
  "as_policy (auth_state_new E now rnd sid ip info prot tgt pol) = pol"
  by (simp_all add: auth_state_new_def)

lemma accepted_run:
  assumes "auth_run E V ops (auth_state_new E now rnd sid ip info prot tgt pol) st" and "verify st = Accepted u"
  shows "u = info \<and> as_protocol st = prot \<and> pol prot (valid_credential_kinds st) = Policy_Ok
    \<and> (\<forall>stored. Valid_Stored stored \<in> set (as_valid_credentials st) \<longrightarrow>
          (\<exists>c. V (info_username info) c = Inr (Some stored)))"
proof -
  have "as_user_info st = info \<and> as_protocol st = prot \<and> as_policy st = pol \<and> validated V st"
    by (rule auth_run_invariant [where P = "\<lambda>s. as_user_info s = info \<and> as_protocol s = prot
          \<and> as_policy s = pol \<and> validated V s", OF assms(1)])
      (auto simp: validated_new auth_state_new_identity dest: auth_step_identity intro: validated_step)
  with assms(2) show ?thesis
    by (auto simp: verify_def current_verification_state_def validated_def
        split: if_splits policy_response.splits)
qed

text \<open>The kinds of credentials that count were each presented and validated for this user.\<close>

definition presented :: "validator \<Rightarrow> string \<Rightarrow> credential_kind \<Rightarrow> bool" where
  "presented V username kind \<longleftrightarrow>
     (\<exists>c stored. V username c = Inr (Some stored) \<and> stored_kind_kind (sc_kind stored) = kind)"

lemma valid_kinds_presented:
  assumes "\<forall>stored. Valid_Stored stored \<in> set (as_valid_credentials st) \<longrightarrow>
      (\<exists>c. V username c = Inr (Some stored))" and "kind \<in> valid_credential_kinds st"
  shows "kind = Kind_WebUserApproval \<or> presented V username kind"
proof -
  from assms(2) obtain v where v: "v \<in> set (as_valid_credentials st)" "kind = valid_credential_kind v"
    by (auto simp: valid_credential_kinds_def)
  with assms(1) show ?thesis by (cases v) (auto simp: presented_def)
qed

lemma run_in_authorize_user:
  assumes "run_in (authorize_user out session_id username target_name ip turns t) envs g
      = (envs', trace, g', t', Login_Approved a)"
  obtains arc envs0 g0 envs1 g1 trace0 trace1 trace2 where
    "\<exists>h\<in>set trace0. snd (check_user_locked (out_env out) (clock (gw_node h)) username (gw_lp h)) = None"
    "run_in (on_lp (\<lambda>now. check_user_locked (out_env out) now username)) envs g = (envs0, trace0, g0, None)"
    "run_in (create_auth_state out session_id username (tr_protocol t) target_name [Kind_Password]
        (Some ip) (Some ''password'')) envs0 g0 = (envs1, trace1, g1, Inr arc)"
    "run_in (authorize_user_loop out session_id username target_name ip arc turns True t) envs1 g1
        = (envs', trace2, g', t', Login_Approved a)"
    "trace = trace0 @ trace1 @ trace2"
proof -
  let ?create = "create_auth_state out session_id username (tr_protocol t) target_name [Kind_Password]
      (Some ip) (Some ''password'') :: (('a, 'b) gateway, _) prog"
  let ?loop = "\<lambda>r. case r of Inl e \<Rightarrow> Return (t, Login_Failed (Db_Warpgate e))
      | Inr arc \<Rightarrow> authorize_user_loop out session_id username target_name ip arc turns True t"
  obtain envs0 trace0 g0 locked rest where
      check: "run_in (on_lp (\<lambda>now. check_user_locked (out_env out) now username)) envs g = (envs0, trace0, g0, locked)"
    and run: "run_in (if locked \<noteq> None then denied t else prog_bind ?create ?loop) envs0 g0
        = (envs', rest, g', t', Login_Approved a)"
    and trace: "trace = trace0 @ rest"
    using assms unfolding authorize_user_def by (rule run_in_bindE)
  have none: "locked = None" using run by (auto simp: denied_def split: if_splits)
  with run have "run_in (prog_bind ?create ?loop) envs0 g0 = (envs', rest, g', t', Login_Approved a)" by simp
  then obtain envs1 trace1 g1 r trace2 where create: "run_in ?create envs0 g0 = (envs1, trace1, g1, r)"
    and loop: "run_in (?loop r) envs1 g1 = (envs', trace2, g', t', Login_Approved a)"
    and rest: "rest = trace1 @ trace2" by (rule run_in_bindE)
  from loop obtain arc where "r = Inr arc" by (cases r) auto
  moreover have "\<exists>h\<in>set trace0. snd (check_user_locked (out_env out) (clock (gw_node h)) username (gw_lp h)) = None"
    using check none by (auto simp: on_lp_def run_in_statement split: prod.splits)
  ultimately show ?thesis using that check none create loop trace rest by simp
qed

lemma evolves_create: "obeys (gw_evolves E V)
    (create_auth_state out session_id username prot target_name types remote_ip rate_type)"
proof -
  have "node_evolves E V n (fst (case store_create (out_env out) (clock n) (out_instant out) (out_random out)
        session_id user prot target_name (is_sufficient pol) remote_ip (node_store n) of
      (store, a) \<Rightarrow> (n\<lparr> node_store := store \<rparr>, Inr a)))" for n pol and user :: "'a user"
    using evolve_insert [of E V "node_store n" session_id]
    by (simp add: node_evolves_def store_create_def split_beta)
  then show ?thesis
    unfolding create_auth_state_def link_session_def by (intro login_keeps evolves_on_node) simp
qed

lemma created_attempt_accepted:
  assumes "case_maps_agree (out_env out)" and "store_fresh (node_store (gw_node g))"
    and "\<forall>env\<in>set envs. \<forall>g. gw_evolves (out_env out) (out_validate out) g (env g)"
    and "run_in (create_auth_state out session_id username prot target_name [Kind_Password]
        (Some ip) (Some ''password'')) envs g = (envs1, trace1, g1, Inr arc)"
    and "run_in (authorize_user_loop out session_id username target_name ip arc turns permit t) envs1 g1
        = (envs', trace2, g', t', Login_Approved a)"
  shows "\<exists>user. \<exists>h\<in>set trace1. \<exists>params\<in>gw_params ` set trace1. \<exists>kinds.
      resolved_user out username (Some ip) h user
    \<and> ta_user_info a = user_info_of user \<and> ta_protocol a = prot \<and> requirement_met params user prot kinds
    \<and> (\<forall>kind\<in>kinds. kind = Kind_WebUserApproval \<or> presented (out_validate out) (user_username user) kind)
    \<and> user_authorized target_name a (set trace2) \<and> login_gate_reason out session_id ip a (set trace2)"
proof -
  obtain user h1 h2 now where user: "h2 \<in> set trace1" "resolved_user out username (Some ip) h2 user"
    and h1: "h1 \<in> set trace1"
    and born: "store_heap (node_store (gw_node g1)) arc = Some (auth_state_new (out_env out) now (out_random out)
        session_id (Some ip) (user_info_of user) prot target_name
        (is_sufficient (user_credential_policy_tree (gw_params h1) user [Kind_Password])))"
    using run_in_create [OF assms(1,4)] by blast
  have opened: "user_open out session_id target_name ip arc a (set trace2)"
    using wp_run_in [OF wp_authorize_user_loop assms(5), of "{}"] by (simp add: opens_only_def)
  then obtain h st where st: "h \<in> set trace2" "store_heap (node_store (gw_node h)) arc = Some st"
    "verify st = Accepted (ta_user_info a)" "as_protocol st = ta_protocol a"
    unfolding user_open_def by blast
  note first = gw_evolution.run_in_obeys [OF evolves_create assms(3,4)]
  from gw_evolution.run_in_obeys [OF evolves_loop _ assms(5)] first st(1)
  have later: "attempts_evolve (out_env out) (out_validate out) (node_store (gw_node g1)) (node_store (gw_node h))"
    by (simp add: gw_evolves_def node_evolves_def)
  have "store_fresh (node_store (gw_node g1))"
    using first assms(2) by (auto simp: gw_evolves_def node_evolves_def intro: evolve_fresh)
  from evolve_attempt [OF later this born] st(2) obtain ops where
    "auth_run (out_env out) (out_validate out) ops (auth_state_new (out_env out) now (out_random out)
        session_id (Some ip) (user_info_of user) prot target_name
        (is_sufficient (user_credential_policy_tree (gw_params h1) user [Kind_Password]))) st" by auto
  note facts = accepted_run [OF this st(3)]
  have kinds: "\<forall>kind\<in>valid_credential_kinds st. kind = Kind_WebUserApproval
      \<or> presented (out_validate out) (user_username user) kind"
    using facts valid_kinds_presented [of st "out_validate out" "user_username user"]
    by (simp add: user_info_of_def)
  show ?thesis
    by (rule exI [of _ user], rule bexI [OF _ user(1)], rule bexI [of _ "gw_params h1"], rule exI [of _ "valid_credential_kinds st"])
      (use facts kinds user(2) h1 st(4) opened in \<open>auto simp: user_open_def user_policy_tree_ok_iff\<close>)
qed

section \<open>Properties\<close>


text \<open>A login to a gateway that has login protection and MFA switched off.\<close>

definition sample_outside :: "nat login_outside" where
  "sample_outside = \<lparr> out_env = sample_env, out_contains = sample_contains, out_backoff = sample_backoff,
     out_validate = sample_validator, out_node_id = 1, out_random = (1, 2, 3, 4), out_instant = 0,
     out_ids = sample_ids, out_ticks = [] \<rparr>"

definition sample_gateway :: "(nat, unit) gateway" where
  "sample_gateway = \<lparr> gw_node = sample_node store_new [],
     gw_lp = lp_new sample_env 10 (sample_db\<lparr> db_parameters := sample_params\<lparr> login_protection_enabled := False \<rparr> \<rparr>),
     gw_params = \<lparr> mfa_enforcement = Mfa_Off, mfa_policy_exempt_sso_users = False \<rparr>,
     gw_targets = [sample_target],
     gw_user_roles = [\<lparr> ur_user_id = 7, ur_role_id = 50, ur_granted_at = None, ur_expires_at = None, ur_revoked_at = None \<rparr>],
     gw_target_roles = sample_target_roles,
     gw_user_sessions = [\<lparr> us_id = 5, us_auth_state_node_id = None \<rparr>] \<rparr>"

definition sample_client :: transport where
  "sample_client = \<lparr> tr_protocol = MySql, tr_supports_web_approval = False, tr_passwords = [Some ''secret''],
     tr_external_url_ok = False, tr_shows_link = False, tr_notices = False, tr_log = [] \<rparr>"

definition sample_first :: auth_state where
  "sample_first = auth_state_new sample_env 10 (1, 2, 3, 4) 5 (Some (V4 1)) (user_info_of sample_user) MySql ''host''
     (is_sufficient (user_credential_policy_tree (gw_params sample_gateway) sample_user [Kind_Password]))"

definition sample_second :: auth_state where
  "sample_second = fst (submit_credential sample_env sample_validator (Cred_Password ''secret'') sample_first)"

lemma sample_login_policy:
  "user_credential_policy_tree (gw_params sample_gateway) sample_user [Kind_Password]
     = AnySingleCredentialPolicy {Kind_Password}"
  by (simp add: sample_gateway_def user_credential_policy_tree_def sample_user_def mfa_required_factors_def
      mfa_required_factor_def effective_mfa_enforcement_for_user_def default_credential_policy_def Let_def
      map_filter_def)

lemma sample_first_frame:
  "as_user_info sample_first = user_info_of sample_user" "as_policy sample_first = is_sufficient (AnySingleCredentialPolicy {Kind_Password})"
  "as_protocol sample_first = MySql" "as_valid_credentials sample_first = []" "as_remote_ip sample_first = Some (V4 1)"
  "as_force_rejected sample_first = False" "as_pending_step_up sample_first = False"
  by (simp_all add: sample_first_def auth_state_new_def sample_login_policy)

lemma sample_login_verdicts:
  "verify sample_first = Need {Kind_Password}"
  "verify sample_second = Accepted (user_info_of sample_user)" "as_protocol sample_second = MySql"
  "submit_credential sample_env sample_validator (Cred_Password ''secret'') sample_first
     = (sample_second, Inr (Outcome_Valid (Accepted (user_info_of sample_user))))"
  by (simp_all add: verify_def current_verification_state_def sample_first_frame valid_credential_kinds_def
      sample_second_def submit_credential_def sample_validator_def user_info_of_def sample_user_def
      split_beta has_real_web_approval_def sample_stored_def)

lemma run_on_node: "run (on_node p) g = (case run p (gw_node g) of (n, x) \<Rightarrow> (g\<lparr> gw_node := n \<rparr>, x))"
  unfolding on_node_def by (rule run_zoom) simp_all

lemma run_on_lp: "run (on_lp f) g = (case f (clock (gw_node g)) (gw_lp g) of (lp, x) \<Rightarrow> (g\<lparr> gw_lp := lp \<rparr>, x))"
  by (simp add: on_lp_def)

lemma run_on_attempt:
  "run (on_attempt a f t) g = (case store_heap (node_store (gw_node g)) a of
     None \<Rightarrow> (g, t, Login_Running) | Some st \<Rightarrow> run (f st) g)"
  by (simp add: on_attempt_def run_bind run_on_node read_attempt_def split: option.split)

lemmas run_login = run_bind run_try run_on_node run_on_lp run_on_attempt

lemma sample_unprotected:
  "check_ip_blocked E contains now ip (gw_lp sample_gateway) = (gw_lp sample_gateway, None)"
  "check_user_locked E now username (gw_lp sample_gateway) = (gw_lp sample_gateway, None)"
  by (simp_all add: sample_gateway_def check_ip_blocked_def check_user_locked_def Let_def lp_new_def
      read_config_def sample_db_def sample_params_def config_from_params_def)

lemma sample_resolution:
  "resolve_user_and_policy sample_env sample_contains sample_backoff sample_ids now (gw_params sample_gateway)
     ''alice'' MySql [Kind_Password] (Some (V4 1)) (Some ''password'') (gw_lp sample_gateway)
   = (gw_lp sample_gateway, Inr (sample_user,
        user_credential_policy_tree (gw_params sample_gateway) sample_user [Kind_Password]))"
proof -
  have "svc_db (gw_lp sample_gateway) = sample_db\<lparr> db_parameters := sample_params\<lparr> login_protection_enabled := False \<rparr> \<rparr>"
    by (simp add: sample_gateway_def lp_new_def)
  then show ?thesis
    by (simp add: resolve_user_and_policy_def Let_def sample_db_def username_eq_ci_str_def sample_user_name
        get_credential_policy_def check_ip_allowed_def ip_allowed_def)
      (simp add: sample_user_def sample_env_def)
qed

definition sample_held :: "(nat, unit) gateway" where
  "sample_held = sample_gateway\<lparr> gw_user_sessions := [\<lparr> us_id = 5, us_auth_state_node_id = Some 1 \<rparr>],
     gw_node := (gw_node sample_gateway)\<lparr> node_store :=
     \<lparr> store_heap = [0 \<mapsto> sample_first], store_next = 1, store_map = [5 \<mapsto> (0, 0)] \<rparr> \<rparr> \<rparr>"

lemma sample_create:
  "run (create_auth_state sample_outside 5 ''alice'' MySql ''host'' [Kind_Password] (Some (V4 1)) (Some ''password''))
     sample_gateway = (sample_held, Inr 0)"
  by (simp add: create_auth_state_def run_login link_session_def sample_outside_def sample_resolution store_create_def
      store_insert_def Let_def sample_first_def sample_held_def)
    (simp add: sample_gateway_def store_new_def update_many_def)

definition sample_done :: "(nat, unit) gateway" where
  "sample_done = sample_held\<lparr> gw_node := (gw_node sample_held)\<lparr> node_store :=
     store_modify 0 sample_second (node_store (gw_node sample_held)) \<rparr> \<rparr>"

lemma sample_heaps:
  "store_heap (node_store (gw_node sample_held)) 0 = Some sample_first"
  "store_heap (node_store (gw_node sample_done)) 0 = Some sample_second"
  by (simp_all add: sample_held_def sample_done_def store_modify_def)

lemma sample_password_run:
  "run (submit_password sample_outside 0 ''secret'') sample_held
     = (sample_done, Some (Inr (Outcome_Valid (Accepted (user_info_of sample_user)))))"
proof -
  have "gw_lp sample_held = gw_lp sample_gateway" by (simp add: sample_held_def)
  then show ?thesis
    by (simp add: submit_password_def sample_heaps core_submit_credential_def sample_outside_def sample_first_frame
        sample_unprotected sample_login_verdicts sample_done_def)
qed

definition sample_opened :: "unit target_authorization" where
  "sample_opened = \<lparr> ta_user_info = user_info_of sample_user, ta_target = sample_target, ta_protocol = MySql, ta_ticket_id = None \<rparr>"

lemma sample_authorized_run:
  "run (login_authorize ''host'' \<lparr> ai_user_info = user_info_of sample_user, ai_protocol = MySql \<rparr>) sample_done
     = (sample_done, Some sample_opened)"
proof -
  have "authorize_target_by_id now (gw_user_roles sample_gateway) sample_target_roles 7 40" for now
    by (simp add: authorize_target_by_id_iff sample_gateway_def sample_target_roles_def role_active_def role_expired_def)
  then show ?thesis
    by (simp add: login_authorize_def run_login sample_done_def sample_held_def get_target_by_name_def
        authorize_for_target_def sample_opened_def user_info_of_def)
      (simp add: sample_gateway_def sample_target_def sample_user_def authorize_for_target_def)
qed

lemma run_in_of_run:
  assumes "snd (run p s) = x"
  obtains envs trace s' where "run_in p [] s = (envs, trace, s', x)"
proof -
  obtain envs trace s' y where r: "run_in p [] s = (envs, trace, s', y)" by (rule prod_cases4)
  from run_in_alone [OF r] assms r that show ?thesis by simp
qed

lemma sample_login_run:
  "snd (run (run_db_authorization sample_outside 5 (Select_User ''alice'' ''host'') (V4 1) [[], []] sample_client)
     sample_gateway) = (sample_client\<lparr> tr_passwords := [], tr_log := [Sent_AuthOk] \<rparr>, Login_Approved sample_opened)"
proof -
  have out: "out_env sample_outside = sample_env" "out_contains sample_outside = sample_contains"
    by (simp_all add: sample_outside_def)
  have prot: "tr_protocol sample_client = MySql" "tr_passwords sample_client = [Some ''secret'']" "tr_log sample_client = []"
    by (simp_all add: sample_client_def)
  have id: "from_auth_state sample_second = Some \<lparr> ai_user_info = user_info_of sample_user, ai_protocol = MySql \<rparr>"
    by (simp add: from_auth_state_def sample_login_verdicts)
  have ungated: "\<not> tgt_require_approval (ta_target sample_opened)"
    by (simp add: sample_opened_def sample_target_def)
  show ?thesis
    by (simp add: run_db_authorization_def authorize_user_def run_login out prot sample_unprotected sample_create
        sample_heaps sample_login_verdicts login_password_def sample_password_run login_accepted_def id
        sample_authorized_run login_gate_def hold_for_admin_approval_def require_admin_approval_def ungated
        gate_result_def announced_def send_auth_ok_def tr_send_def split_beta Let_def)
qed


section \<open>What the client is told\<close>

text \<open>The permit stands for the success message that has not been sent.\<close>

definition permit_inv :: "bool \<Rightarrow> transport \<Rightarrow> bool" where
  "permit_inv permit t \<longleftrightarrow>
     count_list (tr_log t) Sent_AuthOk = (if permit then 0 else 1) \<and> Sent_Denied \<notin> set (tr_log t)"

definition told :: "transport \<times> 'o login_outcome \<Rightarrow> bool" where
  "told x \<longleftrightarrow> count_list (tr_log (fst x)) Sent_AuthOk \<le> 1 \<and>
     (case snd x of
        Login_Approved _ \<Rightarrow> Sent_AuthOk \<in> set (tr_log (fst x)) \<and> Sent_Denied \<notin> set (tr_log (fst x))
      | Login_Denied \<Rightarrow> tr_log (fst x) \<noteq> [] \<and> last (tr_log (fst x)) = Sent_Denied
      | _ \<Rightarrow> True)"

lemma permit_inv_passwords [simp]: "permit_inv permit (t\<lparr> tr_passwords := ps \<rparr>) = permit_inv permit t"
  by (simp add: permit_inv_def)

lemma permit_inv_send_ok: "permit_inv permit t \<Longrightarrow> permit_inv False (send_auth_ok permit t)"
  by (simp add: permit_inv_def send_auth_ok_def tr_send_def)

lemma permit_inv_send:
  "permit_inv permit t \<Longrightarrow> e \<noteq> Sent_AuthOk \<Longrightarrow> e \<noteq> Sent_Denied \<Longrightarrow> permit_inv permit (tr_send e t)"
  by (simp add: permit_inv_def tr_send_def)

lemma permit_inv_notify:
  assumes "permit_inv permit t" and "notify_awaiting_admin_approval permit t = (permit', t')"
  shows "permit_inv permit' t'"
  using assms permit_inv_send [OF permit_inv_send_ok [OF assms(1)], of Sent_Notice]
  by (auto simp: notify_awaiting_admin_approval_def split: if_splits)

lemma told_denied [simp]: "permit_inv permit t \<Longrightarrow> wp (\<lambda>x H. told x) (denied t) H"
  by (auto simp: permit_inv_def told_def denied_def tr_send_def)

lemma told_undecided [simp]:
  "permit_inv permit t \<Longrightarrow> told (t, Login_Failed e)" "permit_inv permit t \<Longrightarrow> told (t, Login_Running)"
  "permit_inv permit t \<Longrightarrow> told (tr_send Sent_Denied t, Login_Failed e)"
  by (auto simp: permit_inv_def told_def tr_send_def)

lemma told_approved: "permit_inv permit t \<Longrightarrow> told (send_auth_ok permit t, Login_Approved a)"
  using permit_inv_send_ok [of permit t] count_list_0_iff [of "tr_log (send_auth_ok permit t)" Sent_AuthOk]
  by (fastforce simp: permit_inv_def told_def)

lemma wp_told_hold:
  assumes "permit_inv permit t"
  shows "wp (\<lambda>x H. permit_inv (fst x) (fst (snd x)))
    (hold_for_admin_approval out authorization session_id connection permit t) H"
  unfolding hold_for_admin_approval_def wp_bind
  by (rule wp_always) (use assms permit_inv_notify in \<open>auto simp: Let_def split: prod.split\<close>)

lemma wp_told_gate:
  assumes "permit_inv permit t"
  shows "wp (\<lambda>x H. told x) (gate_result (permit, t, r) finish) H"
  unfolding gate_result_def
  using assms by (auto simp: told_approved split: sum.split option.split intro!: wp_always)

lemma wp_told_on_attempt:
  assumes "permit_inv permit t" and "\<And>st H. wp (\<lambda>x H. told x) (f st) H"
  shows "wp (\<lambda>x H. told x) (on_attempt a f t) H"
  unfolding on_attempt_def using assms by (auto split: option.split)

lemma wp_told_bind:
  "(\<And>x H. wp (\<lambda>x H. told x) (k x) H) \<Longrightarrow> wp (\<lambda>x H. told x) (prog_bind p k) H"
  by (simp add: wp_always)

lemma wp_told_failure [simp]:
  "permit_inv permit t \<Longrightarrow>
     wp (\<lambda>x H. told x) (prog_bind (record_password_failure out username ip prot) (\<lambda>_. denied t)) H"
  "permit_inv permit t \<Longrightarrow>
     wp (\<lambda>_. wp (\<lambda>x H. told x) (denied t)) (record_password_failure out username ip prot) H"
  by (auto simp: record_password_failure_def)

lemma wp_told_gated:
  assumes "permit_inv permit t"
  shows "wp (\<lambda>x H. told x) (prog_bind (hold_for_admin_approval out authorization session_id connection permit t)
      (\<lambda>r. gate_result r finish)) H"
  unfolding wp_bind
  by (rule wp_mono [OF wp_told_hold [OF assms]]) (metis prod.collapse wp_told_gate)

lemma wp_told_accepted:
  assumes inv: "permit_inv permit t"
  shows "wp (\<lambda>x H. told x) (login_accepted out session_id username target_name ip a user_info permit t) H"
  unfolding login_accepted_def
proof (rule wp_told_on_attempt [OF inv])
  fix st and H :: "('b, 'a) gateway set"
  have gate: "wp (\<lambda>x H. told x) (login_gate out session_id ip a user_info permit t authorization) H'"
    for authorization and H' :: "('b, 'a) gateway set"
    unfolding login_gate_def by (rule wp_told_on_attempt [OF inv], rule wp_told_gated [OF inv])
  show "wp (\<lambda>x H. told x) (case from_auth_state st of
         None \<Rightarrow> denied t
       | Some identity \<Rightarrow> prog_bind (login_authorize target_name identity) (\<lambda>authorization.
           case authorization of
             None \<Rightarrow> prog_bind (record_password_failure out username ip (tr_protocol t)) (\<lambda>_. denied t)
           | Some authorization \<Rightarrow> login_gate out session_id ip a user_info permit t authorization)) H"
    using inv wp_told_failure [OF inv] gate
    by (auto simp del: wp_bind intro!: wp_told_bind split: option.split)
qed

lemma wp_told_loop:
  assumes "permit_inv permit t"
  shows "wp (\<lambda>x H. told x) (authorize_user_loop out session_id username target_name ip a turns permit t) H"
  using assms
proof (induction turns arbitrary: permit t H)
  case (Cons events turns)
  note inv = Cons.prems
  let ?loop = "authorize_user_loop out session_id username target_name ip a turns"
  have web: "permit_inv False (tr_send Sent_WebPrompt (send_auth_ok permit t))"
    "permit_inv False (send_auth_ok permit t)"
    using permit_inv_send_ok [OF inv] permit_inv_send by auto
  show ?case
    unfolding authorize_user_loop.simps
  proof (rule wp_told_on_attempt [OF inv])
    fix st and H :: "('b, 'a) gateway set"
    have password: "wp (\<lambda>x H. told x) (login_password out username ip a t (?loop permit)) H"
      using inv Cons.IH [of permit] wp_told_failure(2) [of permit]
      by (auto simp: login_password_def Let_def submit_password_def split: list.split option.split sum.split)
    have approval: "wp (\<lambda>x H. told x) (login_web_approval out a events permit t ?loop) H"
      unfolding login_web_approval_def wp_bind Let_def
      by (rule wp_always)
        (use inv web Cons.IH in \<open>auto split: sum.split bool.split auth_result.split intro!: wp_told_on_attempt\<close>)
    show "wp (\<lambda>x H. told x) (case verify st of
         Accepted user_info \<Rightarrow> login_accepted out session_id username target_name ip a user_info permit t
       | Need kinds \<Rightarrow>
           if Kind_Password \<in> kinds then login_password out username ip a t (?loop permit)
           else if Kind_WebUserApproval \<in> kinds then login_web_approval out a events permit t ?loop
           else denied t
       | Rejected \<Rightarrow> prog_bind (record_password_failure out username ip (tr_protocol t)) (\<lambda>_. denied t)) H"
      using password approval inv wp_told_failure [OF inv] by (simp add: wp_told_accepted split: auth_result.split)
  qed
qed simp


section \<open>Logins by ticket\<close>

text \<open>
  What was seen of a ticket that opens a target: the unexpired ticket with the digest of the
  secret, its user, that the user may come from there, its target, and a use to spend.
\<close>

definition ticket_seen ::
  "env \<Rightarrow> ('net \<Rightarrow> ip_addr \<Rightarrow> bool) \<Rightarrow> string \<Rightarrow> ip_addr \<Rightarrow> ticket_row \<Rightarrow> 'net user \<Rightarrow> 'o target \<Rightarrow>
   ('net, 'o) access_db set \<Rightarrow> bool" where
  "ticket_seen E contains secret ip ticket user target H \<longleftrightarrow>
     (\<exists>s\<in>H. find (\<lambda>t. tk_secret_hash t = hash_secret E secret) (tickets s) = Some ticket \<and> \<not> ticket_expired (clock s) ticket) \<and>
     (\<exists>s\<in>H. find_by user_id (tk_user_id ticket) (db_users (svc_db (access_lp s))) = Some user) \<and>
     (\<exists>s\<in>H. snd (vet_credential_bearer E contains (clock s) user (Some ip) (access_lp s))) \<and>
     (\<exists>s\<in>H. find_by tgt_id (tk_target_id ticket) (access_targets s) = Some target)"

definition use_seen :: "uuid \<Rightarrow> ('net, 'o) access_db set \<Rightarrow> bool" where
  "use_seen tid H \<longleftrightarrow> (\<exists>s\<in>H. \<exists>t\<in>set (tickets s). tk_id t = tid \<and> has_use t)"

lemma ticket_seen_mono:
  "ticket_seen E contains secret ip ticket user target H \<Longrightarrow> H \<subseteq> H'
   \<Longrightarrow> ticket_seen E contains secret ip ticket user target H'"
  unfolding ticket_seen_def by (auto dest: subsetD)

lemma use_seen_mono: "use_seen tid H \<Longrightarrow> H \<subseteq> H' \<Longrightarrow> use_seen tid H'"
  unfolding use_seen_def by (meson subsetD)

definition validated_by ::
  "env \<Rightarrow> ('net \<Rightarrow> ip_addr \<Rightarrow> bool) \<Rightarrow> string \<Rightarrow> ip_addr \<Rightarrow> protocol \<Rightarrow> 'o target_authorization \<Rightarrow> uuid \<Rightarrow>
   ('net, 'o) access_db set \<Rightarrow> bool" where
  "validated_by E contains secret ip prot a tid H \<longleftrightarrow> (\<exists>ticket user target.
     ticket_seen E contains secret ip ticket user target H \<and> options_protocol (tgt_options target) = prot
     \<and> a = ticket_authorization prot ticket user target \<and> tid = tk_id ticket)"

lemma validated_by_mono:
  "validated_by E contains secret ip prot a tid H \<Longrightarrow> H \<subseteq> H' \<Longrightarrow> validated_by E contains secret ip prot a tid H'"
  unfolding validated_by_def using ticket_seen_mono by metis

lemma validated_byI:
  assumes "find (\<lambda>t. tk_secret_hash t = hash_secret E secret) (tickets s1) = Some ticket" "\<not> ticket_expired (clock s1) ticket"
    and "find_by user_id (tk_user_id ticket) (db_users (svc_db (access_lp s2))) = Some user"
    and "snd (vet_credential_bearer E contains (clock s3) user (Some ip) (access_lp s3))"
    and "find_by tgt_id (tk_target_id ticket) (access_targets s4) = Some target" "options_protocol (tgt_options target) = prot"
    and "s1 \<in> H" "s2 \<in> H" "s3 \<in> H" "s4 \<in> H"
  shows "validated_by E contains secret ip prot
     \<lparr> ta_user_info = user_info_of user, ta_target = target, ta_protocol = prot, ta_ticket_id = Some (tk_id ticket) \<rparr>
     (tk_id ticket) H"
proof -
  have "ticket_seen E contains secret ip ticket user target H"
    unfolding ticket_seen_def using assms by (intro conjI bexI)
  with assms(6) show ?thesis unfolding validated_by_def ticket_authorization_def by blast
qed

lemma wp_validate_ticket:
  "wp (\<lambda>r H. \<forall>v. r = Inr (Some v) \<longrightarrow> validated_by E contains secret ip prot (vt_authorization v) (vt_id v) H)
     (validate_ticket E contains secret (Some ip) prot) H"
proof -
  have "snd (case vet_credential_bearer E contains (clock s) user (Some ip) (access_lp s) of
      (lp, ok) \<Rightarrow> (s\<lparr>access_lp := lp\<rparr>, ok)) = snd (vet_credential_bearer E contains (clock s) user (Some ip) (access_lp s))"
    for s :: "('b, 'a) access_db" and user
    by (simp split: prod.split)
  then show ?thesis
    by (auto simp: validate_ticket_def check_ip_statement_def vet_statement_def split: option.split intro!: validated_byI)
qed

lemma wp_spend_use:
  "wp (\<lambda>r H'. r = Inr () \<longrightarrow> H \<subseteq> H' \<and> use_seen tid H') (spend_use tid) (H :: ('net, 'o) access_db set)"
proof -
  have unlimited: "use_seen tid (insert s H')"
    if "find_by tk_id tid (tickets s) = Some t" "tk_uses_left t = None" for s t and H' :: "('net, 'o) access_db set"
    using that by (auto simp: use_seen_def has_use_def dest!: find_by_SomeD)
  have limited: "use_seen tid (insert s H')"
    if "rows_affected (\<lambda>t. tk_id t = tid \<and> uses_above_zero t) (tickets s) \<noteq> 0" for s and H' :: "('net, 'o) access_db set"
    using that by (auto simp: use_seen_def has_use_def rows_affected_def filter_empty_conv)
  show ?thesis
    unfolding spend_use_def spend_update_def Let_def
    by (auto simp: unlimited limited split: option.split)
qed

lemma wp_ticket_spend:
  "wp (\<lambda>r H'. \<forall>a. r = Inr (Some a) \<longrightarrow> a = vt_authorization v \<and> H \<subseteq> H' \<and> use_seen (vt_id v) H')
     (ticket_spend v) (H :: ('net, 'o) access_db set)"
  unfolding ticket_spend_def wp_bind
  by (rule wp_mono [OF wp_spend_use]) (auto split: sum.splits if_splits)

lemma wp_authorize_ticket:
  "wp (\<lambda>r H. \<forall>a. r = Inr (Some a) \<longrightarrow>
         (\<exists>tid. validated_by E contains secret ip prot a tid H \<and> use_seen tid H))
     (authorize_and_spend_ticket E contains secret (Some ip) prot) H"
  unfolding authorize_and_spend_ticket_def wp_try
proof (rule wp_mono [OF wp_validate_ticket], goal_cases)
  case (1 r H')
  show ?case
  proof (cases "\<exists>v. r = Inr (Some v)")
    case True
    then obtain v where v: "r = Inr (Some v)" ..
    with 1 have "validated_by E contains secret ip prot (vt_authorization v) (vt_id v) H'" by simp
    note valid = validated_by_mono [OF this]
    have "wp (\<lambda>r H. \<forall>a. r = Inr (Some a) \<longrightarrow>
         (\<exists>tid. validated_by E contains secret ip prot a tid H \<and> use_seen tid H)) (ticket_spend v) H'"
      by (rule wp_mono [OF wp_ticket_spend]) (use valid in blast)
    then show ?thesis by (simp add: v)
  next
    case False
    then show ?thesis by (auto split: sum.split option.split)
  qed
qed

lemma wp_gated_opens:
  "wp (opens_only (\<lambda>a H. a = authorization \<and> login_gate_reason out session_id ip a H))
     (prog_bind (hold_for_admin_approval out authorization session_id
        \<lparr> gc_remote_ip = Some ip, gc_credentials = Remember_Nothing \<rparr> permit t) (\<lambda>r. gate_result r finish)) H"
  unfolding wp_bind
  by (rule wp_mono, rule wp_hold [where ip = ip], simp, rule wp_gate_result) (auto intro: login_gate_reason_mono)

text \<open>
  C7: a database login by ticket that opens a target, whatever happens meanwhile: the address
  was not blocked; there was an unexpired ticket with the digest of the secret, with a use
  to spend; its user existed and might come from this address; its target existed and
  speaks the protocol of the connection; the authorization is exactly for that ticket, user
  and target; and the administrator's gate, if the target has one, was passed for a reason.
\<close>

theorem db_ticket_login_is_justified:
  assumes "run_in (run_db_authorization out session_id (Select_Ticket secret) ip turns t) envs g
      = (envs', trace, g', t', Login_Approved a)"
  shows "(\<exists>h\<in>set trace. snd (check_ip_blocked (out_env out) (out_contains out) (clock (gw_node h)) ip (gw_lp h)) = None)
    \<and> (\<exists>ticket user target.
         ticket_seen (out_env out) (out_contains out) secret ip ticket user target (access_of ` set trace)
       \<and> use_seen (tk_id ticket) (access_of ` set trace)
       \<and> options_protocol (tgt_options target) = tr_protocol t
       \<and> a = ticket_authorization (tr_protocol t) ticket user target)
    \<and> login_gate_reason out session_id ip a (set trace)"
proof -
  let ?hold = "\<lambda>authorization. prog_bind (hold_for_admin_approval out authorization session_id
      \<lparr> gc_remote_ip = Some ip, gc_credentials = Remember_Nothing \<rparr> True t) (\<lambda>r. gate_result r (Return ()))"
  obtain envs1 trace1 g1 blocked rest where
      check: "run_in (on_lp (\<lambda>now. check_ip_blocked (out_env out) (out_contains out) now ip)) envs g
        = (envs1, trace1, g1, blocked)"
    and run: "run_in (if blocked \<noteq> None then denied t
        else prog_bind (on_access (authorize_and_spend_ticket (out_env out) (out_contains out) secret (Some ip) (tr_protocol t)))
          (\<lambda>r. case r of Inl e \<Rightarrow> Return (t, Login_Failed (Db_Warpgate e)) | Inr None \<Rightarrow> denied t
             | Inr (Some authorization) \<Rightarrow> ?hold authorization)) envs1 g1
        = (envs', rest, g', t', Login_Approved a)"
    and trace: "trace = trace1 @ rest"
    using assms unfolding run_db_authorization_def auth_selector.case by (rule run_in_bindE)
  have none: "blocked = None" using run by (auto simp: denied_def split: if_splits)
  have unblocked: "\<exists>h\<in>set trace. snd (check_ip_blocked (out_env out) (out_contains out) (clock (gw_node h)) ip (gw_lp h)) = None"
    using check none by (auto simp: trace on_lp_def run_in_statement split: prod.splits)
  from run none obtain envs2 trace2 g2 r trace3 where
      spend: "run_in (on_access (authorize_and_spend_ticket (out_env out) (out_contains out) secret (Some ip) (tr_protocol t)))
        envs1 g1 = (envs2, trace2, g2, r)"
    and gate: "run_in (case r of Inl e \<Rightarrow> Return (t, Login_Failed (Db_Warpgate e)) | Inr None \<Rightarrow> denied t
        | Inr (Some authorization) \<Rightarrow> ?hold authorization) envs2 g2 = (envs', trace3, g', t', Login_Approved a)"
    and rest: "rest = trace2 @ trace3"
    by (auto elim: run_in_bindE)
  from gate obtain authorization where r: "r = Inr (Some authorization)"
    by (auto simp: denied_def split: sum.splits option.splits)
  have opened: "a = authorization \<and> login_gate_reason out session_id ip a (set trace3)"
    using wp_run_in [OF wp_gated_opens gate [unfolded r sum.case option.case], of "{}"] by (auto simp: opens_only_def)
  obtain tid where ticket: "validated_by (out_env out) (out_contains out) secret ip (tr_protocol t) a tid (access_of ` set trace2)"
      "use_seen tid (access_of ` set trace2)"
    using wp_run_in [OF wp_zoom [OF wp_authorize_ticket] spend [unfolded on_access_def], of "{}"] r opened by auto
  have sub: "access_of ` set trace2 \<subseteq> access_of ` set trace" "set trace3 \<subseteq> set trace" by (auto simp: trace rest)
  show ?thesis
    using unblocked validated_by_mono [OF ticket(1) sub(1)] use_seen_mono [OF ticket(2) sub(1)]
      login_gate_reason_mono [OF _ sub(2)] opened unfolding validated_by_def by blast
qed


text \<open>A login by a ticket, from an address that login protection leaves alone.\<close>

definition sample_ticket_gateway :: "(nat, unit) gateway" where
  "sample_ticket_gateway = sample_gateway\<lparr> gw_node := (gw_node sample_gateway)\<lparr> tickets := [sample_ticket] \<rparr> \<rparr>"

lemma run_on_access: "run (on_access p) g = (case run p (access_of g) of (s, x) \<Rightarrow> (set_access s g, x))"
  unfolding on_access_def by (rule run_zoom) (simp_all add: access_of_def set_access_def)

lemma sample_ticket_access:
  "clock (access_of sample_ticket_gateway) = 10" "tickets (access_of sample_ticket_gateway) = [sample_ticket]"
  "access_lp (access_of sample_ticket_gateway) = gw_lp sample_gateway"
  "access_targets (access_of sample_ticket_gateway) = [sample_target]"
  "db_users (svc_db (gw_lp sample_gateway)) = [sample_user]"
  by (simp_all add: access_of_def sample_ticket_gateway_def sample_gateway_def lp_new_def sample_db_def)

lemma sample_ticket_facts:
  "tk_secret_hash sample_ticket = hash_secret sample_env ''s''" "tk_user_id sample_ticket = user_id sample_user"
  "tk_target_id sample_ticket = tgt_id sample_target" "\<not> ticket_expired 10 sample_ticket" "tk_id sample_ticket = 60"
  "uses_above_zero sample_ticket" "tk_uses_left sample_ticket \<noteq> None"
  "options_protocol (tgt_options sample_target) = Ssh" "\<not> tgt_require_approval sample_target"
  "check_ip_allowed E contains (user_allowed_ip_ranges sample_user) ip u = Inr ()"
  by (simp_all add: sample_ticket_def ticket_expired_def uses_above_zero_def sample_target_def check_ip_allowed_def
      ip_allowed_def) (simp add: sample_user_def)

lemma sample_spend_run:
  "snd (run (authorize_and_spend_ticket sample_env sample_contains ''s'' (Some (V4 1)) Ssh) (access_of sample_ticket_gateway))
     = Inr (Some (ticket_authorization Ssh sample_ticket sample_user sample_target))"
proof -
  have same: "(access_of sample_ticket_gateway)\<lparr> access_lp := gw_lp sample_gateway \<rparr> = access_of sample_ticket_gateway"
    using sample_ticket_access(3) by simp
  show ?thesis
    by (simp add: authorize_and_spend_ticket_def validate_ticket_def check_ip_statement_def vet_statement_def
        vet_credential_bearer_def run_bind run_try sample_ticket_access sample_unprotected same sample_ticket_facts
        ticket_spend_def spend_use_def spend_update_def rows_affected_def Let_def ticket_authorization_def)
qed

lemma sample_ticket_run:
  "snd (run (run_db_authorization sample_outside 5 (Select_Ticket ''s'') (V4 1) []
      (sample_client\<lparr> tr_protocol := Ssh \<rparr>)) sample_ticket_gateway)
     = (sample_client\<lparr> tr_protocol := Ssh, tr_log := [Sent_AuthOk] \<rparr>,
        Login_Approved (ticket_authorization Ssh sample_ticket sample_user sample_target))"
proof -
  have out: "out_env sample_outside = sample_env" "out_contains sample_outside = sample_contains"
    "tr_log sample_client = []" "gw_lp sample_ticket_gateway = gw_lp sample_gateway"
    "sample_ticket_gateway\<lparr> gw_lp := gw_lp sample_gateway \<rparr> = sample_ticket_gateway"
    by (simp_all add: sample_outside_def sample_client_def sample_ticket_gateway_def)
  obtain s where spend: "run (authorize_and_spend_ticket sample_env sample_contains ''s'' (Some (V4 1)) Ssh)
      (access_of sample_ticket_gateway) = (s, Inr (Some (ticket_authorization Ssh sample_ticket sample_user sample_target)))"
    using sample_spend_run by (metis prod.collapse)
  show ?thesis
    by (simp add: run_db_authorization_def run_login run_on_access out sample_unprotected spend
        hold_for_admin_approval_def require_admin_approval_def sample_ticket_facts ticket_authorization_def
        gate_result_def announced_def send_auth_ok_def tr_send_def)
qed

theorem db_ticket_login_is_justified_witness:
  "\<exists>envs' trace g' t'. run_in (run_db_authorization sample_outside 5 (Select_Ticket ''s'') (V4 1) []
      (sample_client\<lparr> tr_protocol := Ssh \<rparr>)) [] sample_ticket_gateway
      = (envs', trace, g', t', Login_Approved (ticket_authorization Ssh sample_ticket sample_user sample_target))
    \<and> (\<exists>ticket user target. ticket_seen sample_env sample_contains ''s'' (V4 1) ticket user target (access_of ` set trace))"
proof -
  obtain envs' trace g' where run: "run_in (run_db_authorization sample_outside 5 (Select_Ticket ''s'') (V4 1) []
      (sample_client\<lparr> tr_protocol := Ssh \<rparr>)) [] sample_ticket_gateway
      = (envs', trace, g', sample_client\<lparr> tr_protocol := Ssh, tr_log := [Sent_AuthOk] \<rparr>,
         Login_Approved (ticket_authorization Ssh sample_ticket sample_user sample_target))"
    by (rule run_in_of_run [OF sample_ticket_run])
  have "out_env sample_outside = sample_env" "out_contains sample_outside = sample_contains"
    by (simp_all add: sample_outside_def)
  note out = this
  from db_ticket_login_is_justified [OF run, unfolded out] run show ?thesis by blast
qed

end
