(* ===== verification/Mysql_Packets.thy ===== *)
theory Mysql_Packets
  imports Wire
begin

text \<open>
  The packets of the MySQL protocol that the gateway reads and writes
  (\<open>warpgate-database-protocols/src/mysql/protocol\<close>): the server's handshake and the
  client's answer, the switch to another authentication method, the generic responses,
  queries and column definitions. The codecs are related by round trips that say
  exactly what survives the wire, and every decoded value is a well-formed one.
\<close>

unbundle bit_operations_syntax

section \<open>Capabilities\<close>

type_synonym capabilities = u64

definition MYSQL :: capabilities where "MYSQL = 1"
definition FOUND_ROWS :: capabilities where "FOUND_ROWS = 2"
definition LONG_FLAG :: capabilities where "LONG_FLAG = 4"
definition CONNECT_WITH_DB :: capabilities where "CONNECT_WITH_DB = 8"
definition NO_SCHEMA :: capabilities where "NO_SCHEMA = 16"
definition IGNORE_SPACE :: capabilities where "IGNORE_SPACE = 256"
definition PROTOCOL_41 :: capabilities where "PROTOCOL_41 = 512"
definition INTERACTIVE :: capabilities where "INTERACTIVE = 1024"
definition SSL :: capabilities where "SSL = 2048"
definition TRANSACTIONS :: capabilities where "TRANSACTIONS = 8192"
definition SECURE_CONNECTION :: capabilities where "SECURE_CONNECTION = push_bit 15 1"
definition PLUGIN_AUTH :: capabilities where "PLUGIN_AUTH = push_bit 19 1"
definition PLUGIN_AUTH_LENENC_DATA :: capabilities where "PLUGIN_AUTH_LENENC_DATA = push_bit 21 1"
definition SESSION_TRACK :: capabilities where "SESSION_TRACK = push_bit 23 1"
definition DEPRECATE_EOF :: capabilities where "DEPRECATE_EOF = push_bit 24 1"

text \<open>
  All declared flags, by bit: 12, 14 and 27 to 29 have no name, and no flag lies above
  bit 31.
\<close>

definition capabilities_all :: capabilities where
  "capabilities_all =
     foldr (\<lambda>i c. push_bit i 1 OR c)
       [0, 1, 2, 3, 4, 5, 6, 7, 8, 9, 10, 11, 13, 15, 16, 17, 18, 19, 20, 21, 22, 23, 24, 26, 30,
        25, 31] 0"

text \<open>\<open>bitflags\<close>: \<open>contains\<close>, \<open>remove\<close> and \<open>from_bits_truncate\<close>.\<close>

definition has_flags :: "'w::len word \<Rightarrow> 'w word \<Rightarrow> bool" where
  "has_flags c f \<longleftrightarrow> c AND f = f"

definition remove_flags :: "'w::len word \<Rightarrow> 'w word \<Rightarrow> 'w word" where
  "remove_flags c f = c AND NOT f"

definition capabilities_truncate :: "u64 \<Rightarrow> capabilities" where
  "capabilities_truncate bits = bits AND capabilities_all"

definition capabilities_ok :: "capabilities \<Rightarrow> bool" where
  "capabilities_ok c \<longleftrightarrow> capabilities_truncate c = c"

definition status_all :: u16 where
  "status_all = foldr (\<lambda>i c. push_bit i 1 OR c) [0, 1, 3, 4, 5, 6, 7, 8, 9, 10, 11, 12, 13, 14] 0"

definition status_truncate :: "u16 \<Rightarrow> u16" where
  "status_truncate bits = bits AND status_all"

section \<open>Authentication plugins\<close>

datatype auth_plugin =
    MySqlClearPassword
  | MySqlNativePassword
  | CachingSha2Password
  | Sha256Password

fun plugin_name :: "auth_plugin \<Rightarrow> string" where
  "plugin_name MySqlClearPassword = ''mysql_clear_password''"
| "plugin_name MySqlNativePassword = ''mysql_native_password''"
| "plugin_name CachingSha2Password = ''caching_sha2_password''"
| "plugin_name Sha256Password = ''sha256_password''"

definition plugin_from_str :: "string \<Rightarrow> wire_error + auth_plugin" where
  "plugin_from_str s =
     (if s = ''mysql_clear_password'' then Inr MySqlClearPassword
      else if s = ''mysql_native_password'' then Inr MySqlNativePassword
      else if s = ''caching_sha2_password'' then Inr CachingSha2Password
      else if s = ''sha256_password'' then Inr Sha256Password
      else Inl (UnknownPlugin s))"

definition get_plugin :: "bytes \<Rightarrow> auth_plugin read" where
  "get_plugin buf =
     read_then (get_str_nul buf) (\<lambda>s buf.
     case plugin_from_str s of Inl e \<Rightarrow> Inl e | Inr p \<Rightarrow> Inr (p, buf))"

section \<open>The server's handshake\<close>

record handshake =
  protocol_version :: byte
  server_version :: string
  connection_id :: u32
  server_capabilities :: capabilities
  server_default_collation :: byte
  hs_status :: u16
  hs_auth_plugin :: "auth_plugin option"
  auth_plugin_data :: "bytes \<times> bytes"

definition get_auth_plugin :: "capabilities \<Rightarrow> bytes \<Rightarrow> auth_plugin option read" where
  "get_auth_plugin partial_cap buf =
     (if has_flags partial_cap PLUGIN_AUTH
      then read_then (get_plugin buf) (\<lambda>p buf. Inr (Some p, buf))
      else Inr (None, buf))"

definition get_auth_data_len :: "capabilities \<Rightarrow> bytes \<Rightarrow> byte read" where
  "get_auth_data_len caps buf =
     (if has_flags caps PLUGIN_AUTH then try_get_u8 buf
      else read_then (skip 1 buf) (\<lambda>_ buf. Inr (0, buf)))"

definition get_extended_capabilities :: "capabilities \<Rightarrow> bytes \<Rightarrow> capabilities read" where
  "get_extended_capabilities caps buf =
     (if has_flags caps MYSQL then read_then (skip 4 buf) (\<lambda>_ buf. Inr (caps, buf))
      else read_then (try_get_u32_le buf) (\<lambda>capabilities_3 buf.
           Inr (caps OR capabilities_truncate (push_bit 32 (ucast capabilities_3)), buf)))"

definition get_auth_data_2 :: "capabilities \<Rightarrow> byte \<Rightarrow> bytes \<Rightarrow> bytes read" where
  "get_auth_data_2 caps data_len buf =
     (if has_flags caps SECURE_CONNECTION
      then read_then (get_bytes (nat (max (uint data_len - 9) 12)) buf) (\<lambda>v buf.
           read_then (skip 1 buf) (\<lambda>_ buf. Inr (v, buf)))
      else Inr ([], buf))"

definition handshake_decode :: "bytes \<Rightarrow> wire_error + handshake" where
  "handshake_decode buf =
     read_then (try_get_u8 buf) (\<lambda>version buf.
     read_then (get_str_nul buf) (\<lambda>server buf.
     read_then (try_get_u32_le buf) (\<lambda>conn buf.
     read_then (get_bytes 8 buf) (\<lambda>data_1 buf.
     read_then (skip 1 buf) (\<lambda>_ buf.
     read_then (try_get_u16_le buf) (\<lambda>capabilities_1 buf.
     read_then (try_get_u8 buf) (\<lambda>collation buf.
     read_then (try_get_u16_le buf) (\<lambda>stat buf.
     read_then (try_get_u16_le buf) (\<lambda>capabilities_2 buf.
     let caps = capabilities_truncate (ucast capabilities_1) OR
                capabilities_truncate (ucast (push_bit 16 (ucast capabilities_2 :: u32))) in
     read_then (get_auth_data_len caps buf) (\<lambda>data_len buf.
     read_then (skip 6 buf) (\<lambda>_ buf.
     read_then (get_extended_capabilities caps buf) (\<lambda>caps buf.
     read_then (get_auth_data_2 caps data_len buf) (\<lambda>data_2 buf.
     read_then (get_auth_plugin caps buf) (\<lambda>plugin buf.
     Inr \<lparr> protocol_version = version, server_version = server, connection_id = conn,
           server_capabilities = caps, server_default_collation = collation,
           hs_status = status_truncate stat, hs_auth_plugin = plugin,
           auth_plugin_data = (data_1, data_2) \<rparr>))))))))))))))"

definition put_auth_data_len :: "handshake \<Rightarrow> byte" where
  "put_auth_data_len h =
     (if has_flags (server_capabilities h) PLUGIN_AUTH
      then word_of_nat (length (snd (auth_plugin_data h)) + 8 + 1) else 0)"

definition put_auth_data_2 :: "handshake \<Rightarrow> bytes" where
  "put_auth_data_2 h =
     (if has_flags (server_capabilities h) SECURE_CONNECTION
      then snd (auth_plugin_data h) @ [0] else [])"

definition put_server_plugin :: "handshake \<Rightarrow> bytes" where
  "put_server_plugin h =
     (if has_flags (server_capabilities h) PLUGIN_AUTH
      then (case hs_auth_plugin h of Some p \<Rightarrow> put_str_nul (plugin_name p) | None \<Rightarrow> [])
      else [])"

definition handshake_encode :: "handshake \<Rightarrow> bytes" where
  "handshake_encode h =
     (let caps = server_capabilities h in
      [protocol_version h] @ put_str_nul (server_version h) @ to_le_bytes 4 (connection_id h) @
      fst (auth_plugin_data h) @ [0] @
      to_le_bytes 2 (ucast (caps AND 0xFFFF) :: u16) @
      [server_default_collation h] @ to_le_bytes 2 (hs_status h) @
      to_le_bytes 2 (ucast (drop_bit 16 (caps AND 0xFFFF0000)) :: u16) @
      [put_auth_data_len h] @ replicate 10 0 @ put_auth_data_2 h @ put_server_plugin h)"

section \<open>The client's answer\<close>

record ssl_request =
  ssl_max_packet_size :: u32
  ssl_collation :: byte

definition ssl_request_encode :: "ssl_request \<Rightarrow> capabilities \<Rightarrow> bytes" where
  "ssl_request_encode r caps =
     to_le_bytes 4 (ucast caps :: u32) @ to_le_bytes 4 (ssl_max_packet_size r) @
     [ssl_collation r] @ replicate 19 0 @
     (if has_flags caps MYSQL then replicate 4 0
      else to_le_bytes 4 (ucast (drop_bit 32 caps) :: u32))"

record handshake_response =
  hr_database :: "string option"
  hr_max_packet_size :: u32
  hr_collation :: byte
  hr_username :: string
  hr_auth_plugin :: "auth_plugin option"
  hr_auth_response :: "bytes option"

definition encoded_capabilities :: "handshake_response \<Rightarrow> capabilities \<Rightarrow> capabilities" where
  "encoded_capabilities r caps =
     (if hr_auth_plugin r = None then remove_flags caps PLUGIN_AUTH else caps)"

definition put_auth_response :: "handshake_response \<Rightarrow> capabilities \<Rightarrow> bytes" where
  "put_auth_response r caps =
     (if has_flags caps PLUGIN_AUTH_LENENC_DATA
      then (case hr_auth_response r of
              Some response \<Rightarrow> put_bytes_lenenc response | None \<Rightarrow> put_bytes_lenenc [])
      else if has_flags caps SECURE_CONNECTION
      then (case hr_auth_response r of
              Some response \<Rightarrow> word_of_nat (length response) # response | None \<Rightarrow> [0])
      else [0])"

definition put_database :: "handshake_response \<Rightarrow> capabilities \<Rightarrow> bytes" where
  "put_database r caps =
     (if has_flags caps CONNECT_WITH_DB
      then (case hr_database r of Some database \<Rightarrow> put_str_nul database | None \<Rightarrow> [0])
      else [])"

definition put_auth_plugin :: "handshake_response \<Rightarrow> capabilities \<Rightarrow> bytes" where
  "put_auth_plugin r caps =
     (if has_flags caps PLUGIN_AUTH
      then (case hr_auth_plugin r of Some p \<Rightarrow> put_str_nul (plugin_name p) | None \<Rightarrow> [0])
      else [])"

definition handshake_response_encode :: "handshake_response \<Rightarrow> capabilities \<Rightarrow> bytes" where
  "handshake_response_encode r caps0 =
     (let caps = encoded_capabilities r caps0 in
      ssl_request_encode
        \<lparr> ssl_max_packet_size = hr_max_packet_size r, ssl_collation = hr_collation r \<rparr> caps @
      put_str_nul (hr_username r) @ put_auth_response r caps @ put_database r caps @
      put_auth_plugin r caps)"

definition get_auth_response :: "capabilities \<Rightarrow> bytes \<Rightarrow> bytes read" where
  "get_auth_response partial_cap buf =
     (if has_flags partial_cap PLUGIN_AUTH_LENENC_DATA then get_bytes_lenenc buf
      else if has_flags partial_cap SECURE_CONNECTION
      then read_then (try_get_u8 buf) (\<lambda>len buf. get_bytes (unat len) buf)
      else get_bytes_nul buf)"

definition get_database :: "capabilities \<Rightarrow> bytes \<Rightarrow> string option read" where
  "get_database partial_cap buf =
     (if has_flags partial_cap CONNECT_WITH_DB
      then read_then (get_str_nul buf) (\<lambda>d buf. Inr (Some d, buf))
      else Inr (None, buf))"

text \<open>Returns the response and the server's capabilities after the decode.\<close>

definition handshake_response_decode ::
  "bytes \<Rightarrow> capabilities \<Rightarrow> wire_error + handshake_response \<times> capabilities" where
  "handshake_response_decode buf server_caps =
     read_then (try_get_u32_le buf) (\<lambda>bits buf.
     read_then (try_get_u32_le buf) (\<lambda>max_packet_size buf.
     read_then (try_get_u8 buf) (\<lambda>collation buf.
     read_then (skip 19 buf) (\<lambda>_ buf.
     let caps = (ucast bits :: u64) in
     read_then
       (if has_flags (capabilities_truncate caps) MYSQL
        then read_then (skip 4 buf) (\<lambda>_ buf. Inr (caps, buf))
        else read_then (try_get_u32_le buf) (\<lambda>ext buf. Inr (caps + push_bit 32 (ucast ext), buf)))
       (\<lambda>caps buf.
     let partial_cap = capabilities_truncate caps in
     if has_flags partial_cap SSL \<and> buf = []
     then Inr (\<lparr> hr_database = None, hr_max_packet_size = max_packet_size,
                 hr_collation = collation, hr_username = '''', hr_auth_plugin = None,
                 hr_auth_response = None \<rparr>, server_caps)
     else
     read_then (get_str_nul buf) (\<lambda>username buf.
     read_then (get_auth_response partial_cap buf) (\<lambda>response buf.
     read_then (get_database partial_cap buf) (\<lambda>database buf.
     read_then (get_auth_plugin partial_cap buf) (\<lambda>plugin buf.
     Inr (\<lparr> hr_database = database, hr_max_packet_size = max_packet_size,
            hr_collation = collation, hr_username = username, hr_auth_plugin = plugin,
            hr_auth_response = Some response \<rparr>, server_caps AND partial_cap))))))))))"

section \<open>Switching the authentication method\<close>

record auth_switch_request =
  switch_plugin :: auth_plugin
  switch_data :: bytes

definition auth_switch_decode :: "bytes \<Rightarrow> wire_error + auth_switch_request" where
  "auth_switch_decode buf =
     read_then (try_get_u8 buf) (\<lambda>header buf.
     if header \<noteq> 0xfe then Inl (UnexpectedHeader header)
     else read_then (get_plugin buf) (\<lambda>plugin buf.
     Inr \<lparr> switch_plugin = plugin,
           switch_data = (if buf \<noteq> [] \<and> last buf = 0 then butlast buf else buf) \<rparr>))"

definition auth_switch_encode :: "auth_switch_request \<Rightarrow> bytes" where
  "auth_switch_encode r = [0xfe] @ put_str_nul (plugin_name (switch_plugin r)) @ switch_data r"

definition auth_switch_response_encode :: "bytes \<Rightarrow> bytes" where
  "auth_switch_response_encode r = r"

section \<open>Generic responses\<close>

record ok_packet =
  affected_rows :: u64
  last_insert_id :: u64
  ok_status :: u16
  ok_warnings :: u16

definition ok_decode :: "bytes \<Rightarrow> wire_error + ok_packet" where
  "ok_decode buf =
     read_then (try_get_u8 buf) (\<lambda>header buf.
     if header \<noteq> 0 \<and> header \<noteq> 0xfe then Inl (UnexpectedHeader header)
     else read_then (get_uint_lenenc buf) (\<lambda>rows buf.
     read_then (get_uint_lenenc buf) (\<lambda>insert_id buf.
     read_then (try_get_u16_le buf) (\<lambda>stat buf.
     read_then (try_get_u16_le buf) (\<lambda>warnings buf.
     Inr \<lparr> affected_rows = rows, last_insert_id = insert_id,
           ok_status = status_truncate stat, ok_warnings = warnings \<rparr>)))))"

definition ok_encode :: "ok_packet \<Rightarrow> bytes" where
  "ok_encode p =
     [0] @ put_uint_lenenc (affected_rows p) @ put_uint_lenenc (last_insert_id p) @
     to_le_bytes 2 (ok_status p) @ to_le_bytes 2 (ok_warnings p)"

record eof_packet =
  eof_warnings :: u16
  eof_status :: u16

definition eof_decode :: "bytes \<Rightarrow> wire_error + eof_packet" where
  "eof_decode buf =
     read_then (try_get_u8 buf) (\<lambda>header buf.
     if header \<noteq> 0xfe then Inl (UnexpectedHeader header)
     else read_then (try_get_u16_le buf) (\<lambda>warnings buf.
     read_then (try_get_u16_le buf) (\<lambda>stat buf.
     Inr \<lparr> eof_warnings = warnings, eof_status = status_truncate stat \<rparr>)))"

text \<open>\<open>Packet::eof\<close>: a peer without EOF packets sends an OK packet instead.\<close>

definition packet_eof :: "bytes \<Rightarrow> capabilities \<Rightarrow> wire_error + eof_packet" where
  "packet_eof buf caps =
     (if has_flags caps DEPRECATE_EOF
      then (case ok_decode buf of
              Inl e \<Rightarrow> Inl e
            | Inr ok \<Rightarrow> Inr \<lparr> eof_warnings = ok_warnings ok, eof_status = ok_status ok \<rparr>)
      else eof_decode buf)"

record err_packet =
  error_code :: u16
  sql_state :: "string option"
  error_message :: string

definition err_decode :: "bytes \<Rightarrow> capabilities \<Rightarrow> wire_error + err_packet" where
  "err_decode buf caps =
     read_then (try_get_u8 buf) (\<lambda>header buf.
     if header \<noteq> 0xff then Inl (UnexpectedHeader header)
     else read_then (try_get_u16_le buf) (\<lambda>code buf.
     read_then
       (if has_flags caps PROTOCOL_41 \<and> buf \<noteq> [] \<and> hd buf = 0x23
        then read_then (skip 1 buf) (\<lambda>_ buf.
             read_then (get_str 5 buf) (\<lambda>state buf. Inr (Some state, buf)))
        else Inr (None, buf)) (\<lambda>state buf.
     read_then (get_str (length buf) buf) (\<lambda>message _.
     Inr \<lparr> error_code = code, sql_state = state, error_message = message \<rparr>))))"

definition err_encode :: "err_packet \<Rightarrow> bytes" where
  "err_encode p = [0xff] @ to_le_bytes 2 (error_code p) @ as_bytes (error_message p)"

section \<open>Commands\<close>

definition query_encode :: "string \<Rightarrow> bytes" where
  "query_encode q = 0x03 # as_bytes q"

definition query_decode :: "bytes \<Rightarrow> wire_error + string" where
  "query_decode buf =
     read_then (skip 1 buf) (\<lambda>_ buf.
     read_then (get_str (length buf) buf) (\<lambda>q _. Inr q))"

definition quit_encode :: bytes where
  "quit_encode = [0x01]"

definition ping_encode :: bytes where
  "ping_encode = [0x0e]"

section \<open>Packet framing\<close>

text \<open>
  \<open>Packet::encode_with\<close>: three bytes of length and the sequence number, which advances
  modulo 256. A payload of 16 MiB or more fails an assertion.
\<close>

definition packet_encode :: "bytes \<Rightarrow> byte \<Rightarrow> (bytes \<times> byte) option" where
  "packet_encode payload sequence_id =
     (if length payload < 0xFFFFFF
      then Some (take 3 (to_le_bytes 4 (word_of_nat (length payload) :: u32)) @ [sequence_id] @
                   payload, sequence_id + 1)
      else None)"

section \<open>Column definitions\<close>

datatype column_type =
    CT_Decimal | CT_Tiny | CT_Short | CT_Long | CT_Float | CT_Double | CT_Null | CT_Timestamp
  | CT_LongLong | CT_Int24 | CT_Date | CT_Time | CT_Datetime | CT_Year | CT_VarChar | CT_Bit
  | CT_Json | CT_NewDecimal | CT_Enum | CT_Set | CT_TinyBlob | CT_MediumBlob | CT_LongBlob
  | CT_Blob | CT_VarString | CT_String | CT_Geometry

text \<open>The discriminants of the enumeration.\<close>

fun column_type_id :: "column_type \<Rightarrow> byte" where
  "column_type_id CT_Decimal = 0x00"
| "column_type_id CT_Tiny = 0x01"
| "column_type_id CT_Short = 0x02"
| "column_type_id CT_Long = 0x03"
| "column_type_id CT_Float = 0x04"
| "column_type_id CT_Double = 0x05"
| "column_type_id CT_Null = 0x06"
| "column_type_id CT_Timestamp = 0x07"
| "column_type_id CT_LongLong = 0x08"
| "column_type_id CT_Int24 = 0x09"
| "column_type_id CT_Date = 0x0a"
| "column_type_id CT_Time = 0x0b"
| "column_type_id CT_Datetime = 0x0c"
| "column_type_id CT_Year = 0x0d"
| "column_type_id CT_VarChar = 0x0f"
| "column_type_id CT_Bit = 0x10"
| "column_type_id CT_Json = 0xf5"
| "column_type_id CT_NewDecimal = 0xf6"
| "column_type_id CT_Enum = 0xf7"
| "column_type_id CT_Set = 0xf8"
| "column_type_id CT_TinyBlob = 0xf9"
| "column_type_id CT_MediumBlob = 0xfa"
| "column_type_id CT_LongBlob = 0xfb"
| "column_type_id CT_Blob = 0xfc"
| "column_type_id CT_VarString = 0xfd"
| "column_type_id CT_String = 0xfe"
| "column_type_id CT_Geometry = 0xff"

definition column_type_try_from :: "byte \<Rightarrow> wire_error + column_type" where
  "column_type_try_from i =
     (if i = 0x00 then Inr CT_Decimal else if i = 0x01 then Inr CT_Tiny
      else if i = 0x02 then Inr CT_Short else if i = 0x03 then Inr CT_Long
      else if i = 0x04 then Inr CT_Float else if i = 0x05 then Inr CT_Double
      else if i = 0x06 then Inr CT_Null else if i = 0x07 then Inr CT_Timestamp
      else if i = 0x08 then Inr CT_LongLong else if i = 0x09 then Inr CT_Int24
      else if i = 0x0a then Inr CT_Date else if i = 0x0b then Inr CT_Time
      else if i = 0x0c then Inr CT_Datetime else if i = 0x0d then Inr CT_Year
      else if i = 0x0f then Inr CT_VarChar else if i = 0x10 then Inr CT_Bit
      else if i = 0xf5 then Inr CT_Json else if i = 0xf6 then Inr CT_NewDecimal
      else if i = 0xf7 then Inr CT_Enum else if i = 0xf8 then Inr CT_Set
      else if i = 0xf9 then Inr CT_TinyBlob else if i = 0xfa then Inr CT_MediumBlob
      else if i = 0xfb then Inr CT_LongBlob else if i = 0xfc then Inr CT_Blob
      else if i = 0xfd then Inr CT_VarString else if i = 0xfe then Inr CT_String
      else if i = 0xff then Inr CT_Geometry
      else Inl (UnknownColumnType i))"

definition column_flags_all :: u16 where
  "column_flags_all =
     foldr (\<lambda>i c. push_bit i 1 OR c) [0, 1, 2, 3, 4, 5, 6, 7, 8, 9, 10, 11, 12, 13, 15] 0"

record column_definition =
  cd_catalog :: bytes
  cd_schema :: bytes
  cd_table_alias :: bytes
  cd_table :: bytes
  cd_alias :: bytes
  cd_name :: bytes
  cd_char_set :: u16
  cd_max_size :: u32
  cd_type :: column_type
  cd_flags :: u16
  cd_decimals :: byte

definition column_definition_decode :: "bytes \<Rightarrow> wire_error + column_definition" where
  "column_definition_decode buf =
     read_then (get_bytes_lenenc buf) (\<lambda>catalog buf.
     read_then (get_bytes_lenenc buf) (\<lambda>schema buf.
     read_then (get_bytes_lenenc buf) (\<lambda>table_alias buf.
     read_then (get_bytes_lenenc buf) (\<lambda>tbl buf.
     read_then (get_bytes_lenenc buf) (\<lambda>alias buf.
     read_then (get_bytes_lenenc buf) (\<lambda>name buf.
     read_then (get_uint_lenenc buf) (\<lambda>_ buf.
     read_then (try_get_u16_le buf) (\<lambda>char_set buf.
     read_then (try_get_u32_le buf) (\<lambda>max_size buf.
     read_then (try_get_u8 buf) (\<lambda>type_id buf.
     read_then (try_get_u16_le buf) (\<lambda>flags buf.
     read_then (try_get_u8 buf) (\<lambda>decimals buf.
     case column_type_try_from type_id of Inl e \<Rightarrow> Inl e | Inr t \<Rightarrow>
     Inr \<lparr> cd_catalog = catalog, cd_schema = schema, cd_table_alias = table_alias,
           cd_table = tbl, cd_alias = alias, cd_name = name, cd_char_set = char_set,
           cd_max_size = max_size, cd_type = t, cd_flags = flags AND column_flags_all,
           cd_decimals = decimals \<rparr>))))))))))))"

section \<open>Flags\<close>

lemma capabilities_all_value: "capabilities_all = 0xC7FFAFFF"
  by (simp add: capabilities_all_def push_bit_eq_mult)

lemma capabilities_ok_small:
  assumes "capabilities_ok c"
  shows "unat c < 2 ^ 32"
proof -
  have "c = c AND capabilities_all"
    using assms by (simp add: capabilities_ok_def capabilities_truncate_def)
  also have "\<dots> \<le> capabilities_all" by (rule word_and_le1)
  finally have "unat c \<le> unat capabilities_all" by (simp only: word_le_nat_alt)
  then show ?thesis by (simp add: capabilities_all_value)
qed

lemma capabilities_ok_truncate [simp]: "capabilities_ok c \<Longrightarrow> capabilities_truncate c = c"
  by (simp add: capabilities_ok_def)

lemma capabilities_truncate_ok [simp]: "capabilities_ok (capabilities_truncate c)"
  by (simp add: capabilities_ok_def capabilities_truncate_def)

lemma capabilities_ok_remove:
  assumes "capabilities_ok c"
  shows "capabilities_ok (remove_flags c f)"
proof -
  have "c AND capabilities_all = c"
    using assms by (simp add: capabilities_ok_def capabilities_truncate_def)
  then have "(c AND NOT f) AND capabilities_all = c AND NOT f"
    by (metis and.assoc and.commute)
  then show ?thesis
    by (simp add: capabilities_ok_def capabilities_truncate_def remove_flags_def)
qed

lemma capabilities_ok_encoded: "capabilities_ok c \<Longrightarrow> capabilities_ok (encoded_capabilities r c)"
  by (simp add: encoded_capabilities_def capabilities_ok_remove)

lemma ucast_capabilities: "capabilities_ok c \<Longrightarrow> ucast (ucast c :: u32) = c"
  by (rule ucast_small) (simp add: capabilities_ok_small [simplified])

lemma capabilities_high:
  assumes "capabilities_ok c"
  shows "drop_bit 32 c = 0"
proof -
  have "unat (drop_bit 32 c) = drop_bit 32 (unat c)"
    using capabilities_ok_small [OF assms]
    by (subst unsigned_drop_bit_eq) (simp add: take_bit_nat_eq_self)
  also have "\<dots> = 0"
    using capabilities_ok_small [OF assms] by (simp add: drop_bit_eq_div)
  finally have "unat (drop_bit 32 c) = 0" .
  then show ?thesis by (simp add: unat_eq_0)
qed

lemma has_PLUGIN_AUTH_encoded:
  assumes "has_flags (encoded_capabilities r c) PLUGIN_AUTH"
  shows "hr_auth_plugin r \<noteq> None"
proof
  assume "hr_auth_plugin r = None"
  with assms have "(c AND NOT PLUGIN_AUTH) AND PLUGIN_AUTH = PLUGIN_AUTH"
    by (simp add: encoded_capabilities_def has_flags_def remove_flags_def)
  moreover have "(c AND NOT PLUGIN_AUTH) AND PLUGIN_AUTH = 0"
    by (rule bit_word_eqI) (simp add: bit_simps)
  ultimately have "PLUGIN_AUTH = 0" by simp
  then show False by (simp add: PLUGIN_AUTH_def push_bit_eq_mult)
qed

section \<open>Plugins\<close>

lemma plugin_from_name [simp]: "plugin_from_str (plugin_name p) = Inr p"
  by (cases p) (simp_all add: plugin_from_str_def)

lemma plugin_name_str: "is_str (plugin_name p)" "nul_free (plugin_name p)"
  by (cases p; simp add: is_str_def nul_free_def as_bytes_def)+

interpretation plugin_field: wire_field "\<lambda>_. True" "\<lambda>p. put_str_nul (plugin_name p)" get_plugin
  by unfold_locales (simp add: get_plugin_def str_field.get_put plugin_name_str)

section \<open>Round trips\<close>

lemmas field_laws = u16_field.get_put u32_field.get_put u64_field.get_put lenenc_field.get_put
  bytes_field.get_put str_field.get_put plugin_field.get_put

subsection \<open>The client's answer\<close>

text \<open>
  What a response must satisfy to be written without loss: texts are UTF-8 without NUL,
  and without length-encoded data the authentication response fits its length byte.
\<close>

definition response_ok :: "handshake_response \<Rightarrow> capabilities \<Rightarrow> bool" where
  "response_ok r caps \<longleftrightarrow>
     is_str (hr_username r) \<and> nul_free (hr_username r) \<and>
     (case hr_database r of Some d \<Rightarrow> is_str d \<and> nul_free d | None \<Rightarrow> True) \<and>
     (case hr_auth_response r of
        Some a \<Rightarrow> if has_flags caps PLUGIN_AUTH_LENENC_DATA then fits_lenenc a else length a < 256
      | None \<Rightarrow> True)"

text \<open>
  What the other side sees: an authentication response where one is negotiated, a
  database and a plugin where the capabilities announce them, and empty values for
  those that are announced but missing.
\<close>

definition response_received :: "handshake_response \<Rightarrow> capabilities \<Rightarrow> handshake_response" where
  "response_received r caps =
     r\<lparr> hr_database :=
          (if has_flags caps CONNECT_WITH_DB
           then Some (case hr_database r of Some d \<Rightarrow> d | None \<Rightarrow> []) else None),
        hr_auth_plugin := (if has_flags caps PLUGIN_AUTH then hr_auth_plugin r else None),
        hr_auth_response := Some
          (if has_flags caps PLUGIN_AUTH_LENENC_DATA \<or> has_flags caps SECURE_CONNECTION
           then (case hr_auth_response r of Some a \<Rightarrow> a | None \<Rightarrow> []) else []) \<rparr>"

lemma empty_str [simp]: "is_str []" "nul_free []" "put_str_nul [] = [0]"
  by (simp_all add: is_str_def nul_free_def put_str_nul_def as_bytes_def)

lemma get_str_nul_0 [simp]: "get_str_nul (0 # rest) = Inr ([], rest)"
  using str_field.get_put [of "[]" rest] by simp

lemma put_str_nul_nonempty [simp]: "put_str_nul s \<noteq> []"
  by (simp add: put_str_nul_def)

lemma fits_lenenc_Nil [simp]: "fits_lenenc []"
  by (simp add: fits_lenenc_def)

lemma get_bytes_nul_0 [simp]: "get_bytes_nul (0 # rest) = Inr ([], rest)"
  using get_bytes_nul_append [of "[]" rest] by simp

lemma get_put_auth_response:
  assumes "response_ok r caps"
  shows "get_auth_response caps (put_auth_response r caps @ rest) =
    Inr (the (hr_auth_response (response_received r caps)), rest)"
  using assms
  by (cases "hr_auth_response r")
    (auto simp: get_auth_response_def put_auth_response_def response_received_def response_ok_def
      field_laws get_bytes_def unat_of_nat)

lemma get_put_database:
  assumes "response_ok r caps"
  shows "get_database caps (put_database r caps @ rest) =
    Inr (hr_database (response_received r caps), rest)"
  using assms
  by (cases "hr_database r")
    (auto simp: get_database_def put_database_def response_received_def response_ok_def field_laws)

lemma get_put_auth_plugin:
  assumes "has_flags caps PLUGIN_AUTH \<Longrightarrow> hr_auth_plugin r \<noteq> None"
  shows "get_auth_plugin caps (put_auth_plugin r caps) =
    Inr (hr_auth_plugin (response_received r caps), [])"
  using assms
  by (auto simp: get_auth_plugin_def put_auth_plugin_def response_received_def
      plugin_field.get_put_end)

lemma response_received_fields [simp]:
  "hr_max_packet_size (response_received r caps) = hr_max_packet_size r"
  "hr_collation (response_received r caps) = hr_collation r"
  "hr_username (response_received r caps) = hr_username r"
  "hr_auth_response (response_received r caps) \<noteq> None"
  by (simp_all add: response_received_def)

text \<open>
  C24: A client's answer decodes to what the capabilities announce of it. The capabilities
  negotiated by the receiver are its own that the sender announced, and the
  authentication plugin is announced only when there is one.
\<close>

theorem handshake_response_roundtrip:
  assumes caps: "capabilities_ok caps"
    and ok: "response_ok r (encoded_capabilities r caps)"
  shows "handshake_response_decode (handshake_response_encode r caps) server_caps =
    Inr (response_received r (encoded_capabilities r caps),
         server_caps AND encoded_capabilities r caps)"
proof -
  define c where "c = encoded_capabilities r caps"
  have c: "capabilities_ok c" unfolding c_def by (rule capabilities_ok_encoded [OF caps])
  have u: "is_str (hr_username r) \<and> nul_free (hr_username r)"
    using ok by (simp add: response_ok_def)
  have p: "has_flags c PLUGIN_AUTH \<Longrightarrow> hr_auth_plugin r \<noteq> None"
    unfolding c_def by (rule has_PLUGIN_AUTH_encoded)
  note fields = field_laws str_field.get_put [OF u] get_put_auth_response [OF ok [folded c_def]]
    get_put_database [OF ok [folded c_def]] get_put_auth_plugin [OF p]
  note start = ucast_capabilities [OF c] capabilities_ok_truncate [OF c] capabilities_high [OF c]
  show ?thesis
    unfolding handshake_response_decode_def handshake_response_encode_def ssl_request_encode_def
      c_def [symmetric] Let_def
    by (simp add: fields start)
qed

definition sample_response :: handshake_response where
  "sample_response =
     \<lparr> hr_database = None, hr_max_packet_size = 4194304, hr_collation = 45,
       hr_username = ''bob#db'', hr_auth_plugin = Some MySqlClearPassword,
       hr_auth_response = Some [115, 101, 99, 0] \<rparr>"

definition sample_caps :: capabilities where
  "sample_caps = PROTOCOL_41 OR SSL OR CONNECT_WITH_DB OR PLUGIN_AUTH OR SECURE_CONNECTION"

lemmas flag_defs = MYSQL_def FOUND_ROWS_def LONG_FLAG_def CONNECT_WITH_DB_def NO_SCHEMA_def
  IGNORE_SPACE_def PROTOCOL_41_def INTERACTIVE_def SSL_def TRANSACTIONS_def SECURE_CONNECTION_def
  PLUGIN_AUTH_def PLUGIN_AUTH_LENENC_DATA_def SESSION_TRACK_def DEPRECATE_EOF_def

lemma sample_caps_value: "sample_caps = 0x88A08"
  by (simp add: sample_caps_def flag_defs push_bit_eq_mult)

theorem handshake_response_roundtrip_witness:
  "capabilities_ok sample_caps \<and>
   response_ok sample_response (encoded_capabilities sample_response sample_caps) \<and>
   handshake_response_decode (handshake_response_encode sample_response sample_caps) SSL =
     Inr (sample_response\<lparr> hr_database := Some [] \<rparr>, SSL)"
proof -
  have e: "encoded_capabilities sample_response sample_caps = sample_caps"
    by (simp add: encoded_capabilities_def sample_response_def)
  have c: "capabilities_ok sample_caps"
    by (simp add: capabilities_ok_def capabilities_truncate_def capabilities_all_value sample_caps_value)
  have r: "response_ok sample_response (encoded_capabilities sample_response sample_caps)"
    unfolding e
    by (simp add: response_ok_def sample_response_def is_str_def nul_free_def as_bytes_def
        has_flags_def sample_caps_value flag_defs push_bit_eq_mult)
  have v: "response_received sample_response sample_caps = sample_response\<lparr> hr_database := Some [] \<rparr>"
    by (simp add: response_received_def has_flags_def sample_caps_value flag_defs push_bit_eq_mult
        sample_response_def)
  have s: "SSL AND sample_caps = SSL"
    by (simp add: sample_caps_value SSL_def)
  show ?thesis
    using handshake_response_roundtrip [OF c r, of SSL] c r by (simp add: e v s)
qed

subsection \<open>The server's handshake\<close>

definition handshake_ok :: "handshake \<Rightarrow> bool" where
  "handshake_ok h \<longleftrightarrow>
     capabilities_ok (server_capabilities h) \<and> status_truncate (hs_status h) = hs_status h \<and>
     is_str (server_version h) \<and> nul_free (server_version h) \<and>
     (hs_auth_plugin h \<noteq> None \<longleftrightarrow> has_flags (server_capabilities h) PLUGIN_AUTH) \<and>
     length (fst (auth_plugin_data h)) = 8 \<and>
     (if has_flags (server_capabilities h) SECURE_CONNECTION
      then 12 \<le> length (snd (auth_plugin_data h)) \<and>
           length (snd (auth_plugin_data h)) \<le>
             (if has_flags (server_capabilities h) PLUGIN_AUTH then 246 else 12)
      else snd (auth_plugin_data h) = [])"

lemma low_mask: "(0xFFFF :: u64) = mask 16"
  by (simp add: mask_eq_exp_minus_1)

lemma high_mask: "(0xFFFF0000 :: u64) = push_bit 16 (mask 16)"
  by (simp add: mask_eq_exp_minus_1 push_bit_eq_mult)

lemma and_or_split: "(c AND m) AND a OR (c AND n) AND a = (c AND (m OR n)) AND (a :: 'w::len word)"
  by (rule bit_word_eqI) (auto simp: bit_simps)

lemma capabilities_halves:
  assumes "capabilities_ok c"
  shows "capabilities_truncate (ucast (ucast (c AND 0xFFFF) :: u16)) OR
    capabilities_truncate
      (ucast (push_bit 16 (ucast (ucast (drop_bit 16 (c AND 0xFFFF0000)) :: u16) :: u32))) = c"
proof -
  have low: "(ucast (ucast (c AND 0xFFFF) :: u16) :: u64) = c AND 0xFFFF"
    unfolding low_mask by (rule bit_word_eqI) (auto simp: bit_simps)
  have high: "(ucast (push_bit 16 (ucast (ucast (drop_bit 16 (c AND 0xFFFF0000)) :: u16) :: u32)) :: u64)
    = c AND 0xFFFF0000"
    unfolding high_mask by (rule bit_word_eqI) (auto simp: bit_simps)
  have "c AND (mask 16 OR push_bit 16 (mask 16)) = take_bit 32 c"
    by (rule bit_word_eqI) (auto simp: bit_simps)
  also have "\<dots> = c"
    using capabilities_high [OF assms] by (simp add: take_bit_eq_self_iff_drop_bit_eq_0)
  finally have "c AND (0xFFFF OR 0xFFFF0000) = c"
    unfolding low_mask high_mask .
  then have "capabilities_truncate (c AND 0xFFFF) OR capabilities_truncate (c AND 0xFFFF0000)
    = capabilities_truncate c"
    unfolding capabilities_truncate_def by (metis and_or_split)
  with low high assms show ?thesis by simp
qed

lemma get_put_auth_data_len:
  "get_auth_data_len (server_capabilities h) (put_auth_data_len h # rest) = Inr (put_auth_data_len h, rest)"
  by (simp add: get_auth_data_len_def put_auth_data_len_def skip_def get_bytes_def)

lemma get_extended_capabilities_zero:
  "get_extended_capabilities caps (0 # 0 # 0 # 0 # rest) = Inr (caps, rest)"
proof -
  have "try_get_u32_le (0 # 0 # 0 # 0 # rest) = Inr (0, rest)"
    by (simp add: try_get_u32_le_def try_get_le_def try_get_uint_le_def)
  then show ?thesis
    by (simp add: get_extended_capabilities_def skip_def get_bytes_def capabilities_truncate_def)
qed

lemma uint_data_len:
  assumes "n \<le> 246"
  shows "uint (word_of_nat (n + 8 + 1) :: byte) = int n + 9"
proof -
  have "unat (word_of_nat (n + 8 + 1) :: byte) = n + 8 + 1"
    using assms by (simp only: unat_of_nat) simp
  then show ?thesis by (simp only: uint_nat)
qed

lemma get_put_auth_data_2:
  assumes "handshake_ok h"
  shows "get_auth_data_2 (server_capabilities h) (put_auth_data_len h) (put_auth_data_2 h @ rest) =
    Inr (snd (auth_plugin_data h), rest)"
proof (cases "has_flags (server_capabilities h) SECURE_CONNECTION")
  case True
  have "nat (max (uint (put_auth_data_len h) - 9) 12) = length (snd (auth_plugin_data h))"
  proof (cases "has_flags (server_capabilities h) PLUGIN_AUTH")
    case plugin: True
    with assms True have "length (snd (auth_plugin_data h)) \<le> 246"
      "12 \<le> length (snd (auth_plugin_data h))"
      by (simp_all add: handshake_ok_def)
    with plugin show ?thesis
      by (simp only: put_auth_data_len_def uint_data_len if_True)
  next
    case False
    with assms True show ?thesis by (simp add: handshake_ok_def put_auth_data_len_def)
  qed
  with True show ?thesis by (simp add: get_auth_data_2_def put_auth_data_2_def)
next
  case False
  with assms show ?thesis
    by (simp add: get_auth_data_2_def put_auth_data_2_def handshake_ok_def)
qed

lemma get_put_server_plugin:
  assumes "handshake_ok h"
  shows "get_auth_plugin (server_capabilities h) (put_server_plugin h) = Inr (hs_auth_plugin h, [])"
  using assms
  by (auto simp: get_auth_plugin_def put_server_plugin_def handshake_ok_def
      plugin_field.get_put_end)

lemma handshake_decode_encode:
  assumes ok: "handshake_ok h"
  shows "handshake_decode (handshake_encode h) = Inr h"
proof -
  have c: "capabilities_ok (server_capabilities h)"
    and st: "status_truncate (hs_status h) = hs_status h"
    and v: "is_str (server_version h) \<and> nul_free (server_version h)"
    and d: "length (fst (auth_plugin_data h)) = 8"
    using ok by (auto simp: handshake_ok_def)
  have reserved: "replicate 10 0 = replicate 6 (0 :: byte) @ [0, 0, 0, 0]"
    by (simp add: numeral_eq_Suc)
  define lo hi where "lo = (ucast (server_capabilities h AND 0xFFFF) :: u16)"
    and "hi = (ucast (drop_bit 16 (server_capabilities h AND 0xFFFF0000)) :: u16)"
  have caps: "capabilities_truncate (ucast lo) OR
      capabilities_truncate (ucast (push_bit 16 (ucast hi :: u32))) = server_capabilities h"
    unfolding lo_def hi_def by (rule capabilities_halves [OF c])
  show ?thesis
    unfolding handshake_decode_def handshake_encode_def Let_def reserved
      lo_def [symmetric] hi_def [symmetric]
    by (simp add: field_laws str_field.get_put [OF v] st caps d
        get_put_auth_data_len get_extended_capabilities_zero get_put_auth_data_2 [OF ok]
        get_put_server_plugin [OF ok])
qed

text \<open>
  The handshake a server sends decodes to itself: the challenge arrives byte for byte, with
  the negotiated capabilities, the status and the announced plugin.
\<close>

theorem handshake_roundtrip:
  assumes "handshake_ok h"
  shows "handshake_decode (handshake_encode h) = Inr h"
  by (rule handshake_decode_encode [OF assms])

definition sample_handshake :: handshake where
  "sample_handshake =
     \<lparr> protocol_version = 10, server_version = ''8.0'', connection_id = 1,
       server_capabilities = sample_caps, server_default_collation = 45, hs_status = 0,
       hs_auth_plugin = Some MySqlNativePassword,
       auth_plugin_data = (replicate 8 7, replicate 12 9) \<rparr>"

lemma sample_handshake_ok: "handshake_ok sample_handshake"
  by (simp add: handshake_ok_def sample_handshake_def capabilities_ok_def capabilities_truncate_def
      capabilities_all_value sample_caps_value status_truncate_def is_str_def nul_free_def
      as_bytes_def has_flags_def flag_defs push_bit_eq_mult)

theorem handshake_roundtrip_witness:
  "handshake_ok sample_handshake \<and>
   handshake_decode (handshake_encode sample_handshake) = Inr sample_handshake"
  using handshake_roundtrip [OF sample_handshake_ok] sample_handshake_ok by simp

subsection \<open>Responses and commands\<close>

lemma err_roundtrip:
  assumes "is_str (error_message p)"
    and "has_flags caps PROTOCOL_41 \<Longrightarrow> take 1 (as_bytes (error_message p)) \<noteq> [0x23]"
  shows "err_decode (err_encode p) caps = Inr (p\<lparr> sql_state := None \<rparr>)"
proof -
  have "\<not> (has_flags caps PROTOCOL_41 \<and> as_bytes (error_message p) \<noteq> [] \<and>
      hd (as_bytes (error_message p)) = 0x23)"
    using assms(2) by (cases "as_bytes (error_message p)") auto
  moreover have "get_str (length (error_message p)) (as_bytes (error_message p)) =
      Inr (error_message p, [])"
    by (rule get_str_all [OF assms(1)])
  ultimately show ?thesis
    by (auto simp: err_decode_def err_encode_def field_laws)
qed

lemma ok_roundtrip:
  assumes "status_truncate (ok_status p) = ok_status p"
  shows "ok_decode (ok_encode p) = Inr p"
  using assms u16_field.get_put_end
  by (simp add: ok_decode_def ok_encode_def field_laws)

lemma eof_of_ok:
  assumes "status_truncate (ok_status p) = ok_status p" and "has_flags caps DEPRECATE_EOF"
  shows "packet_eof (ok_encode p) caps =
    Inr \<lparr> eof_warnings = ok_warnings p, eof_status = ok_status p \<rparr>"
  using assms by (simp add: packet_eof_def ok_roundtrip)

lemma auth_switch_roundtrip:
  assumes "switch_data r = [] \<or> last (switch_data r) \<noteq> 0"
  shows "auth_switch_decode (auth_switch_encode r) = Inr r"
  using assms by (auto simp: auth_switch_decode_def auth_switch_encode_def field_laws)

lemma auth_switch_trailing_nul:
  "auth_switch_decode (auth_switch_encode (r\<lparr> switch_data := d @ [0] \<rparr>)) =
     Inr (r\<lparr> switch_data := d \<rparr>)"
  by (simp add: auth_switch_decode_def auth_switch_encode_def field_laws)

lemma query_roundtrip: "is_str q \<Longrightarrow> query_decode (query_encode q) = Inr q"
  using get_str_all [of q] by (simp add: query_decode_def query_encode_def)

lemma query_decode_encode:
  assumes "query_decode buf = Inr q" and "hd buf = 0x03"
  shows "query_encode q = buf"
proof (cases buf)
  case Nil
  with assms show ?thesis by (simp add: query_decode_def skip_def get_bytes_def)
next
  case (Cons b bs)
  with assms have "utf8 bs = Inr q"
    by (auto simp: query_decode_def get_str_def elim!: read_then_InrE split: sum.splits)
  with assms Cons show ?thesis
    by (auto simp: query_encode_def dest: utf8_InrD)
qed

text \<open>
  The generic packets survive the wire. A query decodes to its text and re-encodes to the
  very bytes received. An OK packet keeps its counts, status and warnings, also when it is
  read in place of an EOF packet. An error packet keeps its code and message but never its
  SQL state. A request to switch the method keeps its challenge unless it ends in NUL.
\<close>

theorem packets_roundtrip:
  assumes "is_str q" and "status_truncate (ok_status p) = ok_status p"
    and "is_str (error_message e)" and "take 1 (as_bytes (error_message e)) \<noteq> [0x23]"
    and "switch_data r = [] \<or> last (switch_data r) \<noteq> 0"
  shows "query_decode (query_encode q) = Inr q \<and>
    (query_decode buf = Inr q' \<and> hd buf = 0x03 \<longrightarrow> query_encode q' = buf) \<and>
    ok_decode (ok_encode p) = Inr p \<and>
    (has_flags caps DEPRECATE_EOF \<longrightarrow>
      packet_eof (ok_encode p) caps = Inr \<lparr> eof_warnings = ok_warnings p, eof_status = ok_status p \<rparr>) \<and>
    err_decode (err_encode e) caps = Inr (e\<lparr> sql_state := None \<rparr>) \<and>
    auth_switch_decode (auth_switch_encode r) = Inr r"
  using assms query_decode_encode [of buf q']
  by (simp add: query_roundtrip ok_roundtrip eof_of_ok err_roundtrip auth_switch_roundtrip)

theorem packets_roundtrip_witness:
  "query_decode (query_encode ''select 1'') = Inr ''select 1'' \<and>
   ok_decode (ok_encode \<lparr> affected_rows = 300, last_insert_id = 70000, ok_status = 2, ok_warnings = 1 \<rparr>)
     = Inr \<lparr> affected_rows = 300, last_insert_id = 70000, ok_status = 2, ok_warnings = 1 \<rparr> \<and>
   err_decode (err_encode \<lparr> error_code = 1045, sql_state = Some ''28000'', error_message = ''Access denied'' \<rparr>) 0
     = Inr \<lparr> error_code = 1045, sql_state = None, error_message = ''Access denied'' \<rparr> \<and>
   auth_switch_decode (auth_switch_encode \<lparr> switch_plugin = MySqlClearPassword, switch_data = [] \<rparr>)
     = Inr \<lparr> switch_plugin = MySqlClearPassword, switch_data = [] \<rparr>"
proof -
  have "status_truncate 2 = 2"
    by (simp add: status_truncate_def status_all_def push_bit_eq_mult)
  then show ?thesis
    using packets_roundtrip [of "''select 1''"
        "\<lparr> affected_rows = 300, last_insert_id = 70000, ok_status = 2, ok_warnings = 1 \<rparr>"
        "\<lparr> error_code = 1045, sql_state = Some ''28000'', error_message = ''Access denied'' \<rparr>"
        "\<lparr> switch_plugin = MySqlClearPassword, switch_data = [] \<rparr>" "[]" "[]" 0]
    by (simp add: is_str_def as_bytes_def)
qed

subsection \<open>Column types\<close>

lemma column_type_roundtrip [simp]: "column_type_try_from (column_type_id t) = Inr t"
  by (cases t) (simp_all add: column_type_try_from_def)

lemma column_type_try_from_id: "column_type_try_from i = Inr t \<Longrightarrow> column_type_id t = i"
  by (simp add: column_type_try_from_def split: if_splits; hypsubst; simp)

subsection \<open>Framing\<close>

text \<open>The length in the frame is that of the payload, and the payload follows it.\<close>

lemma packet_encode_frame:
  assumes "packet_encode payload n = Some (frame, n')"
  shows "try_get_le 3 frame = Inr (word_of_nat (length payload) :: u64, n # payload)" and "n' = n + 1"
proof -
  have len: "length payload < 0xFFFFFF" and n': "n' = n + 1"
    and frame: "frame = take 3 (to_le_bytes 4 (word_of_nat (length payload) :: u32)) @ n # payload"
    using assms by (auto simp: packet_encode_def split: if_splits)
  have u: "unat (word_of_nat (length payload) :: u64) = length payload"
    using len by (simp add: unat_of_nat)
  have "(ucast (word_of_nat (length payload) :: u64) :: u32) = word_of_nat (length payload)"
    by (rule word_unat_eq_iff [THEN iffD2])
      (use len in \<open>simp add: unsigned_ucast_eq u take_bit_nat_eq_self unat_of_nat\<close>)
  then show "try_get_le 3 frame = Inr (word_of_nat (length payload) :: u64, n # payload)"
    using try_get_u24_put [of "word_of_nat (length payload)" "n # payload"] len
    by (simp add: frame word_less_nat_alt u)
  show "n' = n + 1" by (rule n')
qed

section \<open>Decoded values\<close>

lemma get_bytes_length: "get_bytes n buf = Inr (v, rest) \<Longrightarrow> length v = n \<and> n + length rest = length buf"
  by (auto simp: get_bytes_def split: if_splits)

lemma get_auth_response_length:
  "get_auth_response c buf = Inr (a, rest) \<Longrightarrow> length a + length rest \<le> length buf"
  by (auto simp: get_auth_response_def get_bytes_lenenc_def lenenc_size_def elim!: read_then_InrE
      split: if_splits dest!: get_bytes_length get_bytes_nul_split(1) lenenc_taken.rest_not_longer
      word_taken.rest_not_longer simp: try_get_u8_def)

lemma get_database_str:
  "get_database c buf = Inr (Some d, rest) \<Longrightarrow> is_str d \<and> nul_free d"
  by (auto simp: get_database_def elim!: read_then_InrE split: if_splits dest: get_str_nul_split)

lemma handshake_response_decode_cases:
  assumes "handshake_response_decode buf caps = Inr (r, caps')"
  obtains (ssl_request) "hr_username r = []" "hr_auth_response r = None" "hr_database r = None"
      "hr_auth_plugin r = None" "caps' = caps"
  | (response) c b1 b2 b3 b4 response rest where
      "length b1 \<le> length buf" "get_str_nul b1 = Inr (hr_username r, b2)"
      "get_auth_response c b2 = Inr (response, b3)" "hr_auth_response r = Some response"
      "get_database c b3 = Inr (hr_database r, b4)"
      "get_auth_plugin c b4 = Inr (hr_auth_plugin r, rest)"
      "capabilities_ok c" "caps' = caps AND c"
proof -
  from assms obtain bits b0 sz b0' col b0'' b0''' c b1 u where
    start: "try_get_u32_le buf = Inr (bits, b0)" "try_get_u32_le b0 = Inr (sz, b0')"
      "try_get_u8 b0' = Inr (col, b0'')" "skip 19 b0'' = Inr (u, b0''')"
    and ext: "(if has_flags (capabilities_truncate (ucast bits)) MYSQL
        then read_then (skip 4 b0''') (\<lambda>_ buf. Inr (ucast bits, buf))
        else read_then (try_get_u32_le b0''') (\<lambda>ext buf. Inr (ucast bits + push_bit 32 (ucast ext), buf)))
        = Inr (c, b1)"
    and body: "(if has_flags (capabilities_truncate c) SSL \<and> b1 = []
     then Inr (\<lparr> hr_database = None, hr_max_packet_size = sz,
                 hr_collation = col, hr_username = [], hr_auth_plugin = None,
                 hr_auth_response = None \<rparr>, caps)
     else
     read_then (get_str_nul b1) (\<lambda>username buf.
     read_then (get_auth_response (capabilities_truncate c) buf) (\<lambda>response buf.
     read_then (get_database (capabilities_truncate c) buf) (\<lambda>database buf.
     read_then (get_auth_plugin (capabilities_truncate c) buf) (\<lambda>plugin buf.
     Inr (\<lparr> hr_database = database, hr_max_packet_size = sz,
            hr_collation = col, hr_username = username, hr_auth_plugin = plugin,
            hr_auth_response = Some response \<rparr>, caps AND capabilities_truncate c)))))) = Inr (r, caps')"
    unfolding handshake_response_decode_def Let_def by (elim read_then_InrE) blast
  have "length b1 \<le> length b0'''"
    using ext by (auto simp: skip_def try_get_u32_le_def elim!: read_then_InrE split: if_splits
        dest!: bytes_taken.rest_not_longer word_taken.rest_not_longer)
  also have "\<dots> \<le> length b0''"
    using start(4) by (auto simp: skip_def elim!: read_then_InrE dest!: bytes_taken.rest_not_longer)
  also have "\<dots> \<le> length b0'"
    using start(3) by (auto simp: try_get_u8_def dest!: word_taken.rest_not_longer)
  also have "\<dots> \<le> length b0"
    using start(2) by (auto simp: try_get_u32_le_def dest!: word_taken.rest_not_longer)
  also have "\<dots> \<le> length buf"
    using start(1) by (auto simp: try_get_u32_le_def dest!: word_taken.rest_not_longer)
  finally have len: "length b1 \<le> length buf" .
  show thesis
  proof (cases "has_flags (capabilities_truncate c) SSL \<and> b1 = []")
    case True
    with body show thesis by (intro ssl_request) auto
  next
    case False
    with body len show thesis
      by (auto elim!: read_then_InrE intro!: response [of b1 _ "capabilities_truncate c"])
  qed
qed

text \<open>
  C40: Whatever bytes a client sends, an accepted answer is well typed: user name and database are
  UTF-8 strings without NUL, the authentication response is shorter than the packet, and the
  negotiated capabilities are among those the server offered. An answer without
  authentication response is the bare request for TLS, which negotiates nothing.
\<close>

theorem decoded_response_wellformed:
  assumes "handshake_response_decode buf caps = Inr (r, caps')"
  shows "is_str (hr_username r) \<and> nul_free (hr_username r) \<and>
    (case hr_database r of Some d \<Rightarrow> is_str d \<and> nul_free d | None \<Rightarrow> True) \<and>
    (case hr_auth_response r of
       Some a \<Rightarrow> length a < length buf
     | None \<Rightarrow> hr_username r = [] \<and> caps' = caps) \<and>
    has_flags caps caps'"
  using assms
proof (cases rule: handshake_response_decode_cases)
  case ssl_request
  then show ?thesis by (simp add: has_flags_def)
next
  case (response c b1 b2 b3 b4 a rest)
  note u = get_str_nul_split [OF response(2)]
  have "length b2 < length b1" unfolding u(1) by (simp add: put_str_nul_def)
  with response(1) get_auth_response_length [OF response(3)] have "length a < length buf" by simp
  moreover have "caps AND (caps AND c) = caps AND c"
    by (simp add: and.assoc [symmetric])
  ultimately show ?thesis
    using u response by (auto simp: has_flags_def split: option.splits dest: get_database_str)
qed

definition sample_answer :: bytes where
  "sample_answer =
     [1, 130, 0, 0, 0, 0, 64, 0, 45] @ replicate 19 0 @ replicate 4 0 @
     [98, 111, 98, 0, 3, 97, 98, 99]"

lemma sample_answer_decoded:
  "handshake_response_decode sample_answer (PROTOCOL_41 OR SSL) =
     Inr (\<lparr> hr_database = None, hr_max_packet_size = 0x400000, hr_collation = 45,
            hr_username = ''bob'', hr_auth_plugin = None, hr_auth_response = Some [97, 98, 99] \<rparr>,
          PROTOCOL_41)"
  by (simp add: handshake_response_decode_def sample_answer_def try_get_u32_le_def try_get_le_def
      try_get_uint_le_def Let_def capabilities_truncate_def capabilities_all_value has_flags_def
      flag_defs push_bit_eq_mult get_str_nul_def get_bytes_nul_def utf8_def of_bytes_def
      get_auth_response_def get_database_def get_auth_plugin_def get_bytes_def char_of_def bit_0)

theorem decoded_response_wellformed_witness:
  "handshake_response_decode sample_answer (PROTOCOL_41 OR SSL) =
     Inr (\<lparr> hr_database = None, hr_max_packet_size = 0x400000, hr_collation = 45,
            hr_username = ''bob'', hr_auth_plugin = None, hr_auth_response = Some [97, 98, 99] \<rparr>,
          PROTOCOL_41) \<and>
   is_str ''bob'' \<and> has_flags (PROTOCOL_41 OR SSL) PROTOCOL_41"
  using decoded_response_wellformed [OF sample_answer_decoded] sample_answer_decoded by simp

end
