(* ===== verification/Mysql_Relay.thy ===== *)
theory Mysql_Relay
  imports Mysql_Packets
begin

text \<open>
  Relaying the target's responses to a client that negotiated other capabilities
  (\<open>warpgate-protocol-mysql/src/relay.rs\<close> and \<open>MySqlSession::relay_response\<close>). The main
  result relates the two framings of a response: whatever columns and rows the target
  sends in its framing, the client receives the same ones in its own, and the relay
  stops exactly at the end of the response.
\<close>

section \<open>The relay\<close>

datatype mysql_error =
    Mysql_ProtocolError string
  | Mysql_Eof
  | Mysql_TlsNotSupported
  | Mysql_TlsNotSupportedByClient
  | Mysql_Tls
  | Mysql_Sqlx wire_error
  | Mysql_Rsa
  | Mysql_Warpgate

datatype relayed = Verbatim | Rewritten bytes | Dropped

record response_relay =
  relay_client :: capabilities
  relay_target :: capabilities
  seen_first :: bool
  columns_done :: bool

definition relay_result_set :: "capabilities \<Rightarrow> capabilities \<Rightarrow> response_relay" where
  "relay_result_set client target =
     \<lparr> relay_client = client, relay_target = target, seen_first = False, columns_done = False \<rparr>"

definition relay_single :: "capabilities \<Rightarrow> capabilities \<Rightarrow> response_relay" where
  "relay_single client target = (relay_result_set client target)\<lparr> columns_done := True \<rparr>"

definition wire_result :: "wire_error + 'a \<Rightarrow> mysql_error + 'a" where
  "wire_result r = (case r of Inl e \<Rightarrow> Inl (Mysql_Sqlx e) | Inr x \<Rightarrow> Inr x)"

definition rewrite_ok :: "response_relay \<Rightarrow> bytes \<Rightarrow> mysql_error + relayed" where
  "rewrite_ok relay packet =
     (if \<not> has_flags (relay_client relay) SESSION_TRACK \<or> has_flags (relay_target relay) SESSION_TRACK
      then Inr Verbatim
      else wire_result (
        read_then (try_get_u8 packet) (\<lambda>header buf.
        read_then (get_uint_lenenc buf) (\<lambda>rows buf.
        read_then (get_uint_lenenc buf) (\<lambda>insert_id buf.
        read_then (get_bytes 4 buf) (\<lambda>status_warnings buf.
        Inr (Rewritten ([header] @ put_uint_lenenc rows @ put_uint_lenenc insert_id @
               status_warnings @ put_bytes_lenenc buf))))))))"

definition eof_as_ok :: "response_relay \<Rightarrow> bytes \<Rightarrow> mysql_error + relayed" where
  "eof_as_ok relay packet =
     (if \<not> has_flags (relay_client relay) DEPRECATE_EOF then Inr Verbatim
      else if length packet < 5 then Inl (Mysql_ProtocolError ''truncated EOF packet'')
      else Inr (Rewritten ([0xfe, 0, 0] @ take 2 (drop 3 packet) @ take 2 (drop 1 packet) @
             (if has_flags (relay_client relay) SESSION_TRACK then [0] else []))))"

text \<open>
  \<open>ResponseRelay::next\<close>: the relay afterwards, and either an error or what to send and
  whether the response ends.
\<close>

definition relay_next ::
  "response_relay \<Rightarrow> bytes \<Rightarrow> response_relay \<times> (mysql_error + relayed \<times> bool)" where
  "relay_next relay packet =
     (let header = (case packet of [] \<Rightarrow> None | b # _ \<Rightarrow> Some b);
          is_first = \<not> seen_first relay;
          relay = relay\<lparr> seen_first := True \<rparr>;
          ending = (\<lambda>r. case r of Inl e \<Rightarrow> Inl e | Inr x \<Rightarrow> Inr (x, True))
      in if is_first \<and> header = Some 0 then (relay, ending (rewrite_ok relay packet))
         else if header = Some 0xff then (relay, Inr (Verbatim, True))
         else if header = Some 0xfe \<and> has_flags (relay_target relay) DEPRECATE_EOF \<and>
                 length packet < 0xffffff
         then (relay, ending (rewrite_ok relay packet))
         else if header = Some 0xfe \<and> \<not> has_flags (relay_target relay) DEPRECATE_EOF \<and>
                 length packet < 9
         then if columns_done relay then (relay, ending (eof_as_ok relay packet))
              else (relay\<lparr> columns_done := True \<rparr>,
                    Inr (if has_flags (relay_client relay) DEPRECATE_EOF then Dropped else Verbatim,
                         False))
         else (relay, Inr (Verbatim, False)))"

text \<open>
  \<open>relay_response\<close>: takes packets from the target until the response ends, and gives what
  was sent to the client with the packets left, or the error that ended the session.
\<close>

fun relayed_out :: "bytes \<Rightarrow> relayed \<Rightarrow> bytes list" where
  "relayed_out response Verbatim = [response]"
| "relayed_out response (Rewritten packet) = [packet]"
| "relayed_out response Dropped = []"

fun relay_response :: "response_relay \<Rightarrow> bytes list \<Rightarrow> bytes list \<times> (mysql_error + bytes list)" where
  "relay_response relay [] = ([], Inl Mysql_Eof)"
| "relay_response relay (response # rest) =
     (case relay_next relay response of
        (relay', Inl e) \<Rightarrow> ([], Inl e)
      | (relay', Inr (relayed, complete)) \<Rightarrow>
          if complete then (relayed_out response relayed, Inr rest)
          else case relay_response relay' rest of (sent, r) \<Rightarrow>
                 (relayed_out response relayed @ sent, r))"

section \<open>The two framings\<close>

text \<open>
  The OK packet under given capabilities, with the header byte it has in its place: the
  trailing text is length-encoded when session state is tracked.
\<close>

definition ok_frame :: "capabilities \<Rightarrow> byte \<Rightarrow> u64 \<Rightarrow> u64 \<Rightarrow> u16 \<Rightarrow> u16 \<Rightarrow> bytes \<Rightarrow> bytes" where
  "ok_frame caps header rows insert_id stat warnings info =
     [header] @ put_uint_lenenc rows @ put_uint_lenenc insert_id @ to_le_bytes 2 stat @
     to_le_bytes 2 warnings @ (if has_flags caps SESSION_TRACK then put_bytes_lenenc info else info)"

definition eof_frame :: "u16 \<Rightarrow> u16 \<Rightarrow> bytes" where
  "eof_frame stat warnings = [0xfe] @ to_le_bytes 2 warnings @ to_le_bytes 2 stat"

text \<open>
  A response: an acknowledgement, an error, or a result set of a column count, column
  definitions and rows, closed by status and warnings or by an error.
\<close>

datatype result_end = End_Status u64 u64 u16 u16 bytes | End_Error bytes

datatype response =
    Resp_Ok u64 u64 u16 u16 bytes
  | Resp_Err bytes
  | Resp_Set bytes "bytes list" u16 u16 "bytes list" result_end

fun end_frame :: "capabilities \<Rightarrow> result_end \<Rightarrow> bytes" where
  "end_frame caps (End_Error err) = err"
| "end_frame caps (End_Status rows insert_id stat warnings info) =
     (if has_flags caps DEPRECATE_EOF then ok_frame caps 0xfe rows insert_id stat warnings info
      else eof_frame stat warnings)"

fun response_frames :: "capabilities \<Rightarrow> response \<Rightarrow> bytes list" where
  "response_frames caps (Resp_Ok rows insert_id stat warnings info) =
     [ok_frame caps 0 rows insert_id stat warnings info]"
| "response_frames caps (Resp_Err err) = [err]"
| "response_frames caps (Resp_Set count cols stat warnings rows e) =
     [count] @ cols @ (if has_flags caps DEPRECATE_EOF then [] else [eof_frame stat warnings]) @
     rows @ [end_frame caps e]"

text \<open>
  What a server with given capabilities can send: a column definition or row does not
  start like an error, and one that starts with 0xfe is too long to be a closing packet;
  a column count starts like neither; without \<open>DEPRECATE_EOF\<close> the closing packet carries
  the status and the warnings only.
\<close>

definition data_packet :: "capabilities \<Rightarrow> bytes \<Rightarrow> bool" where
  "data_packet caps p \<longleftrightarrow>
     (case p of [] \<Rightarrow> True | b # _ \<Rightarrow>
        b \<noteq> 0xff \<and> (b = 0xfe \<longrightarrow> (if has_flags caps DEPRECATE_EOF then 0xffffff else 9) \<le> length p))"

definition is_err :: "bytes \<Rightarrow> bool" where
  "is_err p \<longleftrightarrow> (case p of [] \<Rightarrow> False | b # _ \<Rightarrow> b = 0xff)"

fun end_ok :: "capabilities \<Rightarrow> result_end \<Rightarrow> bool" where
  "end_ok caps (End_Error err) \<longleftrightarrow> is_err err"
| "end_ok caps (End_Status rows insert_id stat warnings info) \<longleftrightarrow>
     fits_lenenc info \<and>
     (if has_flags caps DEPRECATE_EOF
      then length (ok_frame caps 0xfe rows insert_id stat warnings info) < 0xffffff
      else rows = 0 \<and> insert_id = 0 \<and> info = [])"

fun response_valid :: "capabilities \<Rightarrow> response \<Rightarrow> bool" where
  "response_valid caps (Resp_Ok rows insert_id stat warnings info) \<longleftrightarrow> fits_lenenc info"
| "response_valid caps (Resp_Err err) \<longleftrightarrow> is_err err"
| "response_valid caps (Resp_Set count cols stat warnings rows e) \<longleftrightarrow>
     (case count of [] \<Rightarrow> False | b # _ \<Rightarrow> b \<notin> {0, 0xfe, 0xff}) \<and>
     list_all (data_packet caps) cols \<and> list_all (data_packet caps) rows \<and> end_ok caps e"

section \<open>What the relay does\<close>

text \<open>The capabilities of the target are taken from those of the client.\<close>

definition narrowed :: "capabilities \<Rightarrow> capabilities \<Rightarrow> bool" where
  "narrowed client target \<longleftrightarrow>
     (has_flags target DEPRECATE_EOF \<longrightarrow> has_flags client DEPRECATE_EOF) \<and>
     (has_flags target SESSION_TRACK \<longrightarrow> has_flags client SESSION_TRACK)"

lemma rewrite_ok_frame:
  assumes "narrowed (relay_client r) (relay_target r)" and "fits_lenenc info"
  shows "\<exists>x. rewrite_ok r (ok_frame (relay_target r) h rows insert_id stat warnings info) = Inr x \<and>
    relayed_out (ok_frame (relay_target r) h rows insert_id stat warnings info) x =
      [ok_frame (relay_client r) h rows insert_id stat warnings info]"
proof (cases "\<not> has_flags (relay_client r) SESSION_TRACK \<or> has_flags (relay_target r) SESSION_TRACK")
  case True
  with assms(1) have "ok_frame (relay_target r) h rows insert_id stat warnings info =
      ok_frame (relay_client r) h rows insert_id stat warnings info"
    by (auto simp: ok_frame_def narrowed_def)
  with True show ?thesis by (intro exI [of _ Verbatim]) (simp add: rewrite_ok_def)
next
  case False
  have "get_bytes 4 (to_le_bytes 2 stat @ to_le_bytes 2 warnings @ rest) =
      Inr (to_le_bytes 2 stat @ to_le_bytes 2 warnings, rest)" for rest
    using get_bytes_append [of "to_le_bytes 2 stat @ to_le_bytes 2 warnings" 4 rest]
    by (simp add: to_le_bytes_def)
  with False show ?thesis
    by (intro exI [of _ "Rewritten (ok_frame (relay_client r) h rows insert_id stat warnings info)"])
      (simp add: rewrite_ok_def ok_frame_def wire_result_def field_laws)
qed

lemma relay_response_data:
  assumes "seen_first r" and "list_all (data_packet (relay_target r)) ps"
  shows "relay_response r (ps @ rest) =
    (case relay_response r rest of (sent, x) \<Rightarrow> (ps @ sent, x))"
  using assms(2)
proof (induction ps)
  case (Cons p ps)
  have "r\<lparr> seen_first := True \<rparr> = r" using assms(1) by (cases r) simp
  with Cons.prems assms(1) have "relay_next r p = (r, Inr (Verbatim, False))"
    by (auto simp: relay_next_def data_packet_def Let_def split: list.splits if_splits)
  with Cons show ?case by (simp split: prod.splits)
qed (simp split: prod.splits)

lemma length_to_le_bytes [simp]: "length (to_le_bytes n v) = n"
  by (simp add: to_le_bytes_def)

lemma le_bytes_2: "le_bytes 2 x = [word_of_nat (x mod 256), word_of_nat (x div 256 mod 256)]"
  by (simp add: numeral_2_eq_2)

lemma eof_as_ok_frame:
  "eof_as_ok r (eof_frame stat warnings) =
     (if has_flags (relay_client r) DEPRECATE_EOF
      then Inr (Rewritten (ok_frame (relay_client r) 0xfe 0 0 stat warnings []))
      else Inr Verbatim)"
proof -
  have "put_uint_lenenc 0 = [0]" and "put_bytes_lenenc [] = [0]"
    by (simp_all add: put_bytes_lenenc_def put_uint_lenenc_def)
  then show ?thesis
    by (simp add: eof_as_ok_def eof_frame_def ok_frame_def)
qed

lemma ok_frame_nonempty: "ok_frame caps h rows insert_id stat warnings info = h #
    tl (ok_frame caps h rows insert_id stat warnings info)"
  by (simp add: ok_frame_def)

lemma eof_frame_shape: "eof_frame stat warnings = 0xfe # tl (eof_frame stat warnings)"
  "length (eof_frame stat warnings) = 5"
  by (simp_all add: eof_frame_def)

lemma relay_response_end:
  assumes "seen_first r" and nar: "narrowed (relay_client r) (relay_target r)"
    and "columns_done r \<or> has_flags (relay_target r) DEPRECATE_EOF"
    and e: "end_ok (relay_target r) e"
  shows "relay_response r (end_frame (relay_target r) e # rest) = ([end_frame (relay_client r) e], Inr rest)"
proof -
  have same: "r\<lparr> seen_first := True \<rparr> = r" using assms(1) by (cases r) simp
  show ?thesis
  proof (cases e)
    case (End_Error err)
    with e assms(1) same show ?thesis
      by (auto simp: relay_next_def is_err_def Let_def split: list.splits)
  next
    case (End_Status rows insert_id stat warnings info)
    show ?thesis
    proof (cases "has_flags (relay_target r) DEPRECATE_EOF")
      case True
      define p where "p = ok_frame (relay_target r) 0xfe rows insert_id stat warnings info"
      obtain bs where bs: "p = 0xfe # bs"
        unfolding p_def by (metis ok_frame_nonempty)
      have len: "length p < 0xffffff" and info: "fits_lenenc info"
        using e True End_Status by (simp_all add: p_def)
      have "relay_next r p = (r, case rewrite_ok r p of Inl e \<Rightarrow> Inl e | Inr x \<Rightarrow> Inr (x, True))"
        using True len assms(1) by (simp add: relay_next_def Let_def bs same)
      then show ?thesis
        using rewrite_ok_frame [OF nar info, of "0xfe" rows insert_id stat warnings] True nar End_Status
        by (auto simp: p_def narrowed_def)
    next
      case False
      define p where "p = eof_frame stat warnings"
      obtain bs where bs: "p = 0xfe # bs" and len: "length p < 9"
        unfolding p_def by (metis eof_frame_shape numeral_less_iff semiring_norm(76,78,80))
      have "relay_next r p = (r, case eof_as_ok r p of Inl e \<Rightarrow> Inl e | Inr x \<Rightarrow> Inr (x, True))"
        using False len assms by (simp add: relay_next_def Let_def bs same)
      then show ?thesis
        using False e End_Status by (auto simp: p_def eof_as_ok_frame Let_def)
    qed
  qed
qed

lemma relay_response_columns_end:
  assumes "seen_first r" "\<not> columns_done r" and "\<not> has_flags (relay_target r) DEPRECATE_EOF"
  shows "relay_response r (eof_frame stat warnings # rest) =
    (case relay_response (r\<lparr> columns_done := True \<rparr>) rest of (sent, x) \<Rightarrow>
       ((if has_flags (relay_client r) DEPRECATE_EOF then [] else [eof_frame stat warnings]) @ sent, x))"
proof -
  have same: "r\<lparr> seen_first := True \<rparr> = r" using assms(1) by (cases r) simp
  obtain bs where bs: "eof_frame stat warnings = 0xfe # bs" and len: "length bs = 4"
    by (simp add: eof_frame_def)
  have "relay_next r (eof_frame stat warnings) = (r\<lparr> columns_done := True \<rparr>,
      Inr (if has_flags (relay_client r) DEPRECATE_EOF then Dropped else Verbatim, False))"
    using assms same by (simp add: relay_next_def Let_def bs len)
  then show ?thesis by (simp split: prod.splits)
qed

text \<open>
  C25: A response the target sends in its framing reaches the client in the client's framing,
  with the same columns and rows in the same order, and the relay stops exactly at its end:
  what the target sends next is left for the next command.
\<close>

theorem relay_translates_framing:
  assumes nar: "narrowed client target" and ok: "response_valid target resp"
  shows "relay_response (relay_result_set client target) (response_frames target resp @ rest) =
    (response_frames client resp, Inr rest)"
proof (cases resp)
  case (Resp_Ok rows insert_id stat warnings info)
  define r where "r = (relay_result_set client target)\<lparr> seen_first := True \<rparr>"
  have nar': "narrowed (relay_client r) (relay_target r)"
    using nar by (simp add: r_def relay_result_set_def)
  have info: "fits_lenenc info" using ok Resp_Ok by simp
  have next_ok: "relay_next (relay_result_set client target)
        (ok_frame target 0 rows insert_id stat warnings info) =
      (r, case rewrite_ok r (ok_frame target 0 rows insert_id stat warnings info) of
            Inl e \<Rightarrow> Inl e | Inr x \<Rightarrow> Inr (x, True))"
    by (subst ok_frame_nonempty) (simp add: relay_next_def Let_def r_def relay_result_set_def ok_frame_def)
  have "relay_client r = client" "relay_target r = target"
    by (simp_all add: r_def relay_result_set_def)
  then show ?thesis
    using rewrite_ok_frame [OF nar' info, of 0 rows insert_id stat warnings] next_ok Resp_Ok
    by auto
next
  case (Resp_Err err)
  with ok show ?thesis
    by (auto simp: relay_next_def is_err_def Let_def relay_result_set_def split: list.splits)
next
  case (Resp_Set count cols stat warnings rows e)
  define r where "r = (relay_result_set client target)\<lparr> seen_first := True \<rparr>"
  have r: "seen_first r" "\<not> columns_done r" "relay_client r = client" "relay_target r = target"
    by (simp_all add: r_def relay_result_set_def)
  have "relay_next (relay_result_set client target) count = (r, Inr (Verbatim, False))"
    using ok Resp_Set
    by (auto simp: relay_next_def Let_def r_def relay_result_set_def split: list.splits)
  then have count: "relay_response (relay_result_set client target) (count # ps) =
      (case relay_response r ps of (sent, x) \<Rightarrow> (count # sent, x))" for ps
    by (simp split: prod.splits)
  have cols: "list_all (data_packet target) cols" and rows: "list_all (data_packet target) rows"
    and e: "end_ok target e"
    using ok Resp_Set by simp_all
  show ?thesis
  proof (cases "has_flags target DEPRECATE_EOF")
    case True
    with nar have "has_flags client DEPRECATE_EOF" by (simp add: narrowed_def)
    with True show ?thesis
      using relay_response_data [OF r(1), of cols] relay_response_data [OF r(1), of rows]
        relay_response_end [OF r(1), of e] cols rows e nar
      by (simp add: Resp_Set count r del: relay_response.simps)
  next
    case False
    define r' where "r' = r\<lparr> columns_done := True \<rparr>"
    have r': "seen_first r'" "columns_done r'" "relay_client r' = client" "relay_target r' = target"
      using r by (simp_all add: r'_def)
    show ?thesis
      using relay_response_data [OF r(1), of cols] relay_response_data [OF r'(1), of rows]
        relay_response_end [OF r'(1), of e] relay_response_columns_end [OF r(1,2)] cols rows e nar False
      by (simp add: Resp_Set count r r' r'_def [symmetric] del: relay_response.simps)
  qed
qed

theorem relay_translates_framing_witness:
  "narrowed (PROTOCOL_41 OR DEPRECATE_EOF OR SESSION_TRACK) PROTOCOL_41 \<and>
   relay_response (relay_result_set (PROTOCOL_41 OR DEPRECATE_EOF OR SESSION_TRACK) PROTOCOL_41)
     [[1], [3, 100, 101, 102], [0xfe, 0, 0, 2, 0], [1, 49], [0xfe, 7, 0, 2, 0], [42]] =
   ([[1], [3, 100, 101, 102], [1, 49], [0xfe, 0, 0, 2, 0, 7, 0, 0]], Inr [[42]])"
proof -
  let ?modern = "PROTOCOL_41 OR DEPRECATE_EOF OR SESSION_TRACK"
  have flags: "has_flags ?modern DEPRECATE_EOF" "has_flags ?modern SESSION_TRACK"
    "\<not> has_flags PROTOCOL_41 DEPRECATE_EOF" "\<not> has_flags PROTOCOL_41 SESSION_TRACK"
    by (simp_all add: has_flags_def flag_defs push_bit_eq_mult)
  have nar: "narrowed ?modern PROTOCOL_41"
    using flags by (simp add: narrowed_def)
  let ?resp = "Resp_Set [1] [[3, 100, 101, 102]] 2 0 [[1, 49]] (End_Status 0 0 2 7 [])"
  have ok: "response_valid PROTOCOL_41 ?resp"
    using flags by (simp add: data_packet_def)
  have le: "to_le_bytes 2 (2 :: u16) = [2, 0]" "to_le_bytes 2 (7 :: u16) = [7, 0]"
    "to_le_bytes 2 (0 :: u16) = [0, 0]"
    by (simp_all add: to_le_bytes_def le_bytes_2)
  show ?thesis
    using relay_translates_framing [OF nar ok, of "[[42]]"] nar flags
    by (simp add: eof_frame_def ok_frame_def le put_uint_lenenc_def put_bytes_lenenc_def
        del: relay_response.simps)
qed

end
