(* ===== verification/Mysql_Session.thy ===== *)
theory Mysql_Session
  imports Mysql_Relay
begin

text \<open>
  Both ends of a proxied MySQL connection (\<open>warpgate-protocol-mysql/src\<close>): the connection
  phase with the client, which insists on TLS before it takes a password
  (\<open>session.rs\<close>), the connection phase with the target, which sends a password in clear
  over TLS only (\<open>client.rs\<close>, \<open>common.rs\<close>), and the command loop between them. A stream
  (\<open>stream.rs\<close>) is modelled at the level of whole packets: what the peer will send, and
  what was received and sent, each with the layer it went through. Splitting bytes into
  packets is done by \<open>mysql_common\<close>; I/O failures end a session as the end of the
  stream does.
\<close>

section \<open>Streams\<close>

record mysql_stream =
  inbound :: "bytes list"
  received :: "(bool \<times> bytes) list"
  sent_out :: "(bool \<times> bytes) list"
  is_tls :: bool
  max_allowed_packet :: nat

definition stream_new :: "nat \<Rightarrow> bytes list \<Rightarrow> mysql_stream" where
  "stream_new default_max peer =
     \<lparr> inbound = peer, received = [], sent_out = [], is_tls = False,
       max_allowed_packet = default_max \<rparr>"

text \<open>\<open>push\<close> followed by \<open>flush\<close>.\<close>

definition send_packet :: "bytes \<Rightarrow> mysql_stream \<Rightarrow> mysql_stream" where
  "send_packet p s = s\<lparr> sent_out := sent_out s @ [(is_tls s, p)] \<rparr>"

definition recv :: "mysql_stream \<Rightarrow> bytes option \<times> mysql_stream" where
  "recv s =
     (case inbound s of
        [] \<Rightarrow> (None, s)
      | p # ps \<Rightarrow> (Some p, s\<lparr> inbound := ps, received := received s @ [(is_tls s, p)] \<rparr>))"

definition upgrade :: "bool \<Rightarrow> mysql_stream \<Rightarrow> mysql_error + mysql_stream" where
  "upgrade handshake_succeeds s =
     (if handshake_succeeds then Inr (s\<lparr> is_tls := True \<rparr>) else Inl Mysql_Tls)"

definition MAX_ALLOWED_PACKET :: nat where
  "MAX_ALLOWED_PACKET = 64 * 1024 * 1024"

definition effective_max_packet :: "nat \<Rightarrow> u32 \<Rightarrow> nat" where
  "effective_max_packet default_max negotiated =
     (if unat negotiated < default_max then default_max
      else if MAX_ALLOWED_PACKET < unat negotiated then MAX_ALLOWED_PACKET
      else unat negotiated)"

definition set_max_packet_size :: "nat \<Rightarrow> u32 \<Rightarrow> mysql_stream \<Rightarrow> mysql_stream" where
  "set_max_packet_size default_max negotiated s =
     s\<lparr> max_allowed_packet := effective_max_packet default_max negotiated \<rparr>"

section \<open>Scrambles\<close>

text \<open>
  The digests, and the encryption of a message under a public key in PEM form, which
  fails on a malformed key.
\<close>

record crypto =
  sha1_digest :: "bytes \<Rightarrow> bytes"
  sha256_digest :: "bytes \<Rightarrow> bytes"
  rsa_oaep :: "bytes \<Rightarrow> bytes \<Rightarrow> bytes option"

definition xor_bytes :: "bytes \<Rightarrow> bytes \<Rightarrow> bytes" where
  "xor_bytes xs ys = map2 (XOR) xs ys @ drop (length ys) xs"

definition compute_auth_challenge_response :: "crypto \<Rightarrow> bytes \<Rightarrow> string \<Rightarrow> bytes" where
  "compute_auth_challenge_response K challenge password =
     (let password_sha = sha1_digest K (as_bytes password);
          password_sha_sha = sha1_digest K password_sha;
          password_seed_2sha_sha = sha1_digest K (challenge @ password_sha_sha)
      in xor_bytes password_sha password_seed_2sha_sha)"

definition compute_sha2_auth_challenge_response :: "crypto \<Rightarrow> bytes \<Rightarrow> string \<Rightarrow> bytes" where
  "compute_sha2_auth_challenge_response K challenge password =
     (let password_sha = sha256_digest K (as_bytes password);
          password_sha_sha = sha256_digest K password_sha;
          challenge_hash = sha256_digest K (challenge @ password_sha_sha)
      in xor_bytes password_sha challenge_hash)"

definition password_nul :: "string \<Rightarrow> bytes" where
  "password_nul password = as_bytes password @ [0]"

definition auth_response :: "crypto \<Rightarrow> auth_plugin \<Rightarrow> bytes \<Rightarrow> string \<Rightarrow> bool \<Rightarrow> mysql_error + bytes" where
  "auth_response K plugin nonce password tls =
     (case plugin of
        MySqlNativePassword \<Rightarrow>
          if length nonce = 20 then Inr (compute_auth_challenge_response K nonce password)
          else Inl (Mysql_ProtocolError ''invalid auth challenge length'')
      | CachingSha2Password \<Rightarrow> Inr (compute_sha2_auth_challenge_response K nonce password)
      | _ \<Rightarrow>
          if tls then Inr (password_nul password)
          else Inl (Mysql_ProtocolError ''only supported over a TLS target connection''))"

section \<open>Connecting to the target\<close>

datatype tls_mode = Tls_Disabled | Tls_Preferred | Tls_Required

text \<open>The bytes of the mask repeat; an empty nonce masks nothing.\<close>

definition mask_password :: "bytes \<Rightarrow> bytes \<Rightarrow> bytes" where
  "mask_password nonce bs =
     (if nonce = [] then bs
      else map (\<lambda>i. (bs ! i) XOR (nonce ! (i mod length nonce))) [0..<length bs])"

definition caching_sha2_full_auth ::
  "crypto \<Rightarrow> bytes \<Rightarrow> string \<Rightarrow> tls_mode \<Rightarrow> mysql_stream \<Rightarrow> mysql_stream \<times> (mysql_error + bytes)" where
  "caching_sha2_full_auth K nonce password mode s =
     (if is_tls s then (s, Inr (password_nul password))
      else if mode \<noteq> Tls_Disabled
      then (s, Inl (Mysql_ProtocolError ''full authentication over a plaintext connection''))
      else
        let s = send_packet [2] s in
        case recv s of
          (None, s) \<Rightarrow> (s, Inl Mysql_Eof)
        | (Some payload, s) \<Rightarrow>
            case payload of
              [] \<Rightarrow> (s, Inl (Mysql_ProtocolError ''expected an RSA public key response''))
            | b # pem \<Rightarrow>
                if b \<noteq> 1 then (s, Inl (Mysql_ProtocolError ''expected an RSA public key response''))
                else if \<not> utf8_valid pem then (s, Inl (Mysql_Sqlx InvalidUtf8))
                else case rsa_oaep K pem (mask_password nonce (password_nul password)) of
                       None \<Rightarrow> (s, Inl Mysql_Rsa)
                     | Some c \<Rightarrow> (s, Inr c))"

lemma recv_shorter: "recv s = (Some p, s') \<Longrightarrow> length (inbound s') < length (inbound s)"
  by (auto simp: recv_def split: list.splits)

lemma recv_not_longer: "recv s = (x, s') \<Longrightarrow> length (inbound s') \<le> length (inbound s)"
  by (auto simp: recv_def split: list.splits)

lemma inbound_send [simp]: "inbound (send_packet p s) = inbound s"
  by (simp add: send_packet_def)

lemma full_auth_not_longer:
  "caching_sha2_full_auth K nonce password mode s = (s', r) \<Longrightarrow> length (inbound s') \<le> length (inbound s)"
  by (auto simp: caching_sha2_full_auth_def Let_def split: if_splits prod.splits option.splits
      list.splits dest!: recv_not_longer)

text \<open>
  The loop of \<open>MySqlClient::connect\<close>. Every turn takes a packet from the target, so the
  loop ends with what the target sends.
\<close>

function client_auth_loop ::
  "crypto \<Rightarrow> capabilities \<Rightarrow> tls_mode \<Rightarrow> string \<Rightarrow> auth_plugin \<Rightarrow> bytes \<Rightarrow> mysql_stream \<Rightarrow>
   mysql_stream \<times> (mysql_error + unit)" where
  "client_auth_loop K caps mode password plugin nonce s0 =
     (case recv s0 of
        (None, s) \<Rightarrow> (s, Inl Mysql_Eof)
      | (Some payload, s) \<Rightarrow>
          (case payload of
             [] \<Rightarrow> (s, Inl (Mysql_ProtocolError ''unknown response type''))
           | b # rest \<Rightarrow>
               if b = 0 then (s, Inr ())
               else if b = 0xff then
                 (case err_decode payload caps of
                    Inl e \<Rightarrow> (s, Inl (Mysql_Sqlx e))
                  | Inr _ \<Rightarrow> (s, Inl (Mysql_ProtocolError ''handshake failed'')))
               else if b = 0xfe then
                 (case auth_switch_decode payload of
                    Inl e \<Rightarrow> (s, Inl (Mysql_Sqlx e))
                  | Inr req \<Rightarrow>
                      (case auth_response K (switch_plugin req) (switch_data req) password (is_tls s) of
                         Inl e \<Rightarrow> (s, Inl e)
                       | Inr response \<Rightarrow>
                           client_auth_loop K caps mode password (switch_plugin req) (switch_data req)
                             (send_packet (auth_switch_response_encode response) s)))
               else if b = 1 \<and> plugin = CachingSha2Password then
                 (case rest of
                    [] \<Rightarrow> (s, Inl (Mysql_ProtocolError ''unknown caching_sha2_password status''))
                  | c # _ \<Rightarrow>
                      if c = 3 then client_auth_loop K caps mode password plugin nonce s
                      else if c = 4 then
                        (case caching_sha2_full_auth K nonce password mode s of
                           (s', Inl e) \<Rightarrow> (s', Inl e)
                         | (s', Inr response) \<Rightarrow>
                             client_auth_loop K caps mode password plugin nonce (send_packet response s'))
                      else (s, Inl (Mysql_ProtocolError ''unknown caching_sha2_password status'')))
               else (s, Inl (Mysql_ProtocolError ''unknown response type''))))"
  by pat_completeness auto

termination
proof (relation "measure (\<lambda>(_, _, _, _, _, _, s). length (inbound s))", goal_cases)
  case 1
  show ?case by simp
qed (auto dest!: recv_shorter [OF sym] full_auth_not_longer [OF sym])

declare client_auth_loop.simps [simp del]

record connection_options =
  co_collation :: byte
  co_database :: "string option"
  co_max_packet_size :: u32
  co_capabilities :: capabilities

record mysql_target =
  mt_username :: string
  mt_tls_mode :: tls_mode

text \<open>The outcome of the TLS handshake, which may fail, is an argument, and so is the
  password read from the secret store or made by the cloud provider.\<close>

definition connect_handshake_response ::
  "mysql_target \<Rightarrow> connection_options \<Rightarrow> auth_plugin \<Rightarrow> bytes \<Rightarrow> handshake_response" where
  "connect_handshake_response target options plugin response =
     \<lparr> hr_database = co_database options, hr_max_packet_size = co_max_packet_size options,
       hr_collation = co_collation options, hr_username = mt_username target,
       hr_auth_plugin = Some plugin, hr_auth_response = Some response \<rparr>"

definition select_database ::
  "capabilities \<Rightarrow> string option \<Rightarrow> mysql_stream \<Rightarrow> mysql_stream \<times> (mysql_error + unit)" where
  "select_database caps deferred s =
     (case deferred of
        None \<Rightarrow> (s, Inr ())
      | Some database \<Rightarrow>
          case recv (send_packet (2 # as_bytes database) s) of
            (None, s) \<Rightarrow> (s, Inl Mysql_Eof)
          | (Some payload, s) \<Rightarrow>
              if take 1 payload = [0xff]
              then (case err_decode payload caps of
                      Inl e \<Rightarrow> (s, Inl (Mysql_Sqlx e))
                    | Inr _ \<Rightarrow> (s, Inl (Mysql_ProtocolError ''could not select database'')))
              else (s, Inr ()))"

definition connect_options :: "mysql_target \<Rightarrow> connection_options \<Rightarrow> handshake \<Rightarrow> capabilities" where
  "connect_options target options h =
     (let caps = remove_flags (co_capabilities options) SSL;
          caps = (if mt_tls_mode target \<noteq> Tls_Disabled then caps OR SSL else caps)
      in caps AND server_capabilities h)"

definition connect_tls ::
  "bool \<Rightarrow> mysql_target \<Rightarrow> connection_options \<Rightarrow> capabilities \<Rightarrow> mysql_stream \<Rightarrow>
   mysql_stream \<times> (mysql_error + mysql_stream)" where
  "connect_tls tls_succeeds target options caps s =
     (if has_flags caps SSL \<and> mt_tls_mode target \<noteq> Tls_Disabled
      then let s = send_packet (ssl_request_encode
                     \<lparr> ssl_max_packet_size = co_max_packet_size options,
                       ssl_collation = co_collation options \<rparr> caps) s
           in (s, upgrade tls_succeeds s)
      else (s, Inr s))"

definition connect_login ::
  "crypto \<Rightarrow> string \<Rightarrow> mysql_target \<Rightarrow> connection_options \<Rightarrow> auth_plugin \<Rightarrow> bytes \<Rightarrow> capabilities \<Rightarrow>
   string option \<Rightarrow> mysql_stream \<Rightarrow> mysql_stream \<times> (mysql_error + capabilities)" where
  "connect_login K password target options plugin nonce caps deferred s =
     (case auth_response K plugin nonce password (is_tls s) of
        Inl e \<Rightarrow> (s, Inl e)
      | Inr response \<Rightarrow>
          case client_auth_loop K caps (mt_tls_mode target) password plugin nonce
                 (send_packet (handshake_response_encode
                    (connect_handshake_response target options plugin response) caps) s) of
            (s, Inl e) \<Rightarrow> (s, Inl e)
          | (s, Inr _) \<Rightarrow>
              case select_database caps deferred s of
                (s, Inl e) \<Rightarrow> (s, Inl e)
              | (s, Inr _) \<Rightarrow> (s, Inr caps))"

definition connect_authenticate ::
  "crypto \<Rightarrow> string \<Rightarrow> mysql_target \<Rightarrow> connection_options \<Rightarrow> handshake \<Rightarrow> capabilities \<Rightarrow>
   mysql_stream \<Rightarrow> mysql_stream \<times> (mysql_error + capabilities)" where
  "connect_authenticate K password target options h caps s =
     connect_login K password target options
       (case hs_auth_plugin h of Some p \<Rightarrow> p | None \<Rightarrow> MySqlNativePassword)
       (fst (auth_plugin_data h) @ snd (auth_plugin_data h)) caps
       (if has_flags caps CONNECT_WITH_DB then None else co_database options) s"

definition connect ::
  "crypto \<Rightarrow> bool \<Rightarrow> mysql_error + string \<Rightarrow> mysql_target \<Rightarrow> connection_options \<Rightarrow> mysql_stream \<Rightarrow>
   mysql_stream \<times> (mysql_error + capabilities)" where
  "connect K tls_succeeds password target options s0 =
     (case recv s0 of
        (None, s) \<Rightarrow> (s, Inl Mysql_Eof)
      | (Some payload, s) \<Rightarrow>
          case handshake_decode payload of
            Inl e \<Rightarrow> (s, Inl (Mysql_Sqlx e))
          | Inr h \<Rightarrow>
              let caps = connect_options target options h in
              if mt_tls_mode target = Tls_Required \<and> \<not> has_flags caps SSL
              then (s, Inl Mysql_TlsNotSupported)
              else case connect_tls tls_succeeds target options caps s of
                     (s, Inl e) \<Rightarrow> (s, Inl e)
                   | (_, Inr s) \<Rightarrow>
                       case password of
                         Inl e \<Rightarrow> (s, Inl e)
                       | Inr pw \<Rightarrow> connect_authenticate K pw target options h caps s)"

section \<open>The connection phase with the client\<close>

definition session_capabilities :: capabilities where
  "session_capabilities =
     PROTOCOL_41 OR PLUGIN_AUTH OR FOUND_ROWS OR LONG_FLAG OR NO_SCHEMA OR
     PLUGIN_AUTH_LENENC_DATA OR CONNECT_WITH_DB OR SESSION_TRACK OR IGNORE_SPACE OR
     INTERACTIVE OR TRANSACTIONS OR DEPRECATE_EOF OR SECURE_CONNECTION OR SSL"

definition send_error :: "u16 \<Rightarrow> string \<Rightarrow> mysql_stream \<Rightarrow> mysql_stream" where
  "send_error code message s =
     send_packet (err_encode \<lparr> error_code = code, sql_state = None, error_message = message \<rparr>) s"

definition tls_required_message :: string where
  "tls_required_message = ''Warpgate requires TLS - please enable it in your client: add `--ssl` on the CLI or add `?sslMode=PREFERRED` to your database URI''"

definition session_handshake :: "string \<Rightarrow> bytes \<Rightarrow> handshake" where
  "session_handshake advertised_version challenge =
     \<lparr> protocol_version = 10, server_version = advertised_version, connection_id = 1,
       server_capabilities = session_capabilities, server_default_collation = 45, hs_status = 0,
       hs_auth_plugin = Some MySqlNativePassword,
       auth_plugin_data = (take 8 challenge, drop 8 challenge) \<rparr>"

text \<open>
  The loop of \<open>MySqlSession::run\<close>: answers are read until one comes over TLS; the
  capabilities narrow with every full answer.
\<close>

lemma inbound_upgrade: "upgrade b s = Inr s' \<Longrightarrow> inbound s' = inbound s"
  by (auto simp: upgrade_def split: if_splits)

function session_negotiate ::
  "bool \<Rightarrow> capabilities \<Rightarrow> mysql_stream \<Rightarrow>
   mysql_stream \<times> (mysql_error + handshake_response \<times> capabilities)" where
  "session_negotiate tls_succeeds caps s0 =
     (case recv s0 of
        (None, s) \<Rightarrow> (s, Inl Mysql_Eof)
      | (Some payload, s) \<Rightarrow>
          (case handshake_response_decode payload caps of
             Inl e \<Rightarrow> (s, Inl (Mysql_Sqlx e))
           | Inr (resp, caps') \<Rightarrow>
               if has_flags caps' SSL
               then if is_tls s then (s, Inr (resp, caps'))
                    else (case upgrade tls_succeeds s of
                            Inl e \<Rightarrow> (s, Inl e)
                          | Inr s' \<Rightarrow> session_negotiate tls_succeeds caps' s')
               else (send_error 1002 tls_required_message s, Inl Mysql_TlsNotSupportedByClient)))"
  by pat_completeness auto

termination
  by (relation "measure (\<lambda>(_, _, s). length (inbound s))")
    (auto dest!: recv_shorter [OF sym] inbound_upgrade)

declare session_negotiate.simps [simp del]

definition first_str :: "bytes \<Rightarrow> mysql_error + string" where
  "first_str buf = (case get_str_nul buf of Inl e \<Rightarrow> Inl (Mysql_Sqlx e) | Inr (x, _) \<Rightarrow> Inr x)"

text \<open>
  \<open>MySqlSession::run\<close> up to \<open>run_authorization\<close>: the answer, the password and the
  negotiated capabilities.
\<close>

definition session_run ::
  "bool \<Rightarrow> string \<Rightarrow> bytes \<Rightarrow> mysql_stream \<Rightarrow>
   mysql_stream \<times> (mysql_error + handshake_response \<times> string \<times> capabilities)" where
  "session_run tls_succeeds advertised_version challenge s =
     (case session_negotiate tls_succeeds session_capabilities
             (send_packet (handshake_encode (session_handshake advertised_version challenge)) s) of
        (s, Inl e) \<Rightarrow> (s, Inl e)
      | (s, Inr (resp, caps)) \<Rightarrow>
          case (hr_auth_plugin resp, hr_auth_response resp) of
            (Some MySqlClearPassword, Some response) \<Rightarrow>
              (s, case first_str response of Inl e \<Rightarrow> Inl e | Inr pw \<Rightarrow> Inr (resp, pw, caps))
          | _ \<Rightarrow>
              case recv (send_packet (auth_switch_encode
                           \<lparr> switch_plugin = MySqlClearPassword, switch_data = [] \<rparr>) s) of
                (None, s) \<Rightarrow> (s, Inl Mysql_Eof)
              | (Some response, s) \<Rightarrow>
                  (s, case first_str response of Inl e \<Rightarrow> Inl e | Inr pw \<Rightarrow> Inr (resp, pw, caps)))"

section \<open>The command loop\<close>

text \<open>
  What a session did in the command loop: the packets sent to the client and to the
  target, and the queries written to the log.
\<close>

record command_log =
  to_client :: "bytes list"
  to_target :: "bytes list"
  sql_log :: "string list"

definition log_cons :: "bytes list \<Rightarrow> bytes list \<Rightarrow> string list \<Rightarrow> command_log \<Rightarrow> command_log" where
  "log_cons c t q l =
     \<lparr> to_client = c @ to_client l, to_target = t @ to_target l, sql_log = q @ sql_log l \<rparr>"

definition log_end :: "bytes list \<Rightarrow> bytes list \<Rightarrow> string list \<Rightarrow> command_log" where
  "log_end c t q = \<lparr> to_client = c, to_target = t, sql_log = q \<rparr>"

text \<open>
  The loop of \<open>run_authorized_inner\<close> over what the client sends, with what the target will
  answer. Switching the database is forwarded and otherwise only remembered for display.
\<close>

fun command_loop ::
  "capabilities \<Rightarrow> capabilities \<Rightarrow> bytes list \<Rightarrow> bytes list \<Rightarrow> command_log \<times> (mysql_error + unit)" where
  "command_loop client target [] answers = (log_end [] [] [], Inr ())"
| "command_loop client target (payload # rest) answers =
     (case payload of
        [] \<Rightarrow> (log_end [] [] [], Inr ())
      | com # body \<Rightarrow>
          if com = 0x03 then
            (case query_decode payload of
               Inl e \<Rightarrow> (log_end [] [] [], Inl (Mysql_Sqlx e))
             | Inr query \<Rightarrow>
                 (case relay_response (relay_result_set client target) answers of
                    (sent, Inl e) \<Rightarrow> (log_end sent [query_encode query] [query], Inl e)
                  | (sent, Inr answers) \<Rightarrow>
                      (case command_loop client target rest answers of
                         (l, r) \<Rightarrow> (log_cons sent [query_encode query] [query] l, r))))
          else if com = 0x01 then (log_end [] [] [], Inr ())
          else if com = 0x02 \<and> \<not> utf8_valid body then
            (log_end [] [] [], Inl (Mysql_Sqlx InvalidUtf8))
          else if com = 0x02 \<or> com = 0x04 \<or> com = 0x0e \<or> com = 0x1f then
            (case relay_response (relay_single client target) answers of
               (sent, Inl e) \<Rightarrow> (log_end sent [payload] [], Inl e)
             | (sent, Inr answers) \<Rightarrow>
                 (case command_loop client target rest answers of
                    (l, r) \<Rightarrow> (log_cons sent [payload] [] l, r)))
          else
            (case command_loop client target rest answers of
               (l, r) \<Rightarrow>
                 (log_cons [err_encode \<lparr> error_code = 1047, sql_state = None,
                              error_message = ''Not implemented'' \<rparr>] [] [] l, r)))"

section \<open>What the client side guarantees\<close>

lemma recv_SomeD:
  assumes "recv s = (Some p, s')"
  shows "is_tls s' = is_tls s" "received s' = received s @ [(is_tls s, p)]" "sent_out s' = sent_out s"
  using assms by (auto simp: recv_def split: list.splits)

lemma recv_NoneD: "recv s = (None, s') \<Longrightarrow> s' = s"
  by (auto simp: recv_def split: list.splits)

lemma recv_frame: "recv s = (x, s') \<Longrightarrow> is_tls s' = is_tls s \<and> sent_out s' = sent_out s"
  by (cases x) (auto dest: recv_SomeD recv_NoneD)

lemma send_packet_fields [simp]:
  "is_tls (send_packet p s) = is_tls s" "received (send_packet p s) = received s"
  "sent_out (send_packet p s) = sent_out s @ [(is_tls s, p)]"
  by (simp_all add: send_packet_def)

lemma session_negotiate_tls:
  "session_negotiate tls_succeeds caps s = (s', Inr (resp, caps')) \<Longrightarrow>
   is_tls s' \<and> has_flags caps' SSL \<and>
   (\<exists>p c. (True, p) \<in> set (received s') \<and> handshake_response_decode p c = Inr (resp, caps'))"
proof (induction tls_succeeds caps s rule: session_negotiate.induct)
  case (1 tls_succeeds caps s0)
  from 1(2) obtain p s where r: "recv s0 = (Some p, s)"
    by (auto simp: session_negotiate.simps [of tls_succeeds caps s0] split: prod.splits option.splits)
  with 1(2) obtain rsp c where d: "handshake_response_decode p caps = Inr (rsp, c)"
    by (auto simp: session_negotiate.simps [of tls_succeeds caps s0] split: sum.splits)
  with 1(2) r have ssl: "has_flags c SSL"
    by (auto simp: session_negotiate.simps [of tls_succeeds caps s0] split: if_splits)
  show ?case
  proof (cases "is_tls s")
    case True
    with 1(2) r d ssl recv_SomeD [OF r] show ?thesis
      by (auto simp: session_negotiate.simps [of tls_succeeds caps s0])
  next
    case False
    with 1(2) r d ssl obtain t where "upgrade tls_succeeds s = Inr t"
      and "session_negotiate tls_succeeds c t = (s', Inr (resp, caps'))"
      by (auto simp: session_negotiate.simps [of tls_succeeds caps s0] split: sum.splits)
    with 1(1) r d ssl False show ?thesis by metis
  qed
qed

text \<open>
  C12: A password reaches the authorization of a MySQL session only through TLS: it was read from a
  packet received over TLS, either the client's answer with the clear-text plugin or the
  reply to the request to switch to it, and the answer naming the user came over TLS too.
\<close>

theorem session_password_under_tls:
  assumes "session_run tls_succeeds version challenge s = (s', Inr (resp, pw, caps))"
  shows "is_tls s' \<and> has_flags caps SSL \<and>
    (\<exists>p c. (True, p) \<in> set (received s') \<and> handshake_response_decode p c = Inr (resp, caps)) \<and>
    ((\<exists>p. (True, p) \<in> set (received s') \<and> first_str p = Inr pw) \<or>
     hr_auth_plugin resp = Some MySqlClearPassword \<and>
     (\<exists>a. hr_auth_response resp = Some a \<and> first_str a = Inr pw))"
proof -
  from assms obtain s1 rsp c where n: "session_negotiate tls_succeeds session_capabilities
      (send_packet (handshake_encode (session_handshake version challenge)) s) = (s1, Inr (rsp, c))"
    by (auto simp: session_run_def split: prod.splits sum.splits)
  note tls = session_negotiate_tls [OF n]
  show ?thesis
  proof (cases "\<exists>a. hr_auth_plugin rsp = Some MySqlClearPassword \<and> hr_auth_response rsp = Some a")
    case True
    with assms n have "s' = s1" "resp = rsp" "caps = c"
      and "\<exists>a. hr_auth_response resp = Some a \<and> first_str a = Inr pw"
      by (auto simp: session_run_def split: sum.splits)
    with tls True show ?thesis by auto
  next
    case False
    define s2 where "s2 = send_packet (auth_switch_encode
        \<lparr> switch_plugin = MySqlClearPassword, switch_data = [] \<rparr>) s1"
    have run: "session_run tls_succeeds version challenge s =
        (case recv s2 of
           (None, s) \<Rightarrow> (s, Inl Mysql_Eof)
         | (Some response, s) \<Rightarrow>
             (s, case first_str response of Inl e \<Rightarrow> Inl e | Inr pw \<Rightarrow> Inr (rsp, pw, c)))"
      using False n by (auto simp: session_run_def s2_def split: option.splits auth_plugin.splits)
    with assms obtain p where r: "recv s2 = (Some p, s')" and "first_str p = Inr pw"
      "resp = rsp" "caps = c"
      by (auto split: prod.splits option.splits sum.splits)
    moreover have "is_tls s2" and "received s2 = received s1"
      using tls by (simp_all add: s2_def)
    ultimately show ?thesis
      using tls recv_SomeD [OF r] by auto
  qed
qed

definition sample_opening :: bytes where
  "sample_opening = [1, 138, 0, 0, 0, 0, 64, 0, 45] @ replicate 19 0 @ replicate 4 0"

lemma sample_opening_decoded:
  "handshake_response_decode sample_opening caps =
     Inr (\<lparr> hr_database = None, hr_max_packet_size = 0x400000, hr_collation = 45,
            hr_username = [], hr_auth_plugin = None, hr_auth_response = None \<rparr>, caps)"
  using skip_append [of "replicate 4 0" 4 "[]"]
  by (simp add: handshake_response_decode_def sample_opening_def try_get_u32_le_def try_get_le_def
      try_get_uint_le_def Let_def capabilities_truncate_def capabilities_all_value has_flags_def
      flag_defs)

lemma sample_login_decoded:
  "handshake_response_decode (sample_opening @ [98, 111, 98, 0, 0]) caps =
     Inr (\<lparr> hr_database = None, hr_max_packet_size = 0x400000, hr_collation = 45,
            hr_username = ''bob'', hr_auth_plugin = None, hr_auth_response = Some [] \<rparr>,
          caps AND 0x8A01)"
  by (simp add: handshake_response_decode_def sample_opening_def try_get_u32_le_def try_get_le_def
      try_get_uint_le_def Let_def capabilities_truncate_def capabilities_all_value has_flags_def
      flag_defs push_bit_eq_mult get_str_nul_def get_bytes_nul_def utf8_def of_bytes_def
      get_auth_response_def get_database_def get_auth_plugin_def get_bytes_def char_of_def bit_0)

lemma session_capabilities_value: "session_capabilities = 0x1A8AF1E"
  by (simp add: session_capabilities_def flag_defs push_bit_eq_mult)

definition sample_session :: mysql_stream where
  "sample_session =
     stream_new 4194304 [sample_opening, sample_opening @ [98, 111, 98, 0, 0], [112, 119, 0]]"

lemma sample_session_run:
  "\<exists>s' resp caps. session_run True ''8.0'' (replicate 20 7) sample_session =
     (s', Inr (resp, ''pw'', caps)) \<and> hr_username resp = ''bob''"
proof -
  have pw: "first_str [112, 119, 0] = Inr ''pw''"
    by (simp add: first_str_def get_str_nul_def get_bytes_nul_def utf8_def of_bytes_def char_of_def bit_0)
  have ssl: "has_flags session_capabilities SSL" "has_flags (session_capabilities AND 0x8A01) SSL"
    by (simp_all add: has_flags_def session_capabilities_value SSL_def)
  show ?thesis
    by (simp add: session_run_def session_negotiate.simps recv_def sample_session_def stream_new_def
        send_packet_def sample_opening_decoded sample_login_decoded [simplified] sample_login_decoded
        ssl upgrade_def pw)
qed

theorem session_password_under_tls_witness:
  "\<exists>s' resp caps. session_run True ''8.0'' (replicate 20 7) sample_session =
     (s', Inr (resp, ''pw'', caps)) \<and> is_tls s' \<and> has_flags caps SSL"
proof -
  obtain s' resp caps where "session_run True ''8.0'' (replicate 20 7) sample_session =
      (s', Inr (resp, ''pw'', caps))"
    using sample_session_run by blast
  with session_password_under_tls [OF this] show ?thesis by blast
qed

text \<open>A client that does not offer TLS is told so, and nothing it sent is used.\<close>

lemma session_refuses_clear_clients:
  assumes "inbound s = payload # rest" and "handshake_response_decode payload session_capabilities = Inr (resp, caps)"
    and "\<not> has_flags caps SSL"
  shows "\<exists>s'. session_run tls_succeeds version challenge s = (s', Inl Mysql_TlsNotSupportedByClient) \<and>
    last (sent_out s') = (is_tls s, err_encode \<lparr> error_code = 1002, sql_state = None,
      error_message = tls_required_message \<rparr>)"
  using assms
  by (simp add: session_run_def session_negotiate.simps recv_def send_packet_def send_error_def)

section \<open>What the target side guarantees\<close>

text \<open>
  The packets that may leave without TLS: the request for TLS itself, answers whose
  secret part is a scramble, the request for the key, a message encrypted under it, and
  the choice of a database.
\<close>

definition scrambled :: "crypto \<Rightarrow> string \<Rightarrow> bytes \<Rightarrow> bool" where
  "scrambled K password a \<longleftrightarrow>
     (\<exists>nonce. a = compute_auth_challenge_response K nonce password \<or>
              a = compute_sha2_auth_challenge_response K nonce password)"

definition clear_packet :: "crypto \<Rightarrow> string \<Rightarrow> mysql_target \<Rightarrow> connection_options \<Rightarrow> bytes \<Rightarrow> bool" where
  "clear_packet K password target options p \<longleftrightarrow>
     (\<exists>r caps. p = ssl_request_encode r caps) \<or>
     (\<exists>plugin a caps. scrambled K password a \<and>
        p = handshake_response_encode (connect_handshake_response target options plugin a) caps) \<or>
     scrambled K password p \<or> p = [2] \<or> (\<exists>pem m. rsa_oaep K pem m = Some p) \<or>
     (\<exists>d. co_database options = Some d \<and> p = 2 # as_bytes d)"

lemma auth_response_clear: "auth_response K plugin nonce password False = Inr a \<Longrightarrow> scrambled K password a"
  by (cases plugin) (auto simp: auth_response_def scrambled_def split: if_splits)

definition sends_safely :: "crypto \<Rightarrow> string \<Rightarrow> mysql_stream \<Rightarrow> mysql_stream \<Rightarrow> bool" where
  "sends_safely K password s s' \<longleftrightarrow>
     is_tls s' = is_tls s \<and>
     (\<forall>t p. (t, p) \<in> set (sent_out s') \<longrightarrow>
        (t, p) \<in> set (sent_out s) \<or>
        t = is_tls s \<and> (t \<or> scrambled K password p \<or> p = [2] \<or> (\<exists>pem m. rsa_oaep K pem m = Some p)))"

lemma sends_safely_refl [simp]: "sends_safely K password s s"
  by (simp add: sends_safely_def)

lemma sends_safely_trans:
  "sends_safely K password s t \<Longrightarrow> sends_safely K password t u \<Longrightarrow> sends_safely K password s u"
  unfolding sends_safely_def by metis

lemma sends_safely_recv: "recv s = (x, s') \<Longrightarrow> sends_safely K password s s'"
  by (cases x) (auto simp: sends_safely_def dest: recv_SomeD recv_NoneD)

lemma sends_safely_send:
  "is_tls s \<or> scrambled K password p \<or> p = [2] \<or> (\<exists>pem m. rsa_oaep K pem m = Some p) \<Longrightarrow>
   sends_safely K password s (send_packet p s)"
  by (auto simp: sends_safely_def)

lemma full_auth_safe:
  assumes "caching_sha2_full_auth K nonce password mode s = (s', r)"
  shows "sends_safely K password s s'"
    and "r = Inr a \<Longrightarrow> is_tls s' \<or> (\<exists>pem m. rsa_oaep K pem m = Some a)"
proof -
  show "sends_safely K password s s'"
  proof (cases "s' = s")
    case False
    with assms obtain x where "recv (send_packet [2] s) = (x, s')"
      by (auto simp: caching_sha2_full_auth_def Let_def split: if_splits prod.splits option.splits
          list.splits)
    then show ?thesis
      using sends_safely_trans [OF sends_safely_send sends_safely_recv] by blast
  qed simp
  show "is_tls s' \<or> (\<exists>pem m. rsa_oaep K pem m = Some a)" if "r = Inr a"
    using assms that
    by (auto simp: caching_sha2_full_auth_def Let_def split: if_splits prod.splits option.splits
        list.splits)
qed

lemma client_auth_loop_safe:
  "client_auth_loop K caps mode password plugin nonce s = (s', r) \<Longrightarrow> sends_safely K password s s'"
proof (induction K caps mode password plugin nonce s rule: client_auth_loop.induct)
  case (1 K caps mode password plugin nonce s0)
  obtain x s where r: "recv s0 = (x, s)" by (cases "recv s0")
  note s = sends_safely_recv [OF r, of K password]
  note loop = client_auth_loop.simps [of K caps mode password plugin nonce s0]
  show ?case
  proof (cases "s' = s")
    case True
    with s show ?thesis by simp
  next
    case False
    with 1(4) r obtain b rest where x: "x = Some (b # rest)"
      by (auto simp: loop split: option.splits list.splits)
    consider (switch) req a where "b \<noteq> 0" "b \<noteq> 0xff" "b = 0xfe"
        "auth_switch_decode (b # rest) = Inr req"
        "auth_response K (switch_plugin req) (switch_data req) password (is_tls s) = Inr a"
        "client_auth_loop K caps mode password (switch_plugin req) (switch_data req)
           (send_packet (auth_switch_response_encode a) s) = (s', r)"
      | (fast) bs where "b = 1" "plugin = CachingSha2Password" "rest = 3 # bs"
        "client_auth_loop K caps mode password plugin nonce s = (s', r)"
      | (full) bs t y where "b = 1" "plugin = CachingSha2Password" "rest = 4 # bs"
        "caching_sha2_full_auth K nonce password mode s = (t, y)"
        "(\<exists>e. y = Inl e \<and> s' = t) \<or>
         (\<exists>a. y = Inr a \<and> client_auth_loop K caps mode password plugin nonce (send_packet a t) = (s', r))"
      using 1(4) r x False
      by (auto simp: loop split: if_splits sum.splits list.splits prod.splits)
    then show ?thesis
    proof cases
      case switch
      have "is_tls s \<or> scrambled K password a"
        using switch(5) by (cases "is_tls s") (auto dest: auth_response_clear)
      then have "sends_safely K password s (send_packet (auth_switch_response_encode a) s)"
        by (intro sends_safely_send) (auto simp: auth_switch_response_encode_def)
      moreover have "sends_safely K password (send_packet (auth_switch_response_encode a) s) s'"
        using 1(1) r x switch by simp
      ultimately show ?thesis using s sends_safely_trans by blast
    next
      case fast
      then have "sends_safely K password s s'" using 1(2) r x by simp
      with s show ?thesis by (rule sends_safely_trans)
    next
      case full
      note safe = full_auth_safe [OF full(4)]
      show ?thesis
      proof (cases y)
        case (Inl e)
        with full(5) safe(1) s show ?thesis using sends_safely_trans by blast
      next
        case (Inr a)
        have "sends_safely K password t (send_packet a t)"
          using safe(2) [OF Inr] by (intro sends_safely_send) auto
        moreover have "sends_safely K password (send_packet a t) s'"
          using 1(3) r x full Inr by simp
        ultimately show ?thesis using s safe(1) sends_safely_trans by blast
      qed
    qed
  qed
qed

lemma select_database_sent:
  "select_database caps deferred s = (s', r) \<Longrightarrow>
   is_tls s' = is_tls s \<and>
   (\<forall>t p. (t, p) \<in> set (sent_out s') \<longrightarrow>
      (t, p) \<in> set (sent_out s) \<or> t = is_tls s \<and> (\<exists>d. deferred = Some d \<and> p = 2 # as_bytes d))"
  by (auto simp: select_database_def split: option.splits prod.splits if_splits sum.splits
      dest!: recv_frame)

lemma clear_packet_response:
  "scrambled K pw a \<Longrightarrow> clear_packet K pw target options
     (handshake_response_encode (connect_handshake_response target options plugin a) caps)"
  unfolding clear_packet_def by metis

lemma clear_packet_loop:
  "scrambled K pw p \<or> p = [2] \<or> (\<exists>pem m. rsa_oaep K pem m = Some p) \<Longrightarrow>
   clear_packet K pw target options p"
  unfolding clear_packet_def by metis

lemma clear_packet_database:
  "co_database options = Some d \<Longrightarrow> clear_packet K pw target options (2 # as_bytes d)"
  unfolding clear_packet_def by metis

lemma client_loop_sent:
  assumes loop: "client_auth_loop K caps mode pw plugin nonce
      (send_packet (handshake_response_encode (connect_handshake_response target options p a) caps) s) = (s', x)"
    and clear: "is_tls s \<or> scrambled K pw a" and sent: "(u, q) \<in> set (sent_out s')"
  shows "(u, q) \<in> set (sent_out s) \<or> u = is_tls s \<and> (u \<or> clear_packet K pw target options q)"
proof -
  consider "(u, q) \<in> set (sent_out s)" | "u = is_tls s" "q = handshake_response_encode
        (connect_handshake_response target options p a) caps"
    | "u = is_tls s" "u \<or> scrambled K pw q \<or> q = [2] \<or> (\<exists>pem m. rsa_oaep K pem m = Some q)"
    using client_auth_loop_safe [OF loop] sent by (auto simp: sends_safely_def)
  then show ?thesis
    using clear clear_packet_response [of K pw a target options p caps]
      clear_packet_loop [of K pw q target options]
    by cases auto
qed

lemma connect_login_sent:
  assumes run: "connect_login K pw target options plugin nonce caps deferred s = (s', r)"
    and sent: "(t, p) \<in> set (sent_out s')" and d: "deferred = None \<or> deferred = co_database options"
  shows "(t, p) \<in> set (sent_out s) \<or> t = is_tls s \<and> (t \<or> clear_packet K pw target options p)"
proof (cases "auth_response K plugin nonce pw (is_tls s)")
  case (Inl e)
  with run sent show ?thesis by (simp add: connect_login_def)
next
  case (Inr a)
  have clear: "is_tls s \<or> scrambled K pw a"
    using Inr by (cases "is_tls s") (auto dest: auth_response_clear)
  obtain s2 x where loop: "client_auth_loop K caps (mt_tls_mode target) pw plugin nonce
      (send_packet (handshake_response_encode (connect_handshake_response target options plugin a) caps) s)
      = (s2, x)"
    by fastforce
  have tls: "is_tls s2 = is_tls s"
    using client_auth_loop_safe [OF loop] by (simp add: sends_safely_def)
  have "s' = s2 \<or> (\<exists>y. select_database caps deferred s2 = (s', y))"
    using run Inr loop by (auto simp: connect_login_def split: sum.splits prod.splits)
  then have "(t, p) \<in> set (sent_out s2) \<or>
      t = is_tls s \<and> (\<exists>d. co_database options = Some d \<and> p = 2 # as_bytes d)"
    using sent tls d by (auto dest!: select_database_sent)
  then show ?thesis
    using client_loop_sent [OF loop clear] by (auto simp: clear_packet_database)
qed

lemma connect_authenticate_sent:
  assumes "connect_authenticate K pw target options h caps s = (s', r)" and "(t, p) \<in> set (sent_out s')"
  shows "(t, p) \<in> set (sent_out s) \<or> t = is_tls s \<and> (t \<or> clear_packet K pw target options p)"
  using connect_login_sent [OF assms(1) [unfolded connect_authenticate_def] assms(2)] by simp

lemma connect_tls_stages:
  assumes "connect_tls tls_succeeds target options caps s = (s1, x)"
  shows "s1 = s \<or> (\<exists>q. s1 = send_packet (ssl_request_encode q caps) s)"
    and "x = Inr s2 \<Longrightarrow> sent_out s2 = sent_out s1 \<and> (is_tls s2 \<or> s2 = s)"
    and "x = Inr s2 \<Longrightarrow> has_flags caps SSL \<Longrightarrow> mt_tls_mode target \<noteq> Tls_Disabled \<Longrightarrow> is_tls s2"
  using assms by (auto simp: connect_tls_def upgrade_def Let_def split: if_splits)

text \<open>
  C13: Connecting to a target never gives the password away: what leaves without TLS is the request
  for TLS, answers whose secret part is a scramble, the request for a key, a message
  encrypted under it and the choice of the database. When the target requires TLS, it is
  the request for TLS alone.
\<close>

theorem connect_guards_password:
  assumes "connect K tls_succeeds (Inr pw) target options (stream_new m peer) = (s', r)"
    and "(False, p) \<in> set (sent_out s')"
  shows "if mt_tls_mode target = Tls_Required then \<exists>q caps. p = ssl_request_encode q caps
    else clear_packet K pw target options p"
proof -
  obtain x s where rc: "recv (stream_new m peer) = (x, s)" by (cases "recv (stream_new m peer)")
  then have s: "sent_out s = []" "\<not> is_tls s"
    by (auto simp: stream_new_def dest!: recv_frame)
  from assms rc s obtain payload h where x: "x = Some payload" and h: "handshake_decode payload = Inr h"
    by (cases x) (auto simp: connect_def split: sum.splits)
  define caps where "caps = connect_options target options h"
  obtain s1 y where t: "connect_tls tls_succeeds target options caps s = (s1, y)"
    by (cases "connect_tls tls_succeeds target options caps s")
  note stages = connect_tls_stages [OF t]
  have ssl: "has_flags caps SSL" if "mt_tls_mode target = Tls_Required"
    using assms rc x h that s by (auto simp: connect_def caps_def Let_def split: if_splits)
  have req: "\<exists>q. (u, q') \<in> set (sent_out s1) \<longrightarrow> q' = ssl_request_encode q caps" for u q'
    using stages(1) s by auto
  have "s' = s1 \<and> (\<exists>e. y = Inl e) \<or>
      (\<exists>s2. y = Inr s2 \<and> connect_authenticate K pw target options h caps s2 = (s', r))"
    using assms rc x h t s
    by (auto simp: connect_def caps_def [symmetric] Let_def split: if_splits sum.splits)
  then show ?thesis
  proof
    assume "s' = s1 \<and> (\<exists>e. y = Inl e)"
    with assms(2) req show ?thesis unfolding clear_packet_def by metis
  next
    assume "\<exists>s2. y = Inr s2 \<and> connect_authenticate K pw target options h caps s2 = (s', r)"
    then obtain s2 where y: "y = Inr s2"
      and a: "connect_authenticate K pw target options h caps s2 = (s', r)" by blast
    have "(False, p) \<in> set (sent_out s1) \<or> \<not> is_tls s2 \<and> clear_packet K pw target options p"
      using connect_authenticate_sent [OF a assms(2)] stages(2) [OF y] by auto
    then show ?thesis
    proof
      assume "(False, p) \<in> set (sent_out s1)"
      with req show ?thesis unfolding clear_packet_def by metis
    next
      assume "\<not> is_tls s2 \<and> clear_packet K pw target options p"
      with stages(3) [OF y] ssl show ?thesis by auto
    qed
  qed
qed

definition sample_crypto :: crypto where
  "sample_crypto =
     \<lparr> sha1_digest = (\<lambda>m. replicate 20 (word_of_nat (length m))),
       sha256_digest = (\<lambda>m. replicate 32 (word_of_nat (length m))), rsa_oaep = (\<lambda>_ _. None) \<rparr>"

definition sample_mysql_target :: mysql_target where
  "sample_mysql_target = \<lparr> mt_username = ''app'', mt_tls_mode = Tls_Disabled \<rparr>"

definition sample_options :: connection_options where
  "sample_options =
     \<lparr> co_collation = 45, co_database = None, co_max_packet_size = 0x400000, co_capabilities = sample_caps \<rparr>"

lemma sample_connect:
  "\<exists>s' p. connect sample_crypto False (Inr ''pw'') sample_mysql_target sample_options
     (stream_new 4194304 [handshake_encode sample_handshake, [0]]) = (s', Inr (remove_flags sample_caps SSL)) \<and>
     (False, p) \<in> set (sent_out s')"
proof -
  have caps: "connect_options sample_mysql_target sample_options sample_handshake = remove_flags sample_caps SSL"
    by (simp add: connect_options_def sample_mysql_target_def sample_options_def sample_handshake_def
        remove_flags_def sample_caps_value SSL_def)
  have no_ssl: "\<not> has_flags (remove_flags sample_caps SSL) SSL"
    by (simp add: has_flags_def remove_flags_def sample_caps_value SSL_def)
  have fields: "mt_tls_mode sample_mysql_target = Tls_Disabled" "co_database sample_options = None"
    "hs_auth_plugin sample_handshake = Some MySqlNativePassword"
    "length (fst (auth_plugin_data sample_handshake)) + length (snd (auth_plugin_data sample_handshake)) = 20"
    by (simp_all add: sample_mysql_target_def sample_options_def sample_handshake_def)
  show ?thesis
    by (simp add: connect_def recv_def stream_new_def handshake_decode_encode [OF sample_handshake_ok]
        caps no_ssl connect_tls_def connect_authenticate_def connect_login_def Let_def fields
        auth_response_def client_auth_loop.simps select_database_def)
qed

theorem connect_guards_password_witness:
  "\<exists>s' r p. connect sample_crypto False (Inr ''pw'') sample_mysql_target sample_options
     (stream_new 4194304 [handshake_encode sample_handshake, [0]]) = (s', r) \<and>
     (False, p) \<in> set (sent_out s') \<and> clear_packet sample_crypto ''pw'' sample_mysql_target sample_options p"
proof -
  obtain s' r p where c: "connect sample_crypto False (Inr ''pw'') sample_mysql_target sample_options
      (stream_new 4194304 [handshake_encode sample_handshake, [0]]) = (s', r)"
    and p: "(False, p) \<in> set (sent_out s')"
    using sample_connect by blast
  have "mt_tls_mode sample_mysql_target \<noteq> Tls_Required" by (simp add: sample_mysql_target_def)
  with connect_guards_password [OF c p] c p show ?thesis by auto
qed

section \<open>Scrambles\<close>

text \<open>
  The scramble verifies: a server that holds the double digest of the password recovers the
  single digest from the response and the challenge it sent.
\<close>

lemma xor_bytes_cancel:
  assumes "length xs = length ys"
  shows "xor_bytes (xor_bytes xs ys) ys = xs"
proof -
  have "map2 (XOR) (map2 (XOR) xs ys) ys = xs"
    using assms by (induction xs ys rule: list_induct2) (simp_all add: xor.assoc)
  with assms show ?thesis by (simp add: xor_bytes_def)
qed

lemma scramble_verifies:
  assumes "\<And>m. length (sha1_digest K m) = 20"
  shows "sha1_digest K (xor_bytes (compute_auth_challenge_response K challenge pw)
      (sha1_digest K (challenge @ sha1_digest K (sha1_digest K (as_bytes pw))))) =
    sha1_digest K (sha1_digest K (as_bytes pw))"
  using assms by (simp add: compute_auth_challenge_response_def Let_def xor_bytes_cancel)

section \<open>Auditing of commands\<close>

definition forwarded_commands :: "byte set" where
  "forwarded_commands = {0x02, 0x03, 0x04, 0x0e, 0x1f}"

definition is_query :: "bytes \<Rightarrow> bool" where
  "is_query p \<longleftrightarrow> (case p of [] \<Rightarrow> False | b # _ \<Rightarrow> b = 0x03)"

lemma is_query_encode [simp]: "is_query (query_encode q)"
  by (simp add: is_query_def query_encode_def)

lemma log_simps [simp]:
  "to_target (log_end c t q) = t" "sql_log (log_end c t q) = q" "to_client (log_end c t q) = c"
  "to_target (log_cons c t q l) = t @ to_target l" "sql_log (log_cons c t q l) = q @ sql_log l"
  "to_client (log_cons c t q l) = c @ to_client l"
  by (simp_all add: log_end_def log_cons_def)

definition audited :: "bytes list \<Rightarrow> command_log \<Rightarrow> bool" where
  "audited packets l \<longleftrightarrow>
     filter is_query (to_target l) = map query_encode (sql_log l) \<and>
     set (to_target l) \<subseteq> set packets \<and>
     list_all (\<lambda>p. p \<noteq> [] \<and> hd p \<in> forwarded_commands) (to_target l)"

lemma audited_none: "audited packets (log_end c [] [])"
  by (simp add: audited_def)

lemma audited_query:
  assumes "query_decode (3 # body) = Inr q"
  shows "audited ((3 # body) # packets) (log_end c [query_encode q] [q])"
    and "audited packets l \<Longrightarrow> audited ((3 # body) # packets) (log_cons c [query_encode q] [q] l)"
  using query_decode_encode [OF assms] is_query_encode [of q]
  by (auto simp: audited_def forwarded_commands_def)

lemma audited_single:
  assumes "com = 2 \<or> com = 4 \<or> com = 14 \<or> com = 31"
  shows "audited ((com # body) # packets) (log_end c [com # body] [])"
    and "audited packets l \<Longrightarrow> audited ((com # body) # packets) (log_cons c [com # body] [] l)"
  using assms by (auto simp: audited_def forwarded_commands_def is_query_def)

lemma audited_other: "audited packets l \<Longrightarrow> audited (p # packets) (log_cons c [] [] l)"
  by (auto simp: audited_def)

lemma command_loop_audited: "audited packets (fst (command_loop client target packets answers))"
proof (induction client target packets answers rule: command_loop.induct)
  case (1 client target answers)
  show ?case by (simp add: audited_none)
next
  case (2 client target payload rest answers)
  show ?case
  proof (cases payload)
    case Nil
    then show ?thesis by (simp add: audited_none)
  next
    case (Cons com body)
    consider (query) "com = 3" | (quit) "com = 1" | (bad) "com = 2" "\<not> utf8_valid body"
      | (single) "com = 2 \<or> com = 4 \<or> com = 14 \<or> com = 31" "\<not> (com = 2 \<and> \<not> utf8_valid body)"
      | (other) "com \<noteq> 3" "com \<noteq> 1" "\<not> (com = 2 \<or> com = 4 \<or> com = 14 \<or> com = 31)" by blast
    then show ?thesis
    proof cases
      case query
      with 2(1) Cons show ?thesis
        by (auto simp: audited_none audited_query split: sum.splits prod.splits)
    next
      case single
      with 2(2) Cons show ?thesis
        by (auto simp: audited_single split: sum.splits prod.splits)
    next
      case other
      with 2(3) Cons show ?thesis
        by (auto simp: audited_other split: prod.splits)
    qed (simp_all add: Cons audited_none)
  qed
qed

text \<open>
  C26: The SQL log of a session is complete and exact: the queries the target receives are, in order,
  those of the log, each byte for byte as the client sent it, and no command other than
  the five that are forwarded reaches the target, so a statement cannot be prepared past
  the log.
\<close>

theorem sql_log_is_complete:
  assumes "command_loop client target packets answers = (l, r)"
  shows "filter is_query (to_target l) = map query_encode (sql_log l) \<and>
    set (to_target l) \<subseteq> set packets \<and>
    list_all (\<lambda>p. p \<noteq> [] \<and> hd p \<in> forwarded_commands) (to_target l)"
  using command_loop_audited [of packets client target answers] assms by (simp add: audited_def)

theorem sql_log_is_complete_witness:
  "\<exists>l r. command_loop 0 0 [3 # as_bytes ''select 1'', [22, 1]] [[0, 0, 0, 2, 0, 0, 0]] = (l, r) \<and>
     sql_log l = [''select 1''] \<and> to_target l = [query_encode ''select 1'']"
proof -
  have q: "query_decode (3 # as_bytes ''select 1'') = Inr ''select 1''"
    using query_roundtrip [of "''select 1''"] by (simp add: query_encode_def is_str_def as_bytes_def)
  have f: "\<not> has_flags (0 :: capabilities) SESSION_TRACK"
    by (simp add: has_flags_def SESSION_TRACK_def push_bit_eq_mult)
  have run: "\<exists>l r. command_loop 0 0 [3 # as_bytes ''select 1'', [22, 1]] [[0, 0, 0, 2, 0, 0, 0]] = (l, r) \<and>
      sql_log l = [''select 1'']"
    by (simp add: q relay_next_def relay_result_set_def rewrite_ok_def Let_def f)
  then obtain l r where l: "command_loop 0 0 [3 # as_bytes ''select 1'', [22, 1]] [[0, 0, 0, 2, 0, 0, 0]] = (l, r)"
    and log: "sql_log l = [''select 1'']"
    by blast
  have "to_target l = filter is_query (to_target l)"
    using l by (auto simp: q relay_next_def relay_result_set_def rewrite_ok_def Let_def f)
  with sql_log_is_complete [OF l] log have "to_target l = [query_encode ''select 1'']" by simp
  with l log show ?thesis by blast
qed

end
