(* ===== verification/Encryption.thy ===== *)
theory Encryption
  imports Texts
begin

text \<open>
  Encryption of stored credentials (\<open>warpgate-common/src/encryption.rs\<close>,
  \<open>warpgate-common/src/types/stored_secret.rs\<close>): the envelope of an encrypted value, the keys of
  the environment, reading, writing and bringing a stored value up to the current key. The
  cipher, the digest and base64 come from outside and are the fields of a record; the
  nonces drawn are arguments. The lemmas show that nothing readable is ever made
  unreadable: what is written is read back, and a value brought up to date needs the
  current key only.
\<close>

section \<open>Functions from outside the repository\<close>

text \<open>
  \<^item> \<open>digest_hex\<close>: SHA-256 in lower-case hexadecimal digits;
  \<^item> \<open>b64_encode\<close>, \<open>b64_decode\<close>: standard base64 with padding;
  \<^item> \<open>seal\<close>, \<open>unseal\<close>: AES-256-GCM under a key and a nonce, failing on oversized input and on
    a wrong tag.
\<close>

record ciphers =
  digest_hex :: "bytes \<Rightarrow> string"
  b64_encode :: "bytes \<Rightarrow> string"
  b64_decode :: "string \<Rightarrow> bytes option"
  seal :: "bytes \<Rightarrow> bytes \<Rightarrow> bytes \<Rightarrow> bytes option"
  unseal :: "bytes \<Rightarrow> bytes \<Rightarrow> bytes \<Rightarrow> bytes option"

section \<open>Keys and envelopes\<close>

definition KEY_PREFIX :: string where "KEY_PREFIX = ''wgenc:v1:''"
definition KEY_LEN :: nat where "KEY_LEN = 32"
definition NONCE_LEN :: nat where "NONCE_LEN = 12"
definition TAG_LEN :: nat where "TAG_LEN = 16"
definition FINGERPRINT_LEN :: nat where "FINGERPRINT_LEN = 8"

datatype encryption_error =
    KeyMismatch string "string list"
  | NoKey string
  | Corrupt
  | EncryptionFailed

record master_key =
  mk_key :: bytes
  mk_fingerprint :: string

definition master_key_new :: "ciphers \<Rightarrow> bytes \<Rightarrow> master_key" where
  "master_key_new C key = \<lparr> mk_key = key, mk_fingerprint = take FINGERPRINT_LEN (digest_hex C key) \<rparr>"

definition is_ascii_hexdigit :: "char \<Rightarrow> bool" where
  "is_ascii_hexdigit c \<longleftrightarrow> c \<in> set ''0123456789abcdefABCDEF''"

definition envelope_parts :: "ciphers \<Rightarrow> string \<Rightarrow> (string \<times> bytes) option" where
  "envelope_parts C value =
     Option.bind (strip_prefix KEY_PREFIX value) (\<lambda>rest.
     Option.bind (split_once CHR '':'' rest) (\<lambda>(fingerprint, payload).
       if length fingerprint \<noteq> FINGERPRINT_LEN \<or> \<not> list_all is_ascii_hexdigit fingerprint then None
       else Option.bind (b64_decode C payload) (\<lambda>payload.
         if length payload < NONCE_LEN + TAG_LEN then None else Some (fingerprint, payload))))"

definition is_envelope :: "ciphers \<Rightarrow> string \<Rightarrow> bool" where
  "is_envelope C value \<longleftrightarrow> envelope_parts C value \<noteq> None"

definition key_encrypt :: "ciphers \<Rightarrow> bytes \<Rightarrow> master_key \<Rightarrow> string \<Rightarrow> encryption_error + string" where
  "key_encrypt C nonce k plaintext =
     (case seal C (mk_key k) nonce (as_bytes plaintext) of
        None \<Rightarrow> Inl EncryptionFailed
      | Some ciphertext \<Rightarrow>
          Inr (KEY_PREFIX @ mk_fingerprint k @ '':'' @ b64_encode C (nonce @ ciphertext)))"

definition key_decrypt :: "ciphers \<Rightarrow> master_key \<Rightarrow> string \<Rightarrow> encryption_error + string" where
  "key_decrypt C k value =
     (case envelope_parts C value of
        None \<Rightarrow> Inr value
      | Some (fingerprint, payload) \<Rightarrow>
          if fingerprint \<noteq> mk_fingerprint k then Inl (KeyMismatch fingerprint [mk_fingerprint k])
          else if length payload < NONCE_LEN then Inl Corrupt
          else case unseal C (mk_key k) (take NONCE_LEN payload) (drop NONCE_LEN payload) of
            None \<Rightarrow> Inl Corrupt
          | Some plaintext \<Rightarrow> if utf8_valid plaintext then Inr (of_bytes plaintext) else Inl Corrupt)"

section \<open>The keyring\<close>

record keyring =
  kr_primary :: "master_key option"
  kr_retired :: "master_key list"

definition keyring_keys :: "keyring \<Rightarrow> master_key list" where
  "keyring_keys ring = (case kr_primary ring of None \<Rightarrow> [] | Some k \<Rightarrow> [k]) @ kr_retired ring"

definition keyring_fingerprints :: "keyring \<Rightarrow> string list" where
  "keyring_fingerprints ring = map mk_fingerprint (keyring_keys ring)"

definition keyring_contains :: "keyring \<Rightarrow> string \<Rightarrow> bool" where
  "keyring_contains ring fingerprint \<longleftrightarrow> list_ex (\<lambda>k. mk_fingerprint k = fingerprint) (keyring_keys ring)"

definition keyring_is_empty :: "keyring \<Rightarrow> bool" where
  "keyring_is_empty ring \<longleftrightarrow> kr_primary ring = None \<and> kr_retired ring = []"

text \<open>The loop of \<open>Keyring::decrypt\<close> over the keys with the fingerprint: a corrupt value tries the next.\<close>

fun decrypt_with :: "ciphers \<Rightarrow> string \<Rightarrow> master_key list \<Rightarrow> (encryption_error + string) option" where
  "decrypt_with C value [] = None"
| "decrypt_with C value (k # ks) =
     (case key_decrypt C k value of Inl Corrupt \<Rightarrow> decrypt_with C value ks | r \<Rightarrow> Some r)"

definition keyring_decrypt :: "ciphers \<Rightarrow> keyring \<Rightarrow> string \<Rightarrow> encryption_error + string" where
  "keyring_decrypt C ring value =
     (case envelope_parts C value of
        None \<Rightarrow> Inr value
      | Some (fingerprint, _) \<Rightarrow>
          let matching = filter (\<lambda>k. mk_fingerprint k = fingerprint) (keyring_keys ring)
          in case decrypt_with C value matching of
               Some r \<Rightarrow> r
             | None \<Rightarrow>
                 Inl (if matching \<noteq> [] then Corrupt
                      else if keyring_is_empty ring then NoKey fingerprint
                      else KeyMismatch fingerprint (keyring_fingerprints ring)))"

definition keyring_reencrypt ::
  "ciphers \<Rightarrow> bytes \<Rightarrow> keyring \<Rightarrow> string \<Rightarrow> encryption_error + string" where
  "keyring_reencrypt C nonce ring value =
     (case kr_primary ring of
        None \<Rightarrow> Inr value
      | Some primary \<Rightarrow>
          (case envelope_parts C value of
             None \<Rightarrow> key_encrypt C nonce primary value
           | Some (fingerprint, _) \<Rightarrow>
               if fingerprint = mk_fingerprint primary then Inr value
               else case keyring_decrypt C ring value of
                 Inl e \<Rightarrow> Inl e
               | Inr plaintext \<Rightarrow> key_encrypt C nonce primary plaintext))"

section \<open>Keys from the environment\<close>

datatype key_error = NotBase64 string | WrongLength string nat

definition parse_key :: "ciphers \<Rightarrow> string \<Rightarrow> string \<Rightarrow> key_error + master_key" where
  "parse_key C raw var =
     (case b64_decode C raw of
        None \<Rightarrow> Inl (NotBase64 var)
      | Some decoded \<Rightarrow>
          if length decoded \<noteq> KEY_LEN then Inl (WrongLength var (length decoded))
          else Inr (master_key_new C decoded))"

fun parse_retired ::
  "ciphers \<Rightarrow> master_key option \<Rightarrow> master_key list \<Rightarrow> string list \<Rightarrow> key_error + master_key list" where
  "parse_retired C primary retired [] = Inr retired"
| "parse_retired C primary retired (raw # raws) =
     (if trim raw = [] then parse_retired C primary retired raws
      else case parse_key C (trim raw) ''WARPGATE_ENCRYPTION_KEY_OLD'' of
        Inl e \<Rightarrow> Inl e
      | Inr key \<Rightarrow>
          parse_retired C primary
            (if keyring_contains \<lparr> kr_primary = primary, kr_retired = retired \<rparr> (mk_fingerprint key)
             then retired else retired @ [key]) raws)"

definition parse_primary :: "ciphers \<Rightarrow> string option \<Rightarrow> key_error + master_key option" where
  "parse_primary C primary =
     (case map_option trim primary of
        None \<Rightarrow> Inr None
      | Some raw \<Rightarrow>
          if raw = [] then Inr None
          else case parse_key C raw ''WARPGATE_ENCRYPTION_KEY'' of
            Inl e \<Rightarrow> Inl e
          | Inr key \<Rightarrow> Inr (Some key))"

definition parse_env_keyring ::
  "ciphers \<Rightarrow> string option \<Rightarrow> string option \<Rightarrow> key_error + keyring" where
  "parse_env_keyring C primary old =
     (case parse_primary C primary of
        Inl e \<Rightarrow> Inl e
      | Inr primary \<Rightarrow>
          (case parse_retired C primary [] (split_on CHR '','' (case old of None \<Rightarrow> [] | Some s \<Rightarrow> s)) of
             Inl e \<Rightarrow> Inl e
           | Inr retired \<Rightarrow> Inr \<lparr> kr_primary = primary, kr_retired = retired \<rparr>))"

section \<open>Stored secrets\<close>

text \<open>A \<open>StoredSecret\<close> is the text stored for it.\<close>

definition maybe_encrypt :: "ciphers \<Rightarrow> bytes \<Rightarrow> keyring \<Rightarrow> string \<Rightarrow> encryption_error + string" where
  "maybe_encrypt C nonce ring value =
     (case kr_primary ring of
        Some key \<Rightarrow> if \<not> is_envelope C value then key_encrypt C nonce key value else Inr value
      | None \<Rightarrow> Inr value)"

definition reveal :: "ciphers \<Rightarrow> keyring \<Rightarrow> string \<Rightarrow> encryption_error + string" where
  "reveal C ring value = keyring_decrypt C ring value"

definition maybe_reencrypt ::
  "ciphers \<Rightarrow> bytes \<Rightarrow> keyring \<Rightarrow> string \<Rightarrow> encryption_error + string \<times> bool" where
  "maybe_reencrypt C nonce ring value =
     (case keyring_reencrypt C nonce ring value of
        Inl e \<Rightarrow> Inl e
      | Inr updated \<Rightarrow> Inr (updated, updated \<noteq> value))"

section \<open>What the outside functions promise\<close>

definition ciphers_ok :: "ciphers \<Rightarrow> bool" where
  "ciphers_ok C \<longleftrightarrow>
     (\<forall>bs. b64_decode C (b64_encode C bs) = Some bs)
   \<and> (\<forall>bs. length (digest_hex C bs) = 64 \<and> list_all (\<lambda>c. c \<in> set ''0123456789abcdef'') (digest_hex C bs))
   \<and> (\<forall>k n p c. length k = KEY_LEN \<and> length n = NONCE_LEN \<and> seal C k n p = Some c \<longrightarrow>
        length c = length p + TAG_LEN \<and> unseal C k n c = Some p)"

text \<open>A key as the program builds it, and a ring of such keys with distinct fingerprints.\<close>

definition key_ok :: "ciphers \<Rightarrow> master_key \<Rightarrow> bool" where
  "key_ok C k \<longleftrightarrow> length (mk_key k) = KEY_LEN \<and> k = master_key_new C (mk_key k)"

definition ring_ok :: "ciphers \<Rightarrow> keyring \<Rightarrow> bool" where
  "ring_ok C ring \<longleftrightarrow> list_all (key_ok C) (keyring_keys ring) \<and> distinct (keyring_fingerprints ring)"

lemma keyring_keys_simps [simp]:
  "keyring_keys \<lparr> kr_primary = None, kr_retired = ks \<rparr> = ks"
  "keyring_keys \<lparr> kr_primary = Some k, kr_retired = ks \<rparr> = k # ks"
  by (simp_all add: keyring_keys_def)

lemma keyring_keys_snoc:
  "keyring_keys \<lparr> kr_primary = p, kr_retired = ks @ [k] \<rparr> = keyring_keys \<lparr> kr_primary = p, kr_retired = ks \<rparr> @ [k]"
  by (simp add: keyring_keys_def)

lemma parse_key_ok: "parse_key C raw var = Inr k \<Longrightarrow> key_ok C k"
  by (auto simp: parse_key_def key_ok_def master_key_new_def split: option.splits if_splits)

lemma parse_retired_ok:
  "parse_retired C primary retired raws = Inr ks \<Longrightarrow> ring_ok C \<lparr> kr_primary = primary, kr_retired = retired \<rparr>
   \<Longrightarrow> ring_ok C \<lparr> kr_primary = primary, kr_retired = ks \<rparr>"
proof (induction raws arbitrary: retired)
  case (Cons raw raws)
  show ?case
  proof (cases "trim raw = []")
    case True
    with Cons show ?thesis by simp
  next
    case False
    with Cons.prems obtain key where key: "parse_key C (trim raw) ''WARPGATE_ENCRYPTION_KEY_OLD'' = Inr key"
      by (auto split: sum.splits)
    let ?ring = "\<lparr> kr_primary = primary, kr_retired = retired \<rparr>"
    let ?retired = "if keyring_contains ?ring (mk_fingerprint key) then retired else retired @ [key]"
    have "ring_ok C \<lparr> kr_primary = primary, kr_retired = ?retired \<rparr>"
      using Cons.prems(2) parse_key_ok [OF key]
      by (auto simp: ring_ok_def keyring_contains_def keyring_fingerprints_def keyring_keys_snoc list_ex_iff)
    with Cons.IH [of ?retired] Cons.prems(1) False key show ?thesis by simp
  qed
qed simp

lemma parse_env_keyring_ok:
  assumes "parse_env_keyring C primary old = Inr ring"
  shows "ring_ok C ring"
proof -
  obtain p ks where p: "parse_primary C primary = Inr p"
    and ks: "parse_retired C p [] (split_on CHR '','' (case old of None \<Rightarrow> [] | Some s \<Rightarrow> s)) = Inr ks"
    and ring: "ring = \<lparr> kr_primary = p, kr_retired = ks \<rparr>"
    using assms by (auto simp: parse_env_keyring_def split: sum.splits)
  have "list_all (key_ok C) (case p of None \<Rightarrow> [] | Some k \<Rightarrow> [k])"
    using p parse_key_ok by (auto simp: parse_primary_def split: option.splits if_splits sum.splits)
  then have "ring_ok C \<lparr> kr_primary = p, kr_retired = [] \<rparr>"
    by (auto simp: ring_ok_def keyring_fingerprints_def keyring_keys_def split: option.splits)
  from parse_retired_ok [OF ks this] ring show ?thesis by simp
qed

section \<open>Writing and reading\<close>

lemma lower_hexdigit:
  assumes "c \<in> set ''0123456789abcdef''"
  shows "is_ascii_hexdigit c"
proof -
  have "''0123456789abcdefABCDEF'' = ''0123456789abcdef'' @ ''ABCDEF''" by simp
  with assms show ?thesis unfolding is_ascii_hexdigit_def by (simp only: set_append Un_iff simp_thms)
qed

lemma fingerprint_ok:
  assumes "ciphers_ok C" and "key_ok C k"
  shows "length (mk_fingerprint k) = FINGERPRINT_LEN \<and> list_all is_ascii_hexdigit (mk_fingerprint k)"
proof -
  have k: "mk_fingerprint k = take FINGERPRINT_LEN (digest_hex C (mk_key k))"
  proof -
    have "k = master_key_new C (mk_key k)" using assms(2) unfolding key_ok_def by (rule conjunct2)
    then have "mk_fingerprint k = mk_fingerprint (master_key_new C (mk_key k))" by (rule arg_cong)
    then show ?thesis unfolding master_key_new_def master_key.select_convs .
  qed
  have len: "length (digest_hex C (mk_key k)) = 64"
    and hex: "list_all (\<lambda>c. c \<in> set ''0123456789abcdef'') (digest_hex C (mk_key k))"
    using assms(1) unfolding ciphers_ok_def by blast+
  have "is_ascii_hexdigit c" if "c \<in> set (take FINGERPRINT_LEN (digest_hex C (mk_key k)))" for c
  proof -
    have "c \<in> set ''0123456789abcdef''"
      using hex in_set_takeD [OF that] unfolding list_all_iff by (rule bspec)
    then show ?thesis by (rule lower_hexdigit)
  qed
  then show ?thesis using len unfolding k list_all_iff FINGERPRINT_LEN_def by simp
qed

lemma fingerprint_no_colon:
  assumes "list_all is_ascii_hexdigit f"
  shows "CHR '':'' \<notin> set f"
proof -
  have "\<not> is_ascii_hexdigit CHR '':''" by (simp add: is_ascii_hexdigit_def)
  with assms show ?thesis unfolding list_all_iff by blast
qed

lemma key_encrypt_envelope:
  assumes "ciphers_ok C" and "key_ok C k" and "length nonce = NONCE_LEN"
    and "key_encrypt C nonce k plaintext = Inr value"
  shows "\<exists>c. envelope_parts C value = Some (mk_fingerprint k, nonce @ c) \<and>
    unseal C (mk_key k) nonce c = Some (as_bytes plaintext)"
proof -
  obtain c where seal: "seal C (mk_key k) nonce (as_bytes plaintext) = Some c"
    and eq: "value = KEY_PREFIX @ mk_fingerprint k @ CHR '':'' # b64_encode C (nonce @ c)"
    using assms(4) by (auto simp: key_encrypt_def split: option.splits)
  have "length c = length (as_bytes plaintext) + TAG_LEN" "unseal C (mk_key k) nonce c = Some (as_bytes plaintext)"
    using assms(1-3) seal unfolding ciphers_ok_def key_ok_def by blast+
  moreover note fingerprint_ok [OF assms(1,2)] fingerprint_no_colon [of "mk_fingerprint k"]
  moreover have "b64_decode C (b64_encode C (nonce @ c)) = Some (nonce @ c)"
    using assms(1) by (simp add: ciphers_ok_def)
  ultimately show ?thesis
    using assms(3) by (auto simp: envelope_parts_def eq)
qed

lemma key_roundtrip:
  assumes "ciphers_ok C" and "key_ok C k" and "length nonce = NONCE_LEN"
    and "key_encrypt C nonce k plaintext = Inr value" and "is_str plaintext"
  shows "key_decrypt C k value = Inr plaintext"
  using key_encrypt_envelope [OF assms(1-4)] assms(3,5) by (auto simp: key_decrypt_def is_str_def)

text \<open>What the current key wrote, any ring with that current key reads.\<close>

lemma keyring_roundtrip:
  assumes "ciphers_ok C" and "key_ok C k" and "length nonce = NONCE_LEN"
    and "key_encrypt C nonce k plaintext = Inr value" and "is_str plaintext" and "kr_primary ring = Some k"
  shows "keyring_decrypt C ring value = Inr plaintext"
proof -
  obtain c where "envelope_parts C value = Some (mk_fingerprint k, nonce @ c)"
    using key_encrypt_envelope [OF assms(1-4)] by blast
  with key_roundtrip [OF assms(1-5)] assms(6) show ?thesis
    by (simp add: keyring_decrypt_def keyring_keys_def)
qed

lemma key_decrypt_str: "key_decrypt C k v = Inr s \<Longrightarrow> is_str v \<Longrightarrow> is_str s"
  by (auto simp: key_decrypt_def is_str_def split: option.splits if_splits)

lemma decrypt_with_str: "decrypt_with C v ks = Some (Inr s) \<Longrightarrow> is_str v \<Longrightarrow> is_str s"
  by (induction ks) (auto split: sum.splits encryption_error.splits dest: key_decrypt_str)

lemma keyring_decrypt_str: "keyring_decrypt C ring v = Inr s \<Longrightarrow> is_str v \<Longrightarrow> is_str s"
  by (auto simp: keyring_decrypt_def Let_def split: option.splits dest: decrypt_with_str)

lemma filter_distinct_key:
  assumes "distinct (map f xs)" and "x \<in> set xs"
  shows "filter (\<lambda>y. f y = f x) xs = [x]"
  using assms
proof (induction xs)
  case (Cons y ys)
  show ?case
  proof (cases "x = y")
    case True
    with Cons.prems(1) have "\<forall>z\<in>set ys. f z \<noteq> f x" by (metis distinct.simps(2) image_eqI list.map(2) list.set_map)
    with True show ?thesis by (simp add: filter_empty_conv)
  next
    case False
    with Cons.prems have "f y \<noteq> f x" "x \<in> set ys" by (auto simp: image_iff)
    with Cons show ?thesis by simp
  qed
qed simp

text \<open>With distinct fingerprints, a value under the fingerprint of a key of the ring is for that key alone.\<close>

lemma keyring_decrypt_only:
  assumes "ring_ok C ring" and "k \<in> set (keyring_keys ring)" and "envelope_parts C v = Some (mk_fingerprint k, p)"
  shows "keyring_decrypt C ring v = key_decrypt C k v"
proof -
  have "filter (\<lambda>j. mk_fingerprint j = mk_fingerprint k) (keyring_keys ring) = [k]"
    using assms(1,2) by (intro filter_distinct_key) (simp_all add: ring_ok_def keyring_fingerprints_def)
  then show ?thesis
    using assms(3)
    by (auto simp: keyring_decrypt_def key_decrypt_def split: sum.splits encryption_error.splits option.splits)
qed

text \<open>When a key can open a payload.\<close>

definition key_opens :: "ciphers \<Rightarrow> bytes \<Rightarrow> master_key \<Rightarrow> string option" where
  "key_opens C payload k =
     (case unseal C (mk_key k) (take NONCE_LEN payload) (drop NONCE_LEN payload) of
        None \<Rightarrow> None | Some p \<Rightarrow> if utf8_valid p then Some (of_bytes p) else None)"

lemma key_decrypt_matching:
  assumes "envelope_parts C v = Some (mk_fingerprint k, payload)"
  shows "key_decrypt C k v = (case key_opens C payload k of None \<Rightarrow> Inl Corrupt | Some s \<Rightarrow> Inr s)"
proof -
  have "NONCE_LEN \<le> length payload"
    using assms by (auto simp: envelope_parts_def bind_eq_Some_conv split: if_splits prod.splits)
  with assms show ?thesis by (auto simp: key_decrypt_def key_opens_def split: option.splits)
qed

lemma decrypt_with_matching:
  assumes "envelope_parts C v = Some (fp, payload)" and "\<forall>k\<in>set ks. mk_fingerprint k = fp"
  shows "decrypt_with C v ks = map_option Inr (case List.map_filter (key_opens C payload) ks of [] \<Rightarrow> None | s # _ \<Rightarrow> Some s)"
  using assms(2)
proof (induction ks)
  case (Cons k ks)
  with key_decrypt_matching [of C v k payload] assms(1) show ?case
    by (auto simp: map_filter_simps split: option.splits)
qed (simp add: map_filter_simps)

section \<open>Properties\<close>

text \<open>
  C31: reading an encrypted value gives exactly this: without any key an error that names the
  key, with other keys only the mismatch with all fingerprints held, and with keys of its
  fingerprint the text the first of them that authenticates it decrypts to, or that the
  value is corrupt when none does. A value that is not an envelope is the text itself.
\<close>

theorem decryption_outcome:
  "keyring_decrypt C ring v =
     (case envelope_parts C v of
        None \<Rightarrow> Inr v
      | Some (fp, payload) \<Rightarrow>
          if keyring_is_empty ring then Inl (NoKey fp)
          else if \<not> keyring_contains ring fp then Inl (KeyMismatch fp (keyring_fingerprints ring))
          else case List.map_filter (key_opens C payload) (filter (\<lambda>k. mk_fingerprint k = fp) (keyring_keys ring)) of
            [] \<Rightarrow> Inl Corrupt
          | s # _ \<Rightarrow> Inr s)"
proof (cases "envelope_parts C v")
  case None
  then show ?thesis by (simp add: keyring_decrypt_def)
next
  case (Some e)
  obtain fp payload where e: "e = (fp, payload)" by (cases e)
  let ?ks = "filter (\<lambda>k. mk_fingerprint k = fp) (keyring_keys ring)"
  have opens: "decrypt_with C v ?ks = map_option Inr (case List.map_filter (key_opens C payload) ?ks of [] \<Rightarrow> None | s # _ \<Rightarrow> Some s)"
    using Some e by (intro decrypt_with_matching) auto
  have "keyring_is_empty ring \<longleftrightarrow> keyring_keys ring = []"
    by (auto simp: keyring_is_empty_def keyring_keys_def split: option.split)
  moreover have "keyring_contains ring fp \<longleftrightarrow> ?ks \<noteq> []"
    by (auto simp: keyring_contains_def list_ex_iff filter_empty_conv)
  ultimately show ?thesis
    using opens Some e
    by (auto simp: keyring_decrypt_def Let_def map_filter_simps split: list.splits)
qed


text \<open>Bringing a value up to date, with any ring of distinct keys.\<close>

lemma maybe_reencrypt_keeps:
  assumes "ciphers_ok C" and "ring_ok C ring" and "kr_primary ring = Some k"
    and "length nonce = NONCE_LEN" and "is_str v" and "reveal C ring v = Inr s"
    and "maybe_reencrypt C nonce ring v = Inr (v', changed)"
  shows "reveal C ring v' = Inr s \<and> reveal C \<lparr> kr_primary = Some k, kr_retired = [] \<rparr> v' = Inr s
    \<and> (\<exists>payload. envelope_parts C v' = Some (mk_fingerprint k, payload))
    \<and> maybe_reencrypt C nonce' ring v' = Inr (v', False) \<and> (changed \<longleftrightarrow> v' \<noteq> v)"
proof -
  note ok = assms(2)
  have k: "key_ok C k" "k \<in> set (keyring_keys ring)"
    using ok assms(3) by (simp_all add: ring_ok_def keyring_keys_def)
  have alone: "ring_ok C \<lparr> kr_primary = Some k, kr_retired = [] \<rparr>"
    using k(1) by (simp add: ring_ok_def keyring_fingerprints_def)
  have v': "keyring_reencrypt C nonce ring v = Inr v'" and changed: "changed \<longleftrightarrow> v' \<noteq> v"
    using assms(7) by (auto simp: maybe_reencrypt_def split: sum.splits)
  have main: "reveal C ring v' = Inr s \<and> reveal C \<lparr> kr_primary = Some k, kr_retired = [] \<rparr> v' = Inr s
      \<and> (\<exists>payload. envelope_parts C v' = Some (mk_fingerprint k, payload))"
  proof (cases "\<exists>p. envelope_parts C v = Some (mk_fingerprint k, p)")
    case True
    then obtain p where p: "envelope_parts C v = Some (mk_fingerprint k, p)" ..
    with v' assms(3) have "v' = v" by (simp add: keyring_reencrypt_def)
    with p assms(6) keyring_decrypt_only [OF ok k(2) p] keyring_decrypt_only [OF alone _ p] show ?thesis
      by (simp add: reveal_def)
  next
    case False
    with v' assms(3,6) have enc: "key_encrypt C nonce k s = Inr v'"
      by (auto simp: keyring_reencrypt_def reveal_def keyring_decrypt_def split: option.splits if_splits)
    have s: "is_str s" using keyring_decrypt_str assms(5,6) by (simp add: reveal_def)
    show ?thesis
      using keyring_roundtrip [OF assms(1) k(1) assms(4) enc s] key_encrypt_envelope [OF assms(1) k(1) assms(4) enc]
        assms(3) by (auto simp: reveal_def)
  qed
  then have "maybe_reencrypt C nonce' ring v' = Inr (v', False)"
    using assms(3) by (auto simp: maybe_reencrypt_def keyring_reencrypt_def)
  with main changed show ?thesis by blast
qed

text \<open>Storing a value changes nothing of what it reveals.\<close>

lemma maybe_encrypt_keeps:
  assumes "ciphers_ok C" and "ring_ok C ring" and "length nonce = NONCE_LEN"
    and "is_str v" and "maybe_encrypt C nonce ring v = Inr v'"
  shows "reveal C ring v' = reveal C ring v \<and> (is_envelope C v' \<longleftrightarrow> is_envelope C v \<or> kr_primary ring \<noteq> None)"
proof (cases "is_envelope C v \<or> kr_primary ring = None")
  case True
  with assms(5) have "v' = v" by (auto simp: maybe_encrypt_def split: option.splits)
  with True show ?thesis by auto
next
  case False
  then have plain: "envelope_parts C v = None" unfolding is_envelope_def by blast
  obtain k where k: "kr_primary ring = Some k" using False by blast
  have enc: "key_encrypt C nonce k v = Inr v'" using assms(5) False k by (simp add: maybe_encrypt_def)
  have ok: "key_ok C k" using assms(2) k by (simp add: ring_ok_def keyring_keys_def)
  have "is_envelope C v'" using key_encrypt_envelope [OF assms(1) ok assms(3) enc] by (auto simp: is_envelope_def)
  moreover have "reveal C ring v = Inr v" using plain by (simp add: reveal_def keyring_decrypt_def)
  ultimately show ?thesis using keyring_roundtrip [OF assms(1) ok assms(3) enc assms(4) k] k by (simp add: reveal_def)
qed

text \<open>
  A secret that is stored is read back: with keys from the environment, what is written
  for a text that is not itself an envelope reveals that text. It is an envelope exactly
  when a current key is configured, and storing it again leaves it as it is.
\<close>

theorem stored_secret_roundtrip:
  assumes "ciphers_ok C" and "parse_env_keyring C primary old = Inr ring" and "length nonce = NONCE_LEN"
    and "is_str s" and "\<not> is_envelope C s" and "maybe_encrypt C nonce ring s = Inr v"
  shows "reveal C ring v = Inr s \<and> (is_envelope C v \<longleftrightarrow> kr_primary ring \<noteq> None)
    \<and> maybe_encrypt C nonce' ring v = Inr v"
  using maybe_encrypt_keeps [OF assms(1) parse_env_keyring_ok [OF assms(2)] assms(3,4,6)] assms(5)
  by (auto simp: reveal_def keyring_decrypt_def is_envelope_def maybe_encrypt_def split: option.splits)

text \<open>
  Rotating keys loses nothing. A stored value that can be read under the keys of the
  environment is, once brought up to date, an envelope of the current key that reveals the
  same text, with all the keys and with the current key alone, so the retired keys can be
  dropped. Bringing it up to date again changes nothing.
\<close>

theorem rotation_keeps_secrets:
  assumes "ciphers_ok C" and "parse_env_keyring C primary old = Inr ring" and "kr_primary ring = Some k"
    and "length nonce = NONCE_LEN" and "is_str v" and "reveal C ring v = Inr s"
    and "maybe_reencrypt C nonce ring v = Inr (v', changed)"
  shows "reveal C ring v' = Inr s \<and> reveal C \<lparr> kr_primary = Some k, kr_retired = [] \<rparr> v' = Inr s
    \<and> (\<exists>payload. envelope_parts C v' = Some (mk_fingerprint k, payload))
    \<and> maybe_reencrypt C nonce' ring v' = Inr (v', False) \<and> (changed \<longleftrightarrow> v' \<noteq> v)"
  by (rule maybe_reencrypt_keeps [OF assms(1) parse_env_keyring_ok [OF assms(2)] assms(3-7)])

text \<open>
  Concrete functions: a digest that repeats a digit read off the first byte, texts as their own
  base64, and a tag that repeats the first byte of the key.
\<close>

definition sample_ciphers :: ciphers where
  "sample_ciphers = \<lparr>
     digest_hex = (\<lambda>bs. replicate 64 (if hd bs = 65 then CHR ''a'' else CHR ''b'')),
     b64_encode = of_bytes, b64_decode = (\<lambda>s. Some (as_bytes s)),
     seal = (\<lambda>k n p. Some (p @ replicate TAG_LEN (hd k))),
     unseal = (\<lambda>k n c. if drop (length c - TAG_LEN) c = replicate TAG_LEN (hd k)
                then Some (take (length c - TAG_LEN) c) else None) \<rparr>"

lemma sample_ciphers_ok: "ciphers_ok sample_ciphers"
  by (simp add: ciphers_ok_def sample_ciphers_def list_all_iff)

definition sample_key :: "char \<Rightarrow> master_key" where
  "sample_key c = master_key_new sample_ciphers (as_bytes (replicate 32 c))"

definition sample_ring :: keyring where
  "sample_ring = \<lparr> kr_primary = Some (sample_key CHR ''A''), kr_retired = [sample_key CHR ''B''] \<rparr>"

definition sample_env_key :: "char \<Rightarrow> string" where
  "sample_env_key c = replicate 32 c"

lemma sample_env_key_trim: "c \<in> {CHR ''A'', CHR ''B''} \<Longrightarrow> trim (sample_env_key c) = sample_env_key c"
  by (intro trim_visible) (auto simp: sample_env_key_def as_bytes_def map_replicate)

lemma sample_ring_parsed:
  "parse_env_keyring sample_ciphers (Some (sample_env_key CHR ''A'')) (Some (sample_env_key CHR ''B'')) = Inr sample_ring"
proof -
  have "split_on CHR '','' (sample_env_key CHR ''B'') = [sample_env_key CHR ''B'']"
    by (rule split_on_free) (simp add: sample_env_key_def)
  moreover have "sample_env_key c \<noteq> []" "b64_decode sample_ciphers (sample_env_key c) = Some (as_bytes (sample_env_key c))"
    "length (as_bytes (sample_env_key c)) = KEY_LEN" for c
    by (simp_all add: sample_env_key_def sample_ciphers_def KEY_LEN_def)
  moreover have "mk_fingerprint (sample_key CHR ''A'') \<noteq> mk_fingerprint (sample_key CHR ''B'')"
    by (simp add: sample_key_def master_key_new_def sample_ciphers_def FINGERPRINT_LEN_def as_bytes_def)
  ultimately show ?thesis
    by (simp add: parse_env_keyring_def parse_primary_def sample_env_key_trim parse_key_def keyring_contains_def
        sample_ring_def) (simp add: sample_key_def sample_env_key_def)
qed


definition sample_nonce :: bytes where
  "sample_nonce = replicate 12 7"

definition sample_old :: string where
  "sample_old = KEY_PREFIX @ ''bbbbbbbb:'' @ of_bytes (sample_nonce @ as_bytes ''pw'' @ replicate 16 66)"

lemma sample_plain: "\<not> is_envelope sample_ciphers ''pw''" "is_str ''pw''"
  by (simp_all add: is_envelope_def envelope_parts_def strip_prefix_def KEY_PREFIX_def is_str_def as_bytes_def)

lemma sample_encrypted: "\<exists>v. maybe_encrypt sample_ciphers sample_nonce sample_ring ''pw'' = Inr v"
  using sample_plain(1) by (simp add: maybe_encrypt_def sample_ring_def key_encrypt_def sample_ciphers_def)

theorem stored_secret_roundtrip_witness:
  "\<exists>v. maybe_encrypt sample_ciphers sample_nonce sample_ring ''pw'' = Inr v
     \<and> reveal sample_ciphers sample_ring v = Inr ''pw'' \<and> is_envelope sample_ciphers v"
proof -
  obtain v where v: "maybe_encrypt sample_ciphers sample_nonce sample_ring ''pw'' = Inr v"
    using sample_encrypted ..
  have "length sample_nonce = NONCE_LEN" by (simp add: sample_nonce_def NONCE_LEN_def)
  from stored_secret_roundtrip [OF sample_ciphers_ok sample_ring_parsed this sample_plain(2,1) v] v
  show ?thesis by (simp add: sample_ring_def)
qed

lemma sample_key_ok: "key_ok sample_ciphers (sample_key c)"
  by (simp add: key_ok_def sample_key_def master_key_new_def KEY_LEN_def)

lemma sample_nonce_length: "length sample_nonce = NONCE_LEN"
  by (simp add: sample_nonce_def NONCE_LEN_def)

lemma sample_fingerprint:
  "mk_fingerprint (sample_key c) = replicate 8 (if c = CHR ''A'' then CHR ''a'' else CHR ''b'')"
proof -
  have "(word_of_nat (of_char c) :: byte) = 65 \<longleftrightarrow> c = CHR ''A''"
    using byte_of_char_inject [of c "CHR ''A''"] by simp
  then show ?thesis
    by (simp add: sample_key_def master_key_new_def sample_ciphers_def as_bytes_def FINGERPRINT_LEN_def)
qed

lemma sample_fingerprints:
  "mk_fingerprint (sample_key CHR ''A'') = ''aaaaaaaa''" "mk_fingerprint (sample_key CHR ''B'') = ''bbbbbbbb''"
  by (simp_all add: sample_fingerprint numeral_eq_Suc)

lemma sample_old_written: "key_encrypt sample_ciphers sample_nonce (sample_key CHR ''B'') ''pw'' = Inr sample_old"
proof -
  have "seal sample_ciphers (mk_key (sample_key CHR ''B'')) n p = Some (p @ replicate 16 66)" for n p
    by (simp add: sample_ciphers_def sample_key_def master_key_new_def as_bytes_def TAG_LEN_def)
  moreover have "b64_encode sample_ciphers = of_bytes" by (simp add: sample_ciphers_def)
  ultimately show ?thesis by (simp add: key_encrypt_def sample_fingerprints sample_old_def)
qed

lemma sample_old_envelope: "\<exists>c. envelope_parts sample_ciphers sample_old = Some (''bbbbbbbb'', sample_nonce @ c)"
  using key_encrypt_envelope [OF sample_ciphers_ok sample_key_ok sample_nonce_length sample_old_written]
  by (auto simp: sample_fingerprints)

lemma sample_old_readable: "reveal sample_ciphers sample_ring sample_old = Inr ''pw''"
proof -
  obtain c where "envelope_parts sample_ciphers sample_old = Some (mk_fingerprint (sample_key CHR ''B''), sample_nonce @ c)"
    using sample_old_envelope by (auto simp: sample_fingerprints)
  from keyring_decrypt_only [OF parse_env_keyring_ok [OF sample_ring_parsed] _ this]
    key_roundtrip [OF sample_ciphers_ok sample_key_ok sample_nonce_length sample_old_written sample_plain(2)]
  show ?thesis by (simp add: reveal_def sample_ring_def)
qed

lemma sample_old_str: "is_str sample_old"
  unfolding is_str_def
  by (rule utf8_valid_ascii) (auto simp: sample_old_def KEY_PREFIX_def as_bytes_def sample_nonce_def of_bytes_def)

lemma sample_rotates: "\<exists>v'. maybe_reencrypt sample_ciphers sample_nonce sample_ring sample_old = Inr (v', True)"
proof -
  let ?k = "sample_key CHR ''A''"
  have primary: "kr_primary sample_ring = Some ?k" by (simp add: sample_ring_def)
  obtain c where old: "envelope_parts sample_ciphers sample_old = Some (''bbbbbbbb'', sample_nonce @ c)"
    using sample_old_envelope ..
  obtain v where v: "key_encrypt sample_ciphers sample_nonce ?k ''pw'' = Inr v"
    by (simp add: key_encrypt_def sample_ciphers_def)
  have "v \<noteq> sample_old"
    using key_encrypt_envelope [OF sample_ciphers_ok sample_key_ok sample_nonce_length v] old
    by (auto simp: sample_fingerprints)
  with v old sample_old_readable show ?thesis
    by (simp add: maybe_reencrypt_def keyring_reencrypt_def primary reveal_def sample_fingerprints)
qed

theorem rotation_keeps_secrets_witness:
  "\<exists>v'. maybe_reencrypt sample_ciphers sample_nonce sample_ring sample_old = Inr (v', True)
     \<and> reveal sample_ciphers \<lparr> kr_primary = Some (sample_key CHR ''A''), kr_retired = [] \<rparr> v' = Inr ''pw''"
proof -
  obtain v' where v': "maybe_reencrypt sample_ciphers sample_nonce sample_ring sample_old = Inr (v', True)"
    using sample_rotates ..
  have "kr_primary sample_ring = Some (sample_key CHR ''A'')" by (simp add: sample_ring_def)
  from rotation_keeps_secrets [OF sample_ciphers_ok sample_ring_parsed this sample_nonce_length sample_old_str
      sample_old_readable v'] v'
  show ?thesis by blast
qed

end
