(* ===== verification/Vault.thy ===== *)
theory Vault
  imports Secret_Refs "HOL-Library.Sublist"
begin

text \<open>
  The client of a Vault secret backend (\<open>warpgate-secrets-vault/src/lib.rs\<close>): resolving a
  reference, signing an SSH key, and logging in again after a denied request. The requests
  sent to the server are recorded in the state. The lemmas show that a request never
  leaves the paths the backend is allowed, that no text of a request can widen it, and that
  denied requests cause at most one login per window.
\<close>

section \<open>The server and what it answers\<close>

datatype client_error = APIError u16 "string list" | OtherError string

datatype json = JString string | JOther string

datatype vault_call =
    KvRead string string
  | SignKey string string string string string
  | AppRoleLogin string string string
  | KubernetesLogin string string string

text \<open>
  Answers depend on the requests so far. \<open>show_client_error\<close>, \<open>show_encryption_error\<close> and
  \<open>debug_str\<close> are the texts of an error and of a quoted string; \<open>jwt_file\<close> is the
  file of the service account token.
\<close>

record vault_server =
  kv_answer :: "vault_call list \<Rightarrow> client_error + (string \<rightharpoonup> json)"
  sign_answer :: "vault_call list \<Rightarrow> client_error + string"
  login_answer :: "vault_call list \<Rightarrow> client_error + string \<times> nat"
  jwt_file :: "string + string"
  show_client_error :: "client_error \<Rightarrow> string"
  show_encryption_error :: "encryption_error \<Rightarrow> string"
  debug_str :: "string \<Rightarrow> string"
  vs_ciphers :: ciphers
  vs_ring :: keyring

section \<open>The backend\<close>

definition REAUTH_MIN_INTERVAL :: int where "REAUTH_MIN_INTERVAL = 30 * 1000000000"
definition MAX_SSH_KEY_ID :: nat where "MAX_SSH_KEY_ID = 256"
definition KUBERNETES_JWT_PATH :: string where
  "KUBERNETES_JWT_PATH = ''/var/run/secrets/kubernetes.io/serviceaccount/token''"

record vault_token_auth =
  vt_token :: string

record vault_app_role_auth =
  va_role_id :: string
  va_secret_id :: string
  va_mount :: "string option"

record vault_kubernetes_auth =
  vk_role :: string
  vk_mount :: "string option"

datatype vault_auth_config =
    TokenAuth vault_token_auth
  | AppRoleAuth vault_app_role_auth
  | KubernetesAuth vault_kubernetes_auth

record vault_backend =
  v_name :: string
  v_token :: string
  v_auth_config :: vault_auth_config
  v_allowed_paths :: "string list"
  v_last_reauth :: "int option"
  v_calls :: "vault_call list"

definition trim_end_matches :: "char \<Rightarrow> string \<Rightarrow> string" where
  "trim_end_matches c s = rev (dropWhile (\<lambda>x. x = c) (rev s))"

definition path_allowed :: "string list \<Rightarrow> string \<Rightarrow> bool" where
  "path_allowed allowed path \<longleftrightarrow>
     allowed = []
   \<or> list_ex (\<lambda>prefix.
        let prefix = trim_end_matches CHR ''/'' prefix
        in path = prefix
         \<or> (case strip_prefix prefix path of None \<Rightarrow> False | Some rest \<Rightarrow> starts_with ''/'' rest)) allowed"

definition assert_path_allowed :: "vault_backend \<Rightarrow> string \<Rightarrow> secret_error + unit" where
  "assert_path_allowed v path =
     (if path_allowed (v_allowed_paths v) path then Inr () else Inl (PathNotAllowed (v_name v) path))"

section \<open>Logging in\<close>

definition is_ascii_graphic :: "char \<Rightarrow> bool" where
  "is_ascii_graphic c \<longleftrightarrow> (let n = of_char c :: nat in 33 \<le> n \<and> n \<le> 126)"

definition use_token :: "vault_backend \<Rightarrow> string \<Rightarrow> vault_backend \<times> (secret_error + unit)" where
  "use_token v token =
     (let token = trim token
      in if \<not> list_all is_ascii_graphic token
         then (v, Inl (BackendFailed ''the Vault token contains characters a header can't carry''))
         else (v\<lparr> v_token := token \<rparr>, Inr ()))"

definition vault_reveal :: "vault_server \<Rightarrow> string \<Rightarrow> secret_error + string" where
  "vault_reveal S stored =
     (case reveal (vs_ciphers S) (vs_ring S) stored of
        Inl e \<Rightarrow> Inl (BackendFailed (''decrypt stored credential: '' @ show_encryption_error S e))
      | Inr s \<Rightarrow> Inr s)"

text \<open>One login request, its answer and the token it gives.\<close>

definition vault_login ::
  "vault_server \<Rightarrow> vault_backend \<Rightarrow> string \<Rightarrow> vault_call \<Rightarrow> vault_backend \<times> (secret_error + nat option)" where
  "vault_login S v what call =
     (let v = v\<lparr> v_calls := v_calls v @ [call] \<rparr>
      in case login_answer S (v_calls v) of
           Inl e \<Rightarrow> (v, Inl (BackendFailed (what @ '' login: '' @ show_client_error S e)))
         | Inr (client_token, lease_duration) \<Rightarrow>
             (case use_token v client_token of
                (v, Inl e) \<Rightarrow> (v, Inl e)
              | (v, Inr _) \<Rightarrow> (v, Inr (Some lease_duration))))"

definition authenticate :: "vault_server \<Rightarrow> vault_backend \<Rightarrow> vault_backend \<times> (secret_error + nat option)" where
  "authenticate S v =
     (case v_auth_config v of
        TokenAuth auth \<Rightarrow>
          (case vault_reveal S (vt_token auth) of
             Inl e \<Rightarrow> (v, Inl e)
           | Inr token \<Rightarrow>
               (case use_token v token of (v, Inl e) \<Rightarrow> (v, Inl e) | (v, Inr _) \<Rightarrow> (v, Inr None)))
      | AppRoleAuth auth \<Rightarrow>
          (case vault_reveal S (va_secret_id auth) of
             Inl e \<Rightarrow> (v, Inl e)
           | Inr secret_id \<Rightarrow>
               vault_login S v ''AppRole''
                 (AppRoleLogin (case va_mount auth of None \<Rightarrow> ''approle'' | Some m \<Rightarrow> m)
                   (trim (va_role_id auth)) (trim secret_id)))
      | KubernetesAuth auth \<Rightarrow>
          (case jwt_file S of
             Inl e \<Rightarrow> (v, Inl (BackendFailed (''read JWT from '' @ KUBERNETES_JWT_PATH @ '': '' @ e)))
           | Inr jwt \<Rightarrow>
               vault_login S v ''Kubernetes''
                 (KubernetesLogin (case vk_mount auth of None \<Rightarrow> ''kubernetes'' | Some m \<Rightarrow> m)
                   (vk_role auth) (trim jwt))))"

text \<open>
  Logging in again after a denial. The clock is read twice: for the time elapsed since
  the last login, and for the time to remember.
\<close>

definition reauthenticate ::
  "vault_server \<Rightarrow> int \<times> int \<Rightarrow> vault_backend \<Rightarrow> vault_backend \<times> (secret_error + bool)" where
  "reauthenticate S clock v =
     (case v_auth_config v of
        TokenAuth _ \<Rightarrow> (v, Inr False)
      | _ \<Rightarrow>
          if (case v_last_reauth v of None \<Rightarrow> False | Some at \<Rightarrow> fst clock - at < REAUTH_MIN_INTERVAL)
          then (v, Inr False)
          else case authenticate S (v\<lparr> v_last_reauth := Some (snd clock) \<rparr>) of
                 (v, Inl e) \<Rightarrow> (v, Inl e)
               | (v, Inr _) \<Rightarrow> (v, Inr True))"

section \<open>Reading a secret\<close>

definition read_error :: "vault_server \<Rightarrow> secret_ref \<Rightarrow> client_error \<Rightarrow> secret_error" where
  "read_error S r error =
     (if (case error of APIError code _ \<Rightarrow> code = 404 | _ \<Rightarrow> False) then NotFound (kv_path r)
      else BackendFailed (''KV v2 read '' @ kv_path r @ '': '' @ show_client_error S error))"

definition read_kv :: "vault_server \<Rightarrow> secret_ref \<Rightarrow> vault_backend \<Rightarrow> vault_backend \<times> (client_error + (string \<rightharpoonup> json))" where
  "read_kv S r v =
     (let v = v\<lparr> v_calls := v_calls v @ [KvRead (sr_mount r) (sr_path r)] \<rparr> in (v, kv_answer S (v_calls v)))"

definition is_denied :: "client_error \<Rightarrow> bool" where
  "is_denied e \<longleftrightarrow> (case e of APIError code _ \<Rightarrow> code = 403 | _ \<Rightarrow> False)"

definition value_to_string :: "json \<Rightarrow> string" where
  "value_to_string j = (case j of JString s \<Rightarrow> s | JOther s \<Rightarrow> s)"

text \<open>A request, sent a second time when it was denied and a new login succeeded.\<close>

definition with_reauth ::
  "vault_server \<Rightarrow> int \<times> int \<Rightarrow> (vault_backend \<Rightarrow> vault_backend \<times> (client_error + 'a)) \<Rightarrow> vault_backend
   \<Rightarrow> vault_backend \<times> (secret_error + (client_error + 'a))" where
  "with_reauth S clock request v =
     (case request v of
        (v, Inl e) \<Rightarrow>
          if is_denied e
          then case reauthenticate S clock v of
                 (v, Inl e') \<Rightarrow> (v, Inl e')
               | (v, Inr again) \<Rightarrow> if again then (case request v of (v, r) \<Rightarrow> (v, Inr r)) else (v, Inr (Inl e))
          else (v, Inr (Inl e))
      | (v, Inr x) \<Rightarrow> (v, Inr (Inr x)))"

definition vault_resolve ::
  "vault_server \<Rightarrow> int \<times> int \<Rightarrow> secret_ref \<Rightarrow> vault_backend \<Rightarrow> vault_backend \<times> (secret_error + string)" where
  "vault_resolve S clock r v =
     (case assert_path_allowed v (kv_path r) of
        Inl e \<Rightarrow> (v, Inl e)
      | Inr _ \<Rightarrow>
          (case with_reauth S clock (read_kv S r) v of
             (v, Inl e) \<Rightarrow> (v, Inl e)
           | (v, Inr (Inl e)) \<Rightarrow> (v, Inl (read_error S r e))
           | (v, Inr (Inr data)) \<Rightarrow>
               (v, case data (sr_field r) of
                     None \<Rightarrow> Inl (NotFound (kv_path r))
                   | Some j \<Rightarrow> Inr (value_to_string j))))"

section \<open>Signing an SSH key\<close>

definition validate_path_segment :: "vault_server \<Rightarrow> string \<Rightarrow> secret_error + unit" where
  "validate_path_segment S name =
     (if name \<noteq> [] \<and> list_all (\<lambda>c. is_ascii_alphanumeric c \<or> c = CHR ''_'' \<or> c = CHR ''-'') name
      then Inr ()
      else Inl (InvalidSshSigningRequest (''mount or role '' @ debug_str S name)))"

fun join_texts :: "string \<Rightarrow> string list \<Rightarrow> string" where
  "join_texts sep [] = []"
| "join_texts sep [t] = t"
| "join_texts sep (t # ts) = t @ sep @ join_texts sep ts"

definition sign_error :: "vault_server \<Rightarrow> client_error \<Rightarrow> secret_error" where
  "sign_error S error =
     (case error of
        APIError code errors \<Rightarrow> SshSigning code (join_texts ''; '' errors)
      | other \<Rightarrow> BackendFailed (''SSH sign: '' @ show_client_error S other))"

definition sign_once ::
  "vault_server \<Rightarrow> string \<Rightarrow> string \<Rightarrow> string \<Rightarrow> string \<Rightarrow> string \<Rightarrow> vault_backend \<Rightarrow> vault_backend \<times> (client_error + string)" where
  "sign_once S mount role public_key principal_name key_id v =
     (let v = v\<lparr> v_calls := v_calls v @ [SignKey mount role public_key principal_name key_id] \<rparr>
      in (v, sign_answer S (v_calls v)))"

definition sign_ssh_key ::
  "vault_server \<Rightarrow> int \<times> int \<Rightarrow> string \<Rightarrow> string \<Rightarrow> string \<Rightarrow> string \<Rightarrow> string \<Rightarrow> vault_backend
   \<Rightarrow> vault_backend \<times> (secret_error + string)" where
  "sign_ssh_key S clock mount role public_key principal_name key_id v =
     (case validate_path_segment S mount of Inl e \<Rightarrow> (v, Inl e) | Inr _ \<Rightarrow>
     (case validate_path_segment S role of Inl e \<Rightarrow> (v, Inl e) | Inr _ \<Rightarrow>
     (case assert_path_allowed v (mount @ ''/sign/'' @ role) of Inl e \<Rightarrow> (v, Inl e) | Inr _ \<Rightarrow>
        if principal_name = [] \<or> CHR '','' \<in> set principal_name \<or> has_control (as_bytes principal_name)
        then (v, Inl (InvalidSshSigningRequest (''principal '' @ debug_str S principal_name)))
        else if MAX_SSH_KEY_ID < length key_id \<or> has_control (as_bytes key_id)
        then (v, Inl (InvalidSshSigningRequest (''key ID '' @ debug_str S key_id)))
        else case with_reauth S clock (sign_once S mount role public_key principal_name key_id) v of
               (v, Inl e) \<Rightarrow> (v, Inl e)
             | (v, Inr (Inl e)) \<Rightarrow> (v, Inl (sign_error S e))
             | (v, Inr (Inr signed_key)) \<Rightarrow> (v, Inr signed_key))))"

text \<open>A sequence of requests to one backend, each with the readings of the clock.\<close>

datatype vault_request =
    ResolveRequest secret_ref
  | SignRequest string string string string string

fun vault_serve :: "vault_server \<Rightarrow> ((int \<times> int) \<times> vault_request) list \<Rightarrow> vault_backend \<Rightarrow> vault_backend" where
  "vault_serve S [] v = v"
| "vault_serve S ((clock, req) # reqs) v =
     vault_serve S reqs
       (case req of
          ResolveRequest r \<Rightarrow> fst (vault_resolve S clock r v)
        | SignRequest mount role public_key principal_name key_id \<Rightarrow>
            fst (sign_ssh_key S clock mount role public_key principal_name key_id v))"

section \<open>Allowed paths are whole segments\<close>

lemma split_on_Nil_hd: "split_on c q = [] # ss \<longleftrightarrow> (q = [] \<and> ss = [] \<or> (\<exists>r. q = c # r \<and> ss = split_on c r))"
  by (cases q) (auto split: list.split)

lemma split_on_prefix:
  "prefix (split_on c p) (split_on c q) \<longleftrightarrow> q = p \<or> (\<exists>r. q = p @ c # r)"
proof (induction p arbitrary: q)
  case Nil
  have "prefix [[]] (split_on c q) \<longleftrightarrow> (\<exists>ss. split_on c q = [] # ss)" by (auto simp: prefix_def)
  then show ?case by (auto simp: split_on_Nil_hd)
next
  case (Cons x p)
  show ?case
  proof (cases q)
    case Nil
    then show ?thesis by (cases "split_on c p") (auto simp: prefix_def)
  next
    case (Cons z q')
    obtain y ys where p: "split_on c p = y # ys" by (cases "split_on c p") auto
    obtain w ws where q': "split_on c q' = w # ws" by (cases "split_on c q'") auto
    have "prefix (split_on c (x # p)) (split_on c (z # q')) \<longleftrightarrow> x = z \<and> prefix (split_on c p) (split_on c q')"
      by (auto simp: p q' prefix_def)
    with Cons Cons.IH show ?thesis by auto
  qed
qed

text \<open>A path is covered by a prefix when its segments begin with those of the prefix.\<close>

definition path_covered :: "string list \<Rightarrow> string \<Rightarrow> bool" where
  "path_covered allowed path \<longleftrightarrow>
     allowed = [] \<or> (\<exists>p\<in>set allowed. prefix (split_on CHR ''/'' (trim_end_matches CHR ''/'' p)) (split_on CHR ''/'' path))"

lemma path_allowed_iff: "path_allowed allowed path \<longleftrightarrow> path_covered allowed path"
proof -
  have "(path = p \<or> (case strip_prefix p path of None \<Rightarrow> False | Some rest \<Rightarrow> starts_with ''/'' rest))
      \<longleftrightarrow> path = p \<or> (\<exists>r. path = p @ CHR ''/'' # r)" for p
    by (auto simp: starts_with_iff split: option.splits dest: strip_prefix_SomeD)
  then show ?thesis by (auto simp: path_allowed_def path_covered_def list_ex_iff Let_def split_on_prefix)
qed

section \<open>The requests of a backend\<close>

text \<open>From one state to a later one: the configuration stays and the requests between are all good.\<close>

definition vault_evolves :: "(vault_call \<Rightarrow> bool) \<Rightarrow> vault_backend \<Rightarrow> vault_backend \<Rightarrow> bool" where
  "vault_evolves good v v' \<longleftrightarrow>
     v_name v' = v_name v \<and> v_auth_config v' = v_auth_config v \<and> v_allowed_paths v' = v_allowed_paths v
   \<and> (\<exists>cs. v_calls v' = v_calls v @ cs \<and> list_all good cs)"

lemma vault_evolves_refl [simp]: "vault_evolves good v v"
  by (simp add: vault_evolves_def)

lemma vault_evolves_trans: "vault_evolves good v v' \<Longrightarrow> vault_evolves good v' v'' \<Longrightarrow> vault_evolves good v v''"
  by (auto simp: vault_evolves_def)

lemma vault_evolves_reauth_time [simp]: "vault_evolves good (v\<lparr> v_last_reauth := t \<rparr>) v' \<longleftrightarrow> vault_evolves good v v'"
  by (simp add: vault_evolves_def)

lemma vault_evolves_token [simp]: "vault_evolves good v (v'\<lparr> v_token := t \<rparr>) \<longleftrightarrow> vault_evolves good v v'"
  by (simp add: vault_evolves_def)

lemma vault_evolves_call [simp]: "vault_evolves good v (v\<lparr> v_calls := v_calls v @ [c] \<rparr>) \<longleftrightarrow> good c"
  by (auto simp: vault_evolves_def)

fun is_login :: "vault_call \<Rightarrow> bool" where
  "is_login (AppRoleLogin _ _ _) = True"
| "is_login (KubernetesLogin _ _ _) = True"
| "is_login _ = False"

lemma use_token_evolves: "use_token v token = (v', r) \<Longrightarrow> v' = v \<or> (\<exists>t. v' = v\<lparr> v_token := t \<rparr>)"
  by (auto simp: use_token_def Let_def split: if_splits)

lemma vault_login_evolves: "good call \<Longrightarrow> vault_evolves good v (fst (vault_login S v what call))"
  by (auto simp: vault_login_def Let_def split: sum.splits prod.splits dest!: use_token_evolves)

lemma authenticate_evolves: "(\<And>c. is_login c \<Longrightarrow> good c) \<Longrightarrow> vault_evolves good v (fst (authenticate S v))"
  by (auto simp: authenticate_def intro!: vault_login_evolves dest!: use_token_evolves
      split: vault_auth_config.split sum.splits prod.splits)

lemma reauthenticate_evolves:
  assumes "\<And>c. is_login c \<Longrightarrow> good c"
  shows "vault_evolves good v (fst (reauthenticate S clock v))"
proof -
  have "vault_evolves good v (fst (authenticate S (v\<lparr> v_last_reauth := t \<rparr>)))" for t
    using authenticate_evolves [of good "v\<lparr> v_last_reauth := t \<rparr>" S] assms by simp
  then show ?thesis
    by (auto simp: reauthenticate_def split: vault_auth_config.split sum.splits prod.splits) (metis fst_conv)+
qed

text \<open>What a kind of request promises: it is recorded, and nothing but it is.\<close>

locale vault_request_kind =
  fixes request :: "vault_backend \<Rightarrow> vault_backend \<times> (client_error + 'a)" and call :: vault_call
  assumes request_calls: "fst (request v) = v\<lparr> v_calls := v_calls v @ [call] \<rparr>"
begin

lemma with_reauth_evolves:
  assumes "good call" and "\<And>c. is_login c \<Longrightarrow> good c"
  shows "vault_evolves good v (fst (with_reauth S clock request v))"
proof -
  have req: "vault_evolves good v (fst (request v))" for v using assms(1) by (simp add: request_calls)
  show ?thesis
    using req reauthenticate_evolves [of good _ S clock, OF assms(2)]
    by (auto simp: with_reauth_def split: prod.splits sum.splits intro: vault_evolves_trans)
      (metis fst_conv vault_evolves_trans)+
qed

end

interpretation kv_request: vault_request_kind "read_kv S r" "KvRead (sr_mount r) (sr_path r)" for S r
  by unfold_locales (simp add: read_kv_def Let_def)

interpretation sign_request: vault_request_kind
  "sign_once S mount role public_key principal_name key_id" "SignKey mount role public_key principal_name key_id"
  for S mount role public_key principal_name key_id
  by unfold_locales (simp add: sign_once_def Let_def)

text \<open>The requests that stay within what the backend is allowed.\<close>

definition call_ok :: "string list \<Rightarrow> vault_call \<Rightarrow> bool" where
  "call_ok allowed c \<longleftrightarrow>
     (case c of
        KvRead mount path \<Rightarrow>
          path_covered allowed (mount @ ''/'' @ path)
        \<and> list_all is_valid_kv_segment (split_on CHR ''/'' (mount @ ''/'' @ path))
      | SignKey mount role _ principal_name key_id \<Rightarrow>
          path_covered allowed (mount @ ''/sign/'' @ role)
        \<and> split_on CHR ''/'' (mount @ ''/sign/'' @ role) = [mount, ''sign'', role]
        \<and> split_on CHR '','' principal_name = [principal_name] \<and> principal_name \<noteq> []
        \<and> \<not> has_control (as_bytes principal_name) \<and> length key_id \<le> MAX_SSH_KEY_ID
      | _ \<Rightarrow> is_login c)"

lemma call_ok_login: "is_login c \<Longrightarrow> call_ok allowed c"
  by (cases c) (auto simp: call_ok_def)

lemma kv_read_ok:
  assumes "secret_ref_ok r" and "path_allowed allowed (kv_path r)"
  shows "call_ok allowed (KvRead (sr_mount r) (sr_path r))"
  using assms by (simp add: call_ok_def path_allowed_iff kv_path_def secret_ref_ok_def split_on_append)

lemma path_segment_no_slash: "validate_path_segment S name = Inr () \<Longrightarrow> CHR ''/'' \<notin> set name"
  by (auto simp: validate_path_segment_def list_all_iff is_ascii_alphanumeric_def split: if_splits)

lemma sign_key_ok:
  assumes "validate_path_segment S mount = Inr ()" and "validate_path_segment S role = Inr ()"
    and "path_allowed allowed (mount @ ''/sign/'' @ role)"
    and "principal_name \<noteq> []" "CHR '','' \<notin> set principal_name" "\<not> has_control (as_bytes principal_name)"
    and "length key_id \<le> MAX_SSH_KEY_ID"
  shows "call_ok allowed (SignKey mount role public_key principal_name key_id)"
proof -
  have "split_on CHR ''/'' (''sign'' @ CHR ''/'' # role) = ''sign'' # split_on CHR ''/'' role"
    by (rule split_on_append) simp
  with assms show ?thesis
    by (simp add: call_ok_def path_allowed_iff split_on_append split_on_free path_segment_no_slash)
qed

lemma vault_resolve_evolves:
  assumes "secret_ref_ok r"
  shows "vault_evolves (call_ok (v_allowed_paths v)) v (fst (vault_resolve S clock r v))"
proof (cases "path_allowed (v_allowed_paths v) (kv_path r)")
  case True
  from kv_request.with_reauth_evolves [of "call_ok (v_allowed_paths v)" r v S clock S] kv_read_ok [OF assms True]
  have "vault_evolves (call_ok (v_allowed_paths v)) v (fst (with_reauth S clock (read_kv S r) v))"
    by (simp add: call_ok_login)
  with True show ?thesis
    by (auto simp: vault_resolve_def assert_path_allowed_def split: prod.splits sum.splits)
qed (simp add: vault_resolve_def assert_path_allowed_def)

lemma sign_ssh_key_evolves:
  "vault_evolves (call_ok (v_allowed_paths v)) v
     (fst (sign_ssh_key S clock mount role public_key principal_name key_id v))"
proof (cases "validate_path_segment S mount = Inr () \<and> validate_path_segment S role = Inr ()
    \<and> path_allowed (v_allowed_paths v) (mount @ ''/sign/'' @ role) \<and> principal_name \<noteq> []
    \<and> CHR '','' \<notin> set principal_name \<and> \<not> has_control (as_bytes principal_name) \<and> length key_id \<le> MAX_SSH_KEY_ID")
  case True
  then have "call_ok (v_allowed_paths v) (SignKey mount role public_key principal_name key_id)"
    by (intro sign_key_ok) auto
  then have "vault_evolves (call_ok (v_allowed_paths v)) v
      (fst (with_reauth S clock (sign_once S mount role public_key principal_name key_id) v))"
    by (rule sign_request.with_reauth_evolves) (rule call_ok_login)
  with True show ?thesis
    by (auto simp: sign_ssh_key_def split: prod.splits sum.splits)
next
  case False
  then show ?thesis
    by (auto simp: sign_ssh_key_def assert_path_allowed_def split: sum.split)
qed

text \<open>
  C9: Whatever is asked of a Vault backend, the requests it sends stay inside the paths the
  backend is allowed. A secret is read only at a path whose segments begin with those of an
  allowed prefix and have no empty, \<open>.\<close> or \<open>..\<close> segment, so the path cannot lead out of it. A key
  is signed only at a mount and a role that are single segments, for exactly one account: its
  name cannot be read as a list of several. All other requests are logins.
\<close>

theorem vault_requests_stay_inside:
  assumes "\<forall>(clock, req)\<in>set reqs. \<forall>r. req = ResolveRequest r \<longrightarrow> (\<exists>s. secret_ref_from_str s = Inr r)"
  shows "\<exists>cs. v_calls (vault_serve S reqs v) = v_calls v @ cs \<and> list_all (call_ok (v_allowed_paths v)) cs"
proof -
  have "vault_evolves (call_ok (v_allowed_paths v)) v (vault_serve S reqs v)"
    using assms
  proof (induction reqs arbitrary: v)
    case (Cons entry reqs)
    obtain clock req where entry: "entry = (clock, req)" by (cases entry)
    define v1 where "v1 = (case req of
        ResolveRequest r \<Rightarrow> fst (vault_resolve S clock r v)
      | SignRequest mount role public_key principal_name key_id \<Rightarrow>
          fst (sign_ssh_key S clock mount role public_key principal_name key_id v))"
    have step: "vault_evolves (call_ok (v_allowed_paths v)) v v1"
    proof (cases req)
      case (ResolveRequest r)
      with Cons.prems obtain s where "secret_ref_from_str s = Inr r" by (auto simp: entry)
      then have "secret_ref_ok r" using secret_ref_parse_print by blast
      from vault_resolve_evolves [OF this] show ?thesis by (simp add: v1_def ResolveRequest)
    qed (simp add: v1_def sign_ssh_key_evolves)
    then have "v_allowed_paths v1 = v_allowed_paths v" by (simp add: vault_evolves_def)
    with Cons.IH [of v1] Cons.prems have "vault_evolves (call_ok (v_allowed_paths v)) v1 (vault_serve S reqs v1)" by simp
    with step show ?case by (simp add: entry v1_def [symmetric] vault_evolves_trans)
  qed simp
  then show ?thesis by (simp add: vault_evolves_def)
qed

definition sample_vault_server :: vault_server where
  "sample_vault_server =
     \<lparr> kv_answer = (\<lambda>calls. if length calls \<le> 1 then Inl (APIError 403 []) else Inr [''f'' \<mapsto> JString ''pw'']),
       sign_answer = (\<lambda>_. Inl (APIError 400 [])), login_answer = (\<lambda>_. Inr (''tok'', 60)), jwt_file = Inl ''none'',
       show_client_error = (\<lambda>_. []), show_encryption_error = (\<lambda>_. []), debug_str = (\<lambda>s. s),
       vs_ciphers = sample_ciphers, vs_ring = \<lparr> kr_primary = None, kr_retired = [] \<rparr> \<rparr>"

definition sample_vault :: vault_backend where
  "sample_vault =
     \<lparr> v_name = ''b'', v_token = [], v_auth_config = AppRoleAuth \<lparr> va_role_id = ''r'', va_secret_id = ''s'', va_mount = None \<rparr>,
       v_allowed_paths = [''kv''], v_last_reauth = None, v_calls = [] \<rparr>"

definition sample_ref :: secret_ref where
  "sample_ref = \<lparr> sr_backend = ''b'', sr_mount = ''kv'', sr_path = ''a'', sr_field = ''f'' \<rparr>"

lemma sample_ref_parsed: "secret_ref_from_str ''secret://b/kv/a#f'' = Inr sample_ref"
  by code_simp

lemma sample_vault_served:
  "v_calls (vault_serve sample_vault_server [((0, 0), ResolveRequest sample_ref)] sample_vault)
   = [KvRead ''kv'' ''a'', AppRoleLogin ''approle'' ''r'' ''s'', KvRead ''kv'' ''a'']"
  by code_simp

theorem vault_requests_stay_inside_witness:
  "list_all (call_ok [''kv''])
     (v_calls (vault_serve sample_vault_server [((0, 0), ResolveRequest sample_ref)] sample_vault))
   \<and> v_calls (vault_serve sample_vault_server [((0, 0), ResolveRequest sample_ref)] sample_vault) \<noteq> []"
proof -
  have "v_calls sample_vault = []" "v_allowed_paths sample_vault = [''kv'']" by (simp_all add: sample_vault_def)
  moreover have "\<exists>cs. v_calls (vault_serve sample_vault_server [((0, 0), ResolveRequest sample_ref)] sample_vault)
      = v_calls sample_vault @ cs \<and> list_all (call_ok (v_allowed_paths sample_vault)) cs"
    by (rule vault_requests_stay_inside) (use sample_ref_parsed in auto)
  ultimately show ?thesis unfolding sample_vault_served by simp
qed

section \<open>How often a backend logs in\<close>

definition logins :: "vault_backend \<Rightarrow> nat" where
  "logins v = length (filter is_login (v_calls v))"

definition reauth_blocked :: "int \<Rightarrow> vault_backend \<Rightarrow> bool" where
  "reauth_blocked now v \<longleftrightarrow> (\<exists>at. v_last_reauth v = Some at \<and> now - at < REAUTH_MIN_INTERVAL)"

text \<open>One request: no login, or at most one, remembered, outside the window of the last.\<close>

definition login_step :: "int \<times> int \<Rightarrow> vault_backend \<Rightarrow> vault_backend \<Rightarrow> bool" where
  "login_step clock v v' \<longleftrightarrow>
     v_auth_config v' = v_auth_config v
   \<and> (logins v' = logins v \<and> v_last_reauth v' = v_last_reauth v
      \<or> \<not> (\<exists>auth. v_auth_config v = TokenAuth auth) \<and> \<not> reauth_blocked (fst clock) v
        \<and> v_last_reauth v' = Some (snd clock) \<and> logins v' \<le> Suc (logins v))"

lemma login_step_refl [simp]: "login_step clock v v"
  by (simp add: login_step_def)

lemma use_token_logins:
  "use_token v token = (v', r) \<Longrightarrow> logins v' = logins v \<and> v_last_reauth v' = v_last_reauth v \<and> v_auth_config v' = v_auth_config v"
  by (auto simp: use_token_def Let_def logins_def split: if_splits)

lemma authenticate_logins:
  "logins (fst (authenticate S v)) \<le> Suc (logins v) \<and> v_last_reauth (fst (authenticate S v)) = v_last_reauth v
   \<and> v_auth_config (fst (authenticate S v)) = v_auth_config v"
proof -
  have "logins (v\<lparr> v_calls := v_calls v @ [c] \<rparr>) \<le> Suc (logins v)" for c by (simp add: logins_def)
  then have "logins (fst (vault_login S v what c)) \<le> Suc (logins v)
      \<and> v_last_reauth (fst (vault_login S v what c)) = v_last_reauth v
      \<and> v_auth_config (fst (vault_login S v what c)) = v_auth_config v" for what c
    by (auto simp: vault_login_def Let_def split: sum.splits prod.splits dest!: use_token_logins)
  then show ?thesis
    by (auto simp: authenticate_def split: vault_auth_config.split sum.splits prod.splits dest!: use_token_logins)
qed

lemma reauthenticate_login_step: "login_step clock v (fst (reauthenticate S clock v))"
  using authenticate_logins [of S "v\<lparr> v_last_reauth := Some (snd clock) \<rparr>"]
  by (cases "v_auth_config v"; cases "authenticate S (v\<lparr> v_last_reauth := Some (snd clock) \<rparr>)")
    (auto simp: reauthenticate_def login_step_def reauth_blocked_def logins_def split: sum.splits option.splits)

lemma login_step_call:
  assumes "\<not> is_login c"
  shows "login_step clock (v\<lparr> v_calls := v_calls v @ [c] \<rparr>) v' \<longleftrightarrow> login_step clock v v'"
    and "login_step clock v (v'\<lparr> v_calls := v_calls v' @ [c] \<rparr>) \<longleftrightarrow> login_step clock v v'"
  using assms by (simp_all add: login_step_def logins_def reauth_blocked_def)

lemma with_reauth_login_step:
  assumes "\<And>v. fst (request v) = v\<lparr> v_calls := v_calls v @ [c] \<rparr>" and "\<not> is_login c"
  shows "login_step clock v (fst (with_reauth S clock request v))"
proof -
  have first: "login_step clock v (fst (request v))" using assms by (simp add: login_step_call)
  have again: "login_step clock v (fst (request (fst (reauthenticate S clock (fst (request v))))))"
    and denied: "login_step clock v (fst (reauthenticate S clock (fst (request v))))"
    using assms reauthenticate_login_step [of clock "fst (request v)" S] by (simp_all add: login_step_call)
  show ?thesis using first again denied by (auto simp: with_reauth_def split: prod.splits sum.splits)
qed

lemma vault_resolve_login_step: "login_step clock v (fst (vault_resolve S clock r v))"
  using with_reauth_login_step [OF kv_request.request_calls [of S r], of clock v S]
  by (auto simp: vault_resolve_def split: prod.splits sum.splits)

lemma sign_ssh_key_login_step: "login_step clock v (fst (sign_ssh_key S clock mount role public_key principal_name key_id v))"
  using with_reauth_login_step [OF sign_request.request_calls [of S mount role public_key principal_name key_id], of clock v S]
  by (auto simp: sign_ssh_key_def split: prod.splits sum.splits)

text \<open>
  However many requests the server denies, they cause at most one login within a window of
  \<open>REAUTH_MIN_INTERVAL\<close>, and none at all while the window of an earlier one is open or with
  a static token, which a login cannot replace.
\<close>

theorem vault_logins_limited:
  assumes "\<forall>(clock, req)\<in>set reqs. {fst clock, snd clock} \<subseteq> {t ..< t + REAUTH_MIN_INTERVAL}"
  shows "logins (vault_serve S reqs v) \<le> Suc (logins v)
    \<and> ((\<exists>at. v_last_reauth v = Some at \<and> t \<le> at) \<or> (\<exists>auth. v_auth_config v = TokenAuth auth)
        \<longrightarrow> logins (vault_serve S reqs v) = logins v)"
  using assms
proof (induction reqs arbitrary: v)
  case (Cons entry reqs)
  obtain clock req where entry: "entry = (clock, req)" by (cases entry)
  define v1 where "v1 = (case req of
      ResolveRequest r \<Rightarrow> fst (vault_resolve S clock r v)
    | SignRequest mount role public_key principal_name key_id \<Rightarrow>
        fst (sign_ssh_key S clock mount role public_key principal_name key_id v))"
  have step: "login_step clock v v1"
    using vault_resolve_login_step sign_ssh_key_login_step by (auto simp: v1_def split: vault_request.split)
  have serve: "vault_serve S (entry # reqs) v = vault_serve S reqs v1" by (simp add: entry v1_def)
  have window: "t \<le> fst clock" "fst clock < t + REAUTH_MIN_INTERVAL" "t \<le> snd clock"
    using Cons.prems by (auto simp: entry)
  have IH: "logins (vault_serve S reqs v1) \<le> Suc (logins v1)"
    "(\<exists>at. v_last_reauth v1 = Some at \<and> t \<le> at) \<or> (\<exists>auth. v_auth_config v1 = TokenAuth auth)
      \<Longrightarrow> logins (vault_serve S reqs v1) = logins v1"
    using Cons.IH [of v1] Cons.prems by auto
  consider "logins v1 = logins v" "v_last_reauth v1 = v_last_reauth v" "v_auth_config v1 = v_auth_config v"
    | "\<not> (\<exists>auth. v_auth_config v = TokenAuth auth)" "\<not> reauth_blocked (fst clock) v"
      "v_last_reauth v1 = Some (snd clock)" "logins v1 \<le> Suc (logins v)"
    using step by (auto simp: login_step_def)
  then show ?case
  proof cases
    case 1
    with IH show ?thesis by (simp add: serve)
  next
    case 2
    with window IH(2) have "logins (vault_serve S reqs v1) = logins v1" by auto
    with 2 window show ?thesis by (force simp: serve reauth_blocked_def)
  qed
qed simp

theorem vault_logins_limited_witness:
  "logins sample_vault = 0 \<and>
   logins (vault_serve sample_vault_server
     [((0, 0), ResolveRequest sample_ref), ((1, 1), ResolveRequest sample_ref)] sample_vault) \<le> 1"
  using vault_logins_limited [of "[((0, 0), ResolveRequest sample_ref), ((1, 1), ResolveRequest sample_ref)]" 0
      sample_vault_server sample_vault]
  by (simp add: REAUTH_MIN_INTERVAL_def logins_def sample_vault_def)

end
