(* ===== verification/Target_Options.thy ===== *)
theory Target_Options
  imports Secret_Refs Credentials
begin

text \<open>
  The options of a target (\<open>warpgate-common/src/config/target.rs\<close>): what each protocol's target
  holds, which of it are credentials, and the walks that encrypt, bring up to date, check and
  redact them. The lemmas show that the walks reach every credential and nothing else.
\<close>

section \<open>Options of every protocol\<close>

datatype target_tls_mode = TlsDisabled | TlsPreferred | TlsRequired

record target_tls =
  tls_mode :: target_tls_mode
  tls_verify :: bool

definition default_tls :: target_tls where
  "default_tls = \<lparr> tls_mode = TlsPreferred, tls_verify = True \<rparr>"

record ssh_target_certificate_auth =
  sc_backend :: string
  sc_mount :: string
  sc_role :: string

datatype ssh_target_auth =
    SshPassword maybe_secret_ref
  | SshPublicKey "uuid option"
  | SshCertificate ssh_target_certificate_auth
  | SshIamRole

record target_ssh_options =
  ssh_host :: string
  ssh_port :: u16
  ssh_username :: string
  ssh_allow_insecure_algos :: bool
  ssh_auth :: ssh_target_auth
  ssh_jump_host :: "uuid option"
  ssh_env :: "(string \<rightharpoonup> string) option"

record target_http_options =
  http_url :: string
  http_tls :: target_tls
  http_headers :: "string \<rightharpoonup> string"
  http_external_host :: "string option"
  http_public :: bool
  http_unix_socket :: "string option"

record kubernetes_target_certificate_auth =
  kc_certificate :: string
  kc_private_key :: maybe_secret_ref

datatype kubernetes_target_auth =
    KubernetesToken maybe_secret_ref
  | KubernetesCertificate kubernetes_target_certificate_auth
  | KubernetesIamRole

record target_kubernetes_options =
  kube_cluster_url :: string
  kube_tls :: target_tls
  kube_auth :: kubernetes_target_auth

datatype database_target_auth = DatabasePassword maybe_secret_ref | DatabaseIamRole

record target_mysql_options =
  mysql_host :: string
  mysql_port :: u16
  mysql_username :: string
  mysql_auth :: database_target_auth
  mysql_tls :: target_tls
  mysql_default_database_name :: "string option"

datatype postgres_protocol_version = V3_0 | V3_2

record target_postgres_options =
  pg_host :: string
  pg_port :: u16
  pg_username :: string
  pg_auth :: database_target_auth
  pg_tls :: target_tls
  pg_idle_timeout :: "string option"
  pg_default_database_name :: "string option"
  pg_protocol_version :: postgres_protocol_version

datatype vnc_target_auth = VncNone | VncPassword maybe_secret_ref

record target_vnc_options =
  vnc_host :: string
  vnc_port :: u16
  vnc_auth :: vnc_target_auth

datatype rdp_target_compression = RemoteFX | Lossless | GraphicsPipeline

datatype rdp_tls_security = Tls12 | Tls12WithLegacyCiphers | Tls10Unsafe

datatype rdp_target_auth = RdpPassword maybe_secret_ref

record target_rdp_options =
  rdp_host :: string
  rdp_port :: u16
  rdp_username :: string
  rdp_domain :: "string option"
  rdp_kdc_url :: "string option"
  rdp_auth :: rdp_target_auth
  rdp_verify_tls :: bool
  rdp_compression :: rdp_target_compression
  rdp_interactive_logon :: bool
  rdp_tls_security :: rdp_tls_security

datatype target_config_options =
    SshOptions target_ssh_options
  | HttpOptions target_http_options
  | KubernetesOptions target_kubernetes_options
  | MySqlOptions target_mysql_options
  | PostgresOptions target_postgres_options
  | VncOptions target_vnc_options
  | RdpOptions target_rdp_options

definition config_options_protocol :: "target_config_options \<Rightarrow> protocol" where
  "config_options_protocol opts =
     (case opts of
        SshOptions _ \<Rightarrow> Ssh
      | HttpOptions _ \<Rightarrow> Http
      | KubernetesOptions _ \<Rightarrow> Kubernetes
      | MySqlOptions _ \<Rightarrow> MySql
      | PostgresOptions _ \<Rightarrow> Postgres
      | VncOptions _ \<Rightarrow> Vnc
      | RdpOptions _ \<Rightarrow> Rdp)"

definition external_host :: "target_config_options \<Rightarrow> string option" where
  "external_host opts = (case opts of HttpOptions o' \<Rightarrow> http_external_host o' | _ \<Rightarrow> None)"

definition default_database_name :: "target_config_options \<Rightarrow> string option" where
  "default_database_name opts =
     (case opts of
        MySqlOptions o' \<Rightarrow> mysql_default_database_name o'
      | PostgresOptions o' \<Rightarrow> pg_default_database_name o'
      | _ \<Rightarrow> None)"

section \<open>Unix sockets\<close>

definition UNIX_SOCKET_PATH_MAX :: nat where "UNIX_SOCKET_PATH_MAX = 107"

datatype unix_socket_error = NotOnLoopback | SocketPathTooLong nat | SocketPathRelative | SocketPathParent | SocketPathNoFile

text \<open>
  The components of an absolute path after the root: empty ones and single dots are passed over. The
  last one is the file name unless it is a pair of dots.
\<close>

definition path_components :: "string \<Rightarrow> string list" where
  "path_components path = filter (\<lambda>c. c \<noteq> [] \<and> c \<noteq> ''.'') (split_on CHR ''/'' path)"

definition check_unix_socket_path :: "string \<Rightarrow> unix_socket_error + unit" where
  "check_unix_socket_path path =
     (if UNIX_SOCKET_PATH_MAX < length path then Inl (SocketPathTooLong (length path))
      else if \<not> starts_with ''/'' path then Inl SocketPathRelative
      else if ''..'' \<in> set (path_components path) then Inl SocketPathParent
      else if path_components path = [] \<or> last (path_components path) = ''..'' then Inl SocketPathNoFile
      else Inr ())"

definition check_unix_socket :: "target_http_options \<Rightarrow> bool \<Rightarrow> unix_socket_error + unit" where
  "check_unix_socket opts plain_http_on_loopback =
     (case http_unix_socket opts of
        None \<Rightarrow> Inr ()
      | Some path \<Rightarrow> if \<not> plain_http_on_loopback then Inl NotOnLoopback else check_unix_socket_path path)"

section \<open>Credentials\<close>

text \<open>
  Mutable references to the credential slots: their contents, and the value with
  other contents in their place.
\<close>

type_synonym 'a slots = "maybe_secret_ref list \<times> (maybe_secret_ref list \<Rightarrow> 'a)"

definition ssh_secrets_mut :: "target_ssh_options \<Rightarrow> target_ssh_options slots" where
  "ssh_secrets_mut opts =
     (case ssh_auth opts of
        SshPassword p \<Rightarrow> ([p], \<lambda>ps. opts\<lparr> ssh_auth := SshPassword (hd ps) \<rparr>)
      | SshPublicKey _ \<Rightarrow> ([], \<lambda>_. opts)
      | SshCertificate _ \<Rightarrow> ([], \<lambda>_. opts)
      | SshIamRole \<Rightarrow> ([], \<lambda>_. opts))"

definition http_secrets_mut :: "target_http_options \<Rightarrow> target_http_options slots" where
  "http_secrets_mut opts = ([], \<lambda>_. opts)"

definition kubernetes_secrets_mut :: "target_kubernetes_options \<Rightarrow> target_kubernetes_options slots" where
  "kubernetes_secrets_mut opts =
     (case kube_auth opts of
        KubernetesToken t \<Rightarrow> ([t], \<lambda>ts. opts\<lparr> kube_auth := KubernetesToken (hd ts) \<rparr>)
      | KubernetesCertificate auth \<Rightarrow>
          ([kc_private_key auth], \<lambda>ks. opts\<lparr> kube_auth := KubernetesCertificate (auth\<lparr> kc_private_key := hd ks \<rparr>) \<rparr>)
      | KubernetesIamRole \<Rightarrow> ([], \<lambda>_. opts))"

definition database_secrets_mut :: "database_target_auth \<Rightarrow> database_target_auth slots" where
  "database_secrets_mut auth =
     (case auth of
        DatabasePassword p \<Rightarrow> ([p], \<lambda>ps. DatabasePassword (hd ps))
      | DatabaseIamRole \<Rightarrow> ([], \<lambda>_. auth))"

definition mysql_secrets_mut :: "target_mysql_options \<Rightarrow> target_mysql_options slots" where
  "mysql_secrets_mut opts =
     (case database_secrets_mut (mysql_auth opts) of (ss, put) \<Rightarrow> (ss, \<lambda>ss. opts\<lparr> mysql_auth := put ss \<rparr>))"

definition postgres_secrets_mut :: "target_postgres_options \<Rightarrow> target_postgres_options slots" where
  "postgres_secrets_mut opts =
     (case database_secrets_mut (pg_auth opts) of (ss, put) \<Rightarrow> (ss, \<lambda>ss. opts\<lparr> pg_auth := put ss \<rparr>))"

definition vnc_secrets_mut :: "target_vnc_options \<Rightarrow> target_vnc_options slots" where
  "vnc_secrets_mut opts =
     (case vnc_auth opts of
        VncPassword p \<Rightarrow> ([p], \<lambda>ps. opts\<lparr> vnc_auth := VncPassword (hd ps) \<rparr>)
      | VncNone \<Rightarrow> ([], \<lambda>_. opts))"

definition rdp_secrets_mut :: "target_rdp_options \<Rightarrow> target_rdp_options slots" where
  "rdp_secrets_mut opts =
     (case rdp_auth opts of RdpPassword p \<Rightarrow> ([p], \<lambda>ps. opts\<lparr> rdp_auth := RdpPassword (hd ps) \<rparr>))"

definition slots_of :: "('a \<Rightarrow> 'b) \<Rightarrow> 'a slots \<Rightarrow> 'b slots" where
  "slots_of wrap s = (fst s, \<lambda>ss. wrap (snd s ss))"

definition secrets_mut :: "target_config_options \<Rightarrow> target_config_options slots" where
  "secrets_mut opts =
     (case opts of
        SshOptions o' \<Rightarrow> slots_of SshOptions (ssh_secrets_mut o')
      | HttpOptions o' \<Rightarrow> slots_of HttpOptions (http_secrets_mut o')
      | KubernetesOptions o' \<Rightarrow> slots_of KubernetesOptions (kubernetes_secrets_mut o')
      | MySqlOptions o' \<Rightarrow> slots_of MySqlOptions (mysql_secrets_mut o')
      | PostgresOptions o' \<Rightarrow> slots_of PostgresOptions (postgres_secrets_mut o')
      | VncOptions o' \<Rightarrow> slots_of VncOptions (vnc_secrets_mut o')
      | RdpOptions o' \<Rightarrow> slots_of RdpOptions (rdp_secrets_mut o'))"

definition secret_references :: "target_config_options \<Rightarrow> secret_ref list" where
  "secret_references opts = List.map_filter as_reference (fst (secrets_mut opts))"

text \<open>
  The walk over the stored secrets: a look-alike of a reference becomes a text of its
  own, references are passed over. The walk hands out the texts and puts the changed ones back.
\<close>

definition demalform :: "maybe_secret_ref \<Rightarrow> maybe_secret_ref" where
  "demalform slot = (case slot of Malformed raw \<Rightarrow> Inline raw | _ \<Rightarrow> slot)"

fun put_inline :: "maybe_secret_ref list \<Rightarrow> string list \<Rightarrow> maybe_secret_ref list" where
  "put_inline [] vs = []"
| "put_inline (Inline _ # slots) vs = Inline (hd vs) # put_inline slots (tl vs)"
| "put_inline (slot # slots) vs = slot # put_inline slots vs"

definition stored_secrets_mut :: "target_config_options \<Rightarrow> string list \<times> (string list \<Rightarrow> target_config_options)" where
  "stored_secrets_mut opts =
     (let (slots, put) = secrets_mut opts; slots = map demalform slots
      in (List.map_filter inline_of slots, \<lambda>vs. put (put_inline slots vs)))"

definition options_encrypt_all ::
  "ciphers \<Rightarrow> bytes list \<Rightarrow> keyring \<Rightarrow> target_config_options \<Rightarrow> target_config_options \<times> (encryption_error + unit)" where
  "options_encrypt_all C nonces ring opts =
     (let (vs, put) = stored_secrets_mut opts; (vs, r) = encrypt_all C nonces ring vs in (put vs, r))"

definition options_reencrypt_all ::
  "ciphers \<Rightarrow> bytes list \<Rightarrow> keyring \<Rightarrow> target_config_options \<Rightarrow> target_config_options \<times> (encryption_error + bool)" where
  "options_reencrypt_all C nonces ring opts =
     (let (vs, put) = stored_secrets_mut opts; (vs, r) = reencrypt_all C nonces ring False vs in (put vs, r))"

definition options_all_decryptable :: "ciphers \<Rightarrow> keyring \<Rightarrow> target_config_options \<Rightarrow> bool" where
  "options_all_decryptable C ring opts = all_decryptable C ring (fst (stored_secrets_mut opts))"

section \<open>Redacting\<close>

text \<open>A parsed address, and the parser and printer of addresses.\<close>

record url =
  url_username :: string
  url_password :: "string option"
  url_host :: "string option"
  url_rest :: string

record urls =
  url_parse :: "string \<Rightarrow> url option"
  url_text :: "url \<Rightarrow> string"

definition http_redact_credentials :: "urls \<Rightarrow> target_http_options \<Rightarrow> target_http_options" where
  "http_redact_credentials U opts =
     opts\<lparr> http_headers := map_option (\<lambda>_. []) \<circ> http_headers opts,
           http_url :=
             (case url_parse U (http_url opts) of
                None \<Rightarrow> []
              | Some u \<Rightarrow>
                  if url_host u = None then []
                  else url_text U (u\<lparr> url_username := [], url_password := None \<rparr>)) \<rparr>"

definition ssh_redact_credentials :: "target_ssh_options \<Rightarrow> target_ssh_options" where
  "ssh_redact_credentials opts =
     opts\<lparr> ssh_env := map_option (\<lambda>env. map_option (\<lambda>_. []) \<circ> env) (ssh_env opts) \<rparr>"

definition redact_options :: "urls \<Rightarrow> target_config_options \<Rightarrow> target_config_options" where
  "redact_options U opts =
     (let (vs, put) = stored_secrets_mut opts; opts = put (redact_all vs)
      in case opts of
           HttpOptions o' \<Rightarrow> HttpOptions (http_redact_credentials U o')
         | SshOptions o' \<Rightarrow> SshOptions (ssh_redact_credentials o')
         | _ \<Rightarrow> opts)"

section \<open>Slots\<close>

text \<open>What references to slots promise: they show what was put and change nothing else.\<close>

locale secret_slots =
  fixes secrets :: "'a \<Rightarrow> 'a slots"
  assumes put_same: "snd (secrets x) (fst (secrets x)) = x"
    and get_put: "length ss = length (fst (secrets x)) \<Longrightarrow> fst (secrets (snd (secrets x) ss)) = ss"
    and put_put: "length ss = length (fst (secrets x)) \<Longrightarrow> snd (secrets (snd (secrets x) ss)) = snd (secrets x)"
    and one_slot: "length (fst (secrets x)) \<le> 1"
begin

lemma slot_list_cases:
  obtains "fst (secrets x) = []" | s where "fst (secrets x) = [s]"
  using one_slot [of x] by (cases "fst (secrets x)") auto

end

interpretation ssh_slots: secret_slots ssh_secrets_mut
  by unfold_locales (auto simp: ssh_secrets_mut_def length_Suc_conv split: ssh_target_auth.splits)

interpretation http_slots: secret_slots http_secrets_mut
  by unfold_locales (auto simp: http_secrets_mut_def)

interpretation kubernetes_slots: secret_slots kubernetes_secrets_mut
  by unfold_locales (auto simp: kubernetes_secrets_mut_def length_Suc_conv split: kubernetes_target_auth.splits)

interpretation database_slots: secret_slots database_secrets_mut
  by unfold_locales (auto simp: database_secrets_mut_def length_Suc_conv split: database_target_auth.splits)

interpretation mysql_slots: secret_slots mysql_secrets_mut
  by unfold_locales
    (auto simp: mysql_secrets_mut_def database_secrets_mut_def length_Suc_conv split: database_target_auth.splits)

interpretation postgres_slots: secret_slots postgres_secrets_mut
  by unfold_locales
    (auto simp: postgres_secrets_mut_def database_secrets_mut_def length_Suc_conv split: database_target_auth.splits)

interpretation vnc_slots: secret_slots vnc_secrets_mut
  by unfold_locales (auto simp: vnc_secrets_mut_def length_Suc_conv split: vnc_target_auth.splits)

interpretation rdp_slots: secret_slots rdp_secrets_mut
  by unfold_locales (auto simp: rdp_secrets_mut_def length_Suc_conv split: rdp_target_auth.splits)

lemmas all_put_same = ssh_slots.put_same http_slots.put_same kubernetes_slots.put_same mysql_slots.put_same
  postgres_slots.put_same vnc_slots.put_same rdp_slots.put_same

lemmas all_get_put = ssh_slots.get_put http_slots.get_put kubernetes_slots.get_put mysql_slots.get_put
  postgres_slots.get_put vnc_slots.get_put rdp_slots.get_put

lemmas all_put_put = ssh_slots.put_put http_slots.put_put kubernetes_slots.put_put mysql_slots.put_put
  postgres_slots.put_put vnc_slots.put_put rdp_slots.put_put

lemmas all_one_slot = ssh_slots.one_slot http_slots.one_slot kubernetes_slots.one_slot mysql_slots.one_slot
  postgres_slots.one_slot vnc_slots.one_slot rdp_slots.one_slot

interpretation options_slots: secret_slots secrets_mut
proof
  fix x :: target_config_options
  show "snd (secrets_mut x) (fst (secrets_mut x)) = x"
    by (cases x) (simp_all add: secrets_mut_def slots_of_def all_put_same)
  show "length (fst (secrets_mut x)) \<le> 1"
    by (cases x) (simp_all add: secrets_mut_def slots_of_def all_one_slot [simplified])
  fix ss :: "maybe_secret_ref list"
  assume "length ss = length (fst (secrets_mut x))"
  then show "fst (secrets_mut (snd (secrets_mut x) ss)) = ss" "snd (secrets_mut (snd (secrets_mut x) ss)) = snd (secrets_mut x)"
    by (cases x; simp add: secrets_mut_def slots_of_def all_get_put all_put_put)+
qed

text \<open>Walking over the stored secrets changes the credential and nothing else.\<close>

lemma stored_secrets_none:
  assumes "fst (secrets_mut opts) = []"
  shows "stored_secrets_mut opts = ([], \<lambda>_. opts)"
  using assms options_slots.put_same [of opts]
  by (cases "secrets_mut opts") (simp add: stored_secrets_mut_def map_filter_simps)

lemma stored_secrets_reference:
  assumes "fst (secrets_mut opts) = [Reference r]"
  shows "stored_secrets_mut opts = ([], \<lambda>_. opts)"
  using assms options_slots.put_same [of opts]
  by (cases "secrets_mut opts") (simp add: stored_secrets_mut_def map_filter_simps demalform_def inline_of_def)

lemma stored_secrets_text:
  assumes "fst (secrets_mut opts) = [s]" and "demalform s = Inline v"
  shows "stored_secrets_mut opts = ([v], \<lambda>vs. snd (secrets_mut opts) [Inline (hd vs)])"
  using assms
  by (cases "secrets_mut opts") (simp add: stored_secrets_mut_def map_filter_simps inline_of_def)

text \<open>
  The three kinds of options: without a credential, with a reference, and with a text of
  their own, which may look like a reference.
\<close>

lemma options_cases:
  obtains (No_Slot) "fst (secrets_mut opts) = []" "stored_secrets_mut opts = ([], \<lambda>_. opts)"
  | (Referenced) r where "fst (secrets_mut opts) = [Reference r]" "stored_secrets_mut opts = ([], \<lambda>_. opts)"
  | (Stored) s v where "fst (secrets_mut opts) = [s]" "s = Inline v \<or> s = Malformed v"
      "stored_secrets_mut opts = ([v], \<lambda>vs. snd (secrets_mut opts) [Inline (hd vs)])"
proof (cases rule: options_slots.slot_list_cases [of opts])
  case 1
  then show ?thesis using No_Slot stored_secrets_none by blast
next
  case (2 s)
  show ?thesis
  proof (cases s)
    case (Reference r)
    with 2 show ?thesis using Referenced stored_secrets_reference by blast
  qed (use 2 Stored [of s] stored_secrets_text [OF 2] in \<open>auto simp: demalform_def\<close>)
qed

section \<open>Redacted options\<close>

lemma redact_credentials_slots [simp]:
  "fst (ssh_secrets_mut (ssh_redact_credentials o')) = fst (ssh_secrets_mut o')"
  "fst (http_secrets_mut (http_redact_credentials U h)) = fst (http_secrets_mut h)"
  by (simp_all add: ssh_secrets_mut_def ssh_redact_credentials_def http_secrets_mut_def split: ssh_target_auth.split)

definition redacted_slot :: "maybe_secret_ref \<Rightarrow> maybe_secret_ref" where
  "redacted_slot s = (case s of Reference r \<Rightarrow> Reference r | Inline _ \<Rightarrow> Inline [] | Malformed _ \<Rightarrow> Inline [])"

lemma put_redacted_slots:
  "snd (stored_secrets_mut opts) (redact_all (fst (stored_secrets_mut opts)))
   = snd (secrets_mut opts) (map redacted_slot (fst (secrets_mut opts)))"
  by (cases rule: options_cases [of opts])
    (use options_slots.put_same [of opts] in \<open>auto simp: redact_all_def redacted_slot_def\<close>)

lemma put_slots_protocol [simp]: "config_options_protocol (snd (secrets_mut opts) ss) = config_options_protocol opts"
  by (cases opts) (simp_all add: secrets_mut_def slots_of_def config_options_protocol_def)

definition empty_values :: "(string \<rightharpoonup> string) \<Rightarrow> (string \<rightharpoonup> string) \<Rightarrow> bool" where
  "empty_values m m' \<longleftrightarrow> dom m' = dom m \<and> ran m' \<subseteq> {[]}"

lemma empty_values_cleared [simp]: "empty_values m (map_option (\<lambda>_. []) \<circ> m)"
  by (auto simp: empty_values_def ran_def dom_def)


section \<open>Encrypted options\<close>


text \<open>Bringing options up to date.\<close>

lemma reencrypted_options:
  assumes "ciphers_ok C" and "ring_ok C ring" and "kr_primary ring = Some k" and "length nonce = NONCE_LEN"
    and "list_all (\<lambda>s. is_str (as_string s)) (fst (secrets_mut opts))"
    and "options_reencrypt_all C [nonce] ring opts = (opts', Inr changed)"
    and "options_all_decryptable C ring opts"
  shows "list_all2 (\<lambda>s s'. case demalform s of
        Reference r \<Rightarrow> s' = Reference r
      | d \<Rightarrow> (\<exists>v' t. s' = Inline v' \<and> reveal C ring (as_string d) = Inr t \<and> reveal C ring v' = Inr t \<and> up_to_date C k t v'))
    (fst (secrets_mut opts)) (fst (secrets_mut opts'))
    \<and> snd (secrets_mut opts') = snd (secrets_mut opts)"
proof (cases rule: options_cases [of opts])
  case (Stored s v)
  obtain vs' where vs': "reencrypt_all C [nonce] ring False [v] = (vs', Inr changed)" and opts': "opts' = snd (secrets_mut opts) [Inline (hd vs')]"
    using assms(6) Stored(3) by (auto simp: options_reencrypt_all_def split: prod.splits)
  have str: "is_str v" using assms(5) Stored(1,2) by (auto simp: as_string_def)
  obtain t where t: "reveal C ring v = Inr t"
    using assms(7) Stored(3) by (auto simp: options_all_decryptable_def all_decryptable_def split: sum.splits)
  obtain v' where v': "vs' = [v']" "reveal C ring v' = Inr t" "up_to_date C k t v'"
    using reencrypt_all_keeps [OF assms(1-3) _ _ _ vs'] assms(4) str t by (auto simp: list_all2_Cons1)
  have "fst (secrets_mut opts') = [Inline v']" "snd (secrets_mut opts') = snd (secrets_mut opts)"
    using options_slots.get_put [of "[Inline v']" opts] options_slots.put_put [of "[Inline v']" opts] Stored(1)
    by (simp_all add: opts' v'(1))
  with Stored(1,2) v' t show ?thesis by (auto simp: demalform_def as_string_def)
qed (use assms(6) in \<open>auto simp: options_reencrypt_all_def demalform_def\<close>)

definition sample_vnc_options :: target_config_options where
  "sample_vnc_options = VncOptions \<lparr> vnc_host = ''h'', vnc_port = 5900, vnc_auth = VncPassword (Inline ''pw'') \<rparr>"

lemma sample_vnc_slots:
  "secrets_mut sample_vnc_options = ([Inline ''pw''],
     \<lambda>ps. VncOptions \<lparr> vnc_host = ''h'', vnc_port = 5900, vnc_auth = VncPassword (hd ps) \<rparr>)"
  by (simp add: sample_vnc_options_def secrets_mut_def slots_of_def vnc_secrets_mut_def)


end
