(* ===== verification/Key_Rotation.thy ===== *)
theory Key_Rotation
  imports Vault Target_Options Programs Tables
begin

text \<open>
  Rotation of the encryption key in a cluster (\<open>warpgate-core/src/credential_encryption.rs\<close>): every node
  advances the key of the cluster to its own by compare and swap, and once all live nodes
  have the key, brings the stored credentials up to date with it. Statements of several nodes and
  of administrators interleave. The lemmas show that only a node that knows the current key
  replaces it, that the swap loop ends, that nothing is rewritten before the cluster is ready, and that
  the rewriting keeps every credential; and that an edit made during the rewriting can be lost.
\<close>

section \<open>Tables\<close>

text \<open>The options of a target are stored as JSON, the key of an SSH client as its text.\<close>

record target_row =
  tr_id :: uuid
  tr_name :: string
  tr_options :: string

record ssh_key_row =
  kk_id :: uuid
  kk_label :: string
  kk_secret_key :: string

record secret_backend_row =
  sb_id :: uuid
  sb_name :: string
  sb_auth :: vault_auth_config

record parameters_row =
  encryption_key_fp :: "string option"
  retiring_key_fp :: "string option"
  ssh_host_key_ed25519 :: string
  ssh_host_key_rsa :: string

record node_row =
  nd_id :: uuid
  nd_last_seen :: timestamp
  nd_encryption_key_fingerprint :: "string option"

record key_db =
  kd_targets :: "target_row list"
  kd_keys :: "ssh_key_row list"
  kd_backends :: "secret_backend_row list"
  kd_params :: parameters_row
  kd_nodes :: "node_row list"
  kd_clock :: timestamp

text \<open>
  What a pass works with: the cipher functions, the keys of the node, the JSON reader and writer
  of target options, and the nonces drawn for each value it rewrites.
\<close>

datatype rewrite_slot = Of_Target uuid | Of_Key uuid | Of_Backend uuid | Of_Host_Ed25519 | Of_Host_Rsa

record rotation =
  ro_ciphers :: ciphers
  ro_ring :: keyring
  ro_from_value :: "string \<Rightarrow> target_config_options option"
  ro_to_value :: "target_config_options \<Rightarrow> string"
  ro_nonce :: "rewrite_slot \<Rightarrow> bytes"

datatype backfill_outcome = Settled | AwaitingCluster

datatype position = InSync | Behind

section \<open>The key of the cluster\<close>

definition own_fingerprint :: "rotation \<Rightarrow> string option" where
  "own_fingerprint R = map_option mk_fingerprint (kr_primary (ro_ring R))"

definition cas_key_state :: "string option \<Rightarrow> string \<Rightarrow> (key_db, bool) prog" where
  "cas_key_state current own =
     statement (\<lambda>db.
       if encryption_key_fp (kd_params db) = current
       then (db\<lparr> kd_params := (kd_params db)\<lparr> encryption_key_fp := Some own, retiring_key_fp := current \<rparr> \<rparr>, True)
       else (db, False))"

text \<open>The loop of \<open>advance_key_state\<close>, for a number of rounds: no result when they are used up.\<close>

fun advance_key_state :: "rotation \<Rightarrow> nat \<Rightarrow> (key_db, position option) prog" where
  "advance_key_state R 0 = Return None"
| "advance_key_state R (Suc n) =
     prog_bind (query (\<lambda>db. encryption_key_fp (kd_params db))) (\<lambda>current.
     case own_fingerprint R of
       None \<Rightarrow> Return (Some (case current of None \<Rightarrow> InSync | Some _ \<Rightarrow> Behind))
     | Some own \<Rightarrow>
         if current = Some own then Return (Some InSync)
         else if (case current of None \<Rightarrow> False | Some fp \<Rightarrow> \<not> keyring_contains (ro_ring R) fp)
         then Return (Some Behind)
         else prog_bind (cas_key_state current own) (\<lambda>won.
              if won then Return (Some InSync) else advance_key_state R n))"

section \<open>Values that cannot be read\<close>

definition parsed_options :: "rotation \<Rightarrow> target_row \<Rightarrow> target_config_options option" where
  "parsed_options R row = ro_from_value R (tr_options row)"

text \<open>The stored secrets of the other rows: a key that is a text of its own, and the secret of a login.\<close>

definition key_texts :: "string \<Rightarrow> string list" where
  "key_texts stored = (case inline_of (from_stored stored) of None \<Rightarrow> [] | Some v \<Rightarrow> [v])"

definition auth_secret :: "vault_auth_config \<Rightarrow> string option" where
  "auth_secret auth =
     (case auth of
        TokenAuth a \<Rightarrow> Some (vt_token a)
      | AppRoleAuth a \<Rightarrow> Some (va_secret_id a)
      | KubernetesAuth _ \<Rightarrow> None)"

definition auth_set_secret :: "string \<Rightarrow> vault_auth_config \<Rightarrow> vault_auth_config" where
  "auth_set_secret v auth =
     (case auth of
        TokenAuth a \<Rightarrow> TokenAuth (a\<lparr> vt_token := v \<rparr>)
      | AppRoleAuth a \<Rightarrow> AppRoleAuth (a\<lparr> va_secret_id := v \<rparr>)
      | KubernetesAuth a \<Rightarrow> KubernetesAuth a)"

definition auth_texts :: "vault_auth_config \<Rightarrow> string list" where
  "auth_texts auth = (case auth_secret auth of None \<Rightarrow> [] | Some v \<Rightarrow> [v])"

definition quoted :: "string \<Rightarrow> string \<Rightarrow> string" where
  "quoted kind name = kind @ '' '' @ [CHR 0x60] @ name @ [CHR 0x60]"

definition probe_undecryptable :: "rotation \<Rightarrow> (key_db, string list) prog" where
  "probe_undecryptable R =
     (let ok = all_decryptable (ro_ciphers R) (ro_ring R)
      in prog_bind (query kd_targets) (\<lambda>targets.
         prog_bind (query kd_keys) (\<lambda>keys.
         prog_bind (query kd_backends) (\<lambda>backends.
         prog_bind (query kd_params) (\<lambda>params.
         Return
           (map (\<lambda>t. quoted ''target'' (tr_name t))
              (filter (\<lambda>t. case parsed_options R t of
                           None \<Rightarrow> False
                         | Some opts \<Rightarrow> \<not> options_all_decryptable (ro_ciphers R) (ro_ring R) opts) targets)
            @ map (\<lambda>k. quoted ''SSH client key'' (kk_label k)) (filter (\<lambda>k. \<not> ok (key_texts (kk_secret_key k))) keys)
            @ map (\<lambda>b. quoted ''secret backend'' (sb_name b)) (filter (\<lambda>b. \<not> ok (auth_texts (sb_auth b))) backends)
            @ (if ok [ssh_host_key_ed25519 params] then [] else [''SSH host key (Ed25519)''])
            @ (if ok [ssh_host_key_rsa params] then [] else [''SSH host key (Rsa)''])))))))"

section \<open>Rewriting\<close>

fun prog_sum :: "'i list \<Rightarrow> ('i \<Rightarrow> ('s, nat) prog) \<Rightarrow> ('s, nat) prog" where
  "prog_sum [] body = Return 0"
| "prog_sum (i # is) body = prog_bind (body i) (\<lambda>m. prog_bind (prog_sum is body) (\<lambda>n. Return (m + n)))"

text \<open>The update of a row that may be gone by now: how many rows it hit.\<close>

definition update_unless_deleted ::
  "(key_db \<Rightarrow> 'r list) \<Rightarrow> ('r list \<Rightarrow> key_db \<Rightarrow> key_db) \<Rightarrow> ('r \<Rightarrow> uuid) \<Rightarrow> uuid \<Rightarrow> ('r \<Rightarrow> 'r) \<Rightarrow> (key_db, nat) prog" where
  "update_unless_deleted get put key i f =
     statement (\<lambda>db.
       case find_by key i (get db) of
         None \<Rightarrow> (db, 0)
       | Some _ \<Rightarrow> (put (update_many (\<lambda>r. key r = i) f (get db)) db, 1))"

definition rewrite_target :: "rotation \<Rightarrow> target_row \<Rightarrow> (key_db, nat) prog" where
  "rewrite_target R row =
     (case parsed_options R row of
        None \<Rightarrow> Return 0
      | Some opts \<Rightarrow>
          (case options_reencrypt_all (ro_ciphers R) [ro_nonce R (Of_Target (tr_id row))] (ro_ring R) opts of
             (opts, Inr True) \<Rightarrow>
               update_unless_deleted kd_targets (\<lambda>rows db. db\<lparr> kd_targets := rows \<rparr>) tr_id (tr_id row)
                 (\<lambda>r. r\<lparr> tr_options := ro_to_value R opts \<rparr>)
           | _ \<Rightarrow> Return 0))"

definition rewrite_key :: "rotation \<Rightarrow> ssh_key_row \<Rightarrow> (key_db, nat) prog" where
  "rewrite_key R row =
     (case reencrypt_all (ro_ciphers R) [ro_nonce R (Of_Key (kk_id row))] (ro_ring R) False (key_texts (kk_secret_key row)) of
        (v # _, Inr True) \<Rightarrow>
          update_unless_deleted kd_keys (\<lambda>rows db. db\<lparr> kd_keys := rows \<rparr>) kk_id (kk_id row)
            (\<lambda>r. r\<lparr> kk_secret_key := as_string (Inline v) \<rparr>)
      | _ \<Rightarrow> Return 0)"

definition rewrite_backend :: "rotation \<Rightarrow> secret_backend_row \<Rightarrow> (key_db, nat) prog" where
  "rewrite_backend R row =
     (case reencrypt_all (ro_ciphers R) [ro_nonce R (Of_Backend (sb_id row))] (ro_ring R) False (auth_texts (sb_auth row)) of
        (v # _, Inr True) \<Rightarrow>
          update_unless_deleted kd_backends (\<lambda>rows db. db\<lparr> kd_backends := rows \<rparr>) sb_id (sb_id row)
            (\<lambda>r. r\<lparr> sb_auth := auth_set_secret v (sb_auth row) \<rparr>)
      | _ \<Rightarrow> Return 0)"

text \<open>The value to set for a host key, if it changes.\<close>

definition rewritten_host_key :: "rotation \<Rightarrow> rewrite_slot \<Rightarrow> string \<Rightarrow> string option" where
  "rewritten_host_key R slot key =
     (case reencrypt_all (ro_ciphers R) [ro_nonce R slot] (ro_ring R) False [key] of
        (v # _, Inr True) \<Rightarrow> Some v
      | _ \<Rightarrow> None)"

definition rewrite_host_keys :: "rotation \<Rightarrow> (key_db, nat) prog" where
  "rewrite_host_keys R =
     prog_bind (query kd_params) (\<lambda>params.
       let ed = rewritten_host_key R Of_Host_Ed25519 (ssh_host_key_ed25519 params);
           rsa = rewritten_host_key R Of_Host_Rsa (ssh_host_key_rsa params);
           set = (\<lambda>new old. case new of None \<Rightarrow> old | Some v \<Rightarrow> v)
       in if ed = None \<and> rsa = None then Return 0
          else statement (\<lambda>db.
            (db\<lparr> kd_params := (kd_params db)\<lparr> ssh_host_key_ed25519 := set ed (ssh_host_key_ed25519 (kd_params db)),
                                           ssh_host_key_rsa := set rsa (ssh_host_key_rsa (kd_params db)) \<rparr> \<rparr>, 1)))"

definition rewrite_all :: "rotation \<Rightarrow> (key_db, nat) prog" where
  "rewrite_all R =
     prog_bind (query kd_targets) (\<lambda>targets.
     prog_bind (prog_sum targets (rewrite_target R)) (\<lambda>a.
     prog_bind (query kd_keys) (\<lambda>keys.
     prog_bind (prog_sum keys (rewrite_key R)) (\<lambda>b.
     prog_bind (query kd_backends) (\<lambda>backends.
     prog_bind (prog_sum backends (rewrite_backend R)) (\<lambda>c.
     prog_bind (rewrite_host_keys R) (\<lambda>d. Return (a + b + c + d))))))))"

section \<open>Bringing the stored credentials in line\<close>

definition HEARTBEAT_TIMEOUT :: int where "HEARTBEAT_TIMEOUT = seconds 30"

definition alive_nodes :: "(key_db, node_row list) prog" where
  "alive_nodes =
     prog_bind (query kd_clock) (\<lambda>now.
     query (\<lambda>db. filter (\<lambda>n. now - HEARTBEAT_TIMEOUT \<le> nd_last_seen n) (kd_nodes db)))"

definition clear_retiring_key :: "string \<Rightarrow> (key_db, unit) prog" where
  "clear_retiring_key current =
     statement (\<lambda>db.
       (if encryption_key_fp (kd_params db) = Some current \<and> retiring_key_fp (kd_params db) \<noteq> None
        then db\<lparr> kd_params := (kd_params db)\<lparr> retiring_key_fp := None \<rparr> \<rparr> else db, ()))"

definition backfill_credential_encryption :: "rotation \<Rightarrow> nat \<Rightarrow> (key_db, backfill_outcome option) prog" where
  "backfill_credential_encryption R rounds =
     prog_bind (advance_key_state R rounds) (\<lambda>position.
     case position of
       None \<Rightarrow> Return None
     | Some position \<Rightarrow>
         prog_bind (probe_undecryptable R) (\<lambda>undecryptable.
         if position = Behind then Return (Some Settled)
         else case own_fingerprint R of
           None \<Rightarrow> Return (Some Settled)
         | Some current \<Rightarrow>
             prog_bind alive_nodes (\<lambda>nodes.
             let stragglers = filter (\<lambda>n. nd_encryption_key_fingerprint n \<noteq> Some current) nodes
             in if stragglers \<noteq> [] then Return (Some AwaitingCluster)
                else prog_bind (rewrite_all R) (\<lambda>_.
                     if undecryptable = []
                     then prog_bind (clear_retiring_key current) (\<lambda>_. Return (Some Settled))
                     else Return (Some Settled)))))"

section \<open>Who replaces the key of the cluster\<close>

definition key_state :: "key_db \<Rightarrow> string option \<times> string option" where
  "key_state db = (encryption_key_fp (kd_params db), retiring_key_fp (kd_params db))"

text \<open>
  A step of the key state: a node that knows the current key, or finds none, puts its own and the
  current one becomes the retiring one; or the node of the current key clears the retiring one.
\<close>

inductive key_state_step :: "rotation set \<Rightarrow> string option \<times> string option \<Rightarrow> string option \<times> string option \<Rightarrow> bool"
  for Rs :: "rotation set" where
  take_over: "R \<in> Rs \<Longrightarrow> own_fingerprint R = Some own \<Longrightarrow> c \<noteq> Some own
    \<Longrightarrow> c = None \<or> keyring_contains (ro_ring R) (the c) \<Longrightarrow> key_state_step Rs (c, r) (Some own, c)"
| retire: "R \<in> Rs \<Longrightarrow> own_fingerprint R = Some own \<Longrightarrow> key_state_step Rs (Some own, r) (Some own, None)"

definition key_evolves :: "rotation set \<Rightarrow> key_db \<Rightarrow> key_db \<Rightarrow> bool" where
  "key_evolves Rs db db' \<longleftrightarrow> (key_state_step Rs)\<^sup>*\<^sup>* (key_state db) (key_state db')"

interpretation key_evolution: guarantee "key_evolves Rs" for Rs
  by unfold_locales (auto simp: key_evolves_def)

lemma key_evolves_same: "kd_params db' = kd_params db \<Longrightarrow> key_evolves Rs db db'"
  by (simp add: key_evolves_def key_state_def)

lemma cas_obeys:
  assumes "R \<in> Rs" and "own_fingerprint R = Some own" and "c \<noteq> Some own"
    and "c = None \<or> keyring_contains (ro_ring R) (the c)"
  shows "obeys (key_evolves Rs) (cas_key_state c own)"
proof -
  have "key_evolves Rs db (db\<lparr> kd_params := (kd_params db)\<lparr> encryption_key_fp := Some own, retiring_key_fp := c \<rparr> \<rparr>)"
    if "encryption_key_fp (kd_params db) = c" for db :: key_db
    using key_state_step.take_over [OF assms, of "retiring_key_fp (kd_params db)"] that
    by (auto simp: key_evolves_def key_state_def)
  then show ?thesis
    unfolding cas_key_state_def by (intro obeys_statement) (simp add: key_evolution.G_refl)
qed

lemma advance_obeys: "R \<in> Rs \<Longrightarrow> obeys (key_evolves Rs) (advance_key_state R n)"
proof (induction n)
  case (Suc n)
  then show ?case
    by (auto simp del: obeys.simps intro!: obeys_bind obeys_Return cas_obeys key_evolution.obeys_query split: option.split)
qed simp

lemma prog_sum_obeys [obeys_rules]: "(\<And>i. obeys G (body i)) \<Longrightarrow> obeys G (prog_sum is body)"
  by (induction "is") (auto intro!: obeys_rules)

lemma update_unless_deleted_obeys:
  assumes "\<And>rows db. kd_params (put rows db) = kd_params db"
  shows "obeys (key_evolves Rs) (update_unless_deleted get put key i f)"
  unfolding update_unless_deleted_def
  by (intro obeys_statement key_evolves_same) (simp add: assms split: option.split)

lemma rewrite_obeys:
  "obeys (key_evolves Rs) (rewrite_target R t)"
  "obeys (key_evolves Rs) (rewrite_key R k)"
  "obeys (key_evolves Rs) (rewrite_backend R b)"
  by (auto simp: rewrite_target_def rewrite_key_def rewrite_backend_def
      split: option.split prod.split sum.split bool.split list.split intro!: update_unless_deleted_obeys)

lemma rewrite_host_keys_obeys: "obeys (key_evolves Rs) (rewrite_host_keys R)"
  unfolding rewrite_host_keys_def Let_def
  by (intro obeys_rules key_evolution.obeys_query) (simp add: key_evolves_def key_state_def)

lemma backfill_obeys:
  assumes "R \<in> Rs"
  shows "obeys (key_evolves Rs) (backfill_credential_encryption R n)"
proof -
  have "obeys (key_evolves Rs) (clear_retiring_key own)" if "own_fingerprint R = Some own" for own
  proof -
    have "key_evolves Rs db (db\<lparr> kd_params := (kd_params db)\<lparr> retiring_key_fp := None \<rparr> \<rparr>)"
      if "encryption_key_fp (kd_params db) = Some own" for db :: key_db
      using key_state_step.retire [OF assms \<open>own_fingerprint R = Some own\<close>, of "retiring_key_fp (kd_params db)"] that
      by (auto simp: key_evolves_def key_state_def)
    then show ?thesis
      unfolding clear_retiring_key_def by (intro obeys_statement) (simp add: key_evolution.G_refl)
  qed
  then have clear: "obeys (key_evolves Rs) (case own_fingerprint R of None \<Rightarrow> p | Some own \<Rightarrow> f own)"
    if "obeys (key_evolves Rs) p" "\<And>own. obeys (key_evolves Rs) (clear_retiring_key own) \<Longrightarrow> obeys (key_evolves Rs) (f own)"
    for p :: "(key_db, backfill_outcome option) prog" and f using that by (cases "own_fingerprint R") auto
  show ?thesis
    unfolding backfill_credential_encryption_def rewrite_all_def probe_undecryptable_def alive_nodes_def Let_def
    by (intro obeys_bind obeys_case_option [where m = "_ :: position option"] obeys_if obeys_Return prog_sum_obeys clear
        advance_obeys assms key_evolution.obeys_query rewrite_obeys rewrite_host_keys_obeys)
qed

text \<open>Without a node that knows the current key, the key stays.\<close>

lemma key_chain_unknown:
  assumes "(key_state_step Rs)\<^sup>*\<^sup>* (Some c, r) p" and "\<And>R. R \<in> Rs \<Longrightarrow> \<not> keyring_contains (ro_ring R) c"
  shows "p = (Some c, r)"
  using assms(1)
proof (induction rule: rtranclp_induct)
  case (step p p')
  have "keyring_contains (ro_ring R) c" if "own_fingerprint R = Some c" for R
    using that by (auto simp: own_fingerprint_def keyring_contains_def keyring_keys_def list_ex_iff)
  with step assms(2) show ?case by (auto elim!: key_state_step.cases)
qed simp

lemma key_chain_set:
  assumes "(key_state_step Rs)\<^sup>*\<^sup>* p p'" and "fst p \<noteq> None"
  shows "fst p' \<noteq> None"
  using assms by (induction rule: rtranclp_induct) (auto elim!: key_state_step.cases)

text \<open>
  C14: However the nodes of a cluster interleave, each with the keys of its own environment, the
  cluster's key only moves along a chain: a node replaces the current key by its own only if the
  current key is one of its keys or none is set, and the replaced key becomes the retiring one. So a key
  once set is never lost, and if no running node has the current key, the key state stays as it is:
  a node with other keys cannot take the cluster over.
\<close>

theorem cluster_key_moves_by_those_who_know:
  assumes "interleave (map (\<lambda>(R, rounds). backfill_credential_encryption R rounds) nodes, db) (ps, db')"
  shows "(key_state_step (fst ` set nodes))\<^sup>*\<^sup>* (key_state db) (key_state db')
    \<and> (encryption_key_fp (kd_params db) \<noteq> None \<longrightarrow> encryption_key_fp (kd_params db') \<noteq> None)
    \<and> (\<forall>c. encryption_key_fp (kd_params db) = Some c
          \<and> (\<forall>R\<in>fst ` set nodes. \<not> keyring_contains (ro_ring R) c) \<longrightarrow> key_state db' = key_state db)"
proof -
  have "\<forall>p\<in>set (map (\<lambda>(R, rounds). backfill_credential_encryption R rounds) nodes). obeys (key_evolves (fst ` set nodes)) p"
    by (force intro: backfill_obeys)
  from key_evolution.interleave_obeys [OF assms this]
  have chain: "(key_state_step (fst ` set nodes))\<^sup>*\<^sup>* (key_state db) (key_state db')" by (simp add: key_evolves_def)
  have "key_state db' = key_state db"
    if "encryption_key_fp (kd_params db) = Some c" "\<forall>R\<in>fst ` set nodes. \<not> keyring_contains (ro_ring R) c" for c
    using key_chain_unknown [of "fst ` set nodes" c "retiring_key_fp (kd_params db)" "key_state db'"] chain that
    by (simp add: key_state_def)
  with chain key_chain_set [OF chain] show ?thesis by (simp add: key_state_def)
qed

section \<open>The loop ends\<close>

text \<open>One round of the loop: without interference before the swap, the swap succeeds.\<close>

lemma advance_round:
  assumes "own_fingerprint R = Some own"
    and "run_in (advance_key_state R (Suc n)) envs db = (envs', trace, db', pos)" and "pos = None"
  shows "2 \<le> length envs \<and> (\<exists>db1 trace1. run_in (advance_key_state R n) (drop 2 envs) db1 = (envs', trace1, db', pos))"
proof (cases "2 \<le> length envs")
  case True
  then obtain e1 e2 es where "envs = e1 # e2 # es" by (cases envs; cases "tl envs") auto
  with assms show ?thesis
    by (auto simp: query_def cas_key_state_def statement_def Let_def split: if_splits option.splits prod.splits)
next
  case False
  then have "tl envs = []" by (cases envs; cases "tl envs") auto
  with assms show ?thesis
    by (auto simp: query_def cas_key_state_def statement_def Let_def split: if_splits option.splits prod.splits)
qed

text \<open>
  C30: The compare and swap loop that advances the cluster's key always ends. Every round that
  has to be repeated has used up an interference of another node right before its swap, so with
  \<open>n\<close> interferences the loop is over, with a result, after at most \<open>n div 2 + 1\<close> rounds.
\<close>

theorem key_loop_ends:
  assumes "length envs div 2 < rounds" and "run_in (advance_key_state R rounds) envs db = (envs', trace, db', pos)"
  shows "\<exists>position. pos = Some position"
  using assms
proof (induction rounds arbitrary: envs db trace)
  case (Suc n)
  show ?case
  proof (cases pos)
    case None
    have "own_fingerprint R \<noteq> None"
    proof
      assume "own_fingerprint R = None"
      with Suc.prems(2) None show False by (simp add: query_def Let_def)
    qed
    then obtain own where own: "own_fingerprint R = Some own" by blast
    from advance_round [OF own Suc.prems(2) None] obtain db1 trace1 where two: "2 \<le> length envs"
      and rest: "run_in (advance_key_state R n) (drop 2 envs) db1 = (envs', trace1, db', pos)" by blast
    have "length (drop 2 envs) div 2 < n" using Suc.prems(1) two by simp
    from Suc.IH [OF this rest] show ?thesis .
  qed simp
qed simp

section \<open>Rewriting every row\<close>

text \<open>A table of the database: what its reading and writing promise.\<close>

locale key_table =
  fixes get :: "key_db \<Rightarrow> 'r list" and put :: "'r list \<Rightarrow> key_db \<Rightarrow> key_db" and key :: "'r \<Rightarrow> uuid"
  assumes get_put [simp]: "get (put rows db) = rows"
    and put_put [simp]: "put rows' (put rows db) = put rows' db"
    and put_get [simp]: "put (get db) db = db"
begin

text \<open>A pass over all rows, each updated by its key as its content asks for, updates exactly those rows.\<close>

lemma run_pass:
  assumes body: "\<And>row. body row = (case upd row of None \<Rightarrow> Return 0 | Some f \<Rightarrow> update_unless_deleted get put key (key row) f)"
    and kept: "\<And>row f r. upd row = Some f \<Longrightarrow> key (f r) = key r"
    and "get db = ahead @ rows" and "unique_keys key (ahead @ rows)"
  shows "fst (run (prog_sum rows body) db) = put (ahead @ map (\<lambda>r. case upd r of None \<Rightarrow> r | Some f \<Rightarrow> f r) rows) db"
  using assms(3,4)
proof (induction rows arbitrary: ahead db)
  case Nil
  then show ?case using put_get [of db] by simp
next
  case (Cons row rows)
  define h where "h r = (case upd r of None \<Rightarrow> r | Some f \<Rightarrow> f r)" for r
  have step: "fst (run (body row) db) = put (ahead @ h row # rows) db"
  proof (cases "upd row")
    case None
    then show ?thesis using Cons.prems(1) put_get [of db] by (simp add: body h_def)
  next
    case (Some f)
    have "find_by key (key row) (ahead @ row # rows) = Some row"
      by (rule find_by_unique [OF Cons.prems(2)]) simp
    moreover have "update_many (\<lambda>r. key r = key row) f (ahead @ row # rows) = ahead @ f row # rows"
    proof -
      have "update_many (\<lambda>r. key r = key row) f ahead = ahead" "update_many (\<lambda>r. key r = key row) f rows = rows"
        using Cons.prems(2) by (auto simp: unique_keys_def intro!: update_many_none) (metis image_eqI)+
      then show ?thesis by simp
    qed
    ultimately show ?thesis using Some Cons.prems(1) by (simp add: body update_unless_deleted_def h_def del: find_by_append)
  qed
  have key: "key (h row) = key row" using kept by (simp add: h_def split: option.split)
  have "fst (run (prog_sum rows body) (put (ahead @ h row # rows) db)) = put ((ahead @ [h row]) @ map h rows) (put (ahead @ h row # rows) db)"
    unfolding h_def [abs_def]
    by (rule Cons.IH) (use Cons.prems(2) key in \<open>auto simp: unique_keys_def h_def\<close>)
  moreover have "fst (run (prog_sum (row # rows) body) db) = fst (run (prog_sum rows body) (fst (run (body row) db)))"
    by (simp add: run_bind split: prod.split)
  ultimately show ?case using step by (simp add: h_def [abs_def])
qed

end

interpretation targets_table: key_table kd_targets "\<lambda>rows db. db\<lparr> kd_targets := rows \<rparr>" tr_id
  by unfold_locales simp_all

interpretation keys_table: key_table kd_keys "\<lambda>rows db. db\<lparr> kd_keys := rows \<rparr>" kk_id
  by unfold_locales simp_all

interpretation backends_table: key_table kd_backends "\<lambda>rows db. db\<lparr> kd_backends := rows \<rparr>" sb_id
  by unfold_locales simp_all

section \<open>What the rewriting keeps\<close>

text \<open>
  The setting of a pass: sound ciphers, keys as the environment gives them with a current one,
  nonces of the right length, and options that, read from JSON and with other credentials put in, are read back from
  their own JSON, every credential going through its text.
\<close>

definition rotation_ok :: "rotation \<Rightarrow> master_key \<Rightarrow> bool" where
  "rotation_ok R k \<longleftrightarrow>
     ciphers_ok (ro_ciphers R) \<and> ring_ok (ro_ciphers R) (ro_ring R) \<and> kr_primary (ro_ring R) = Some k
   \<and> (\<forall>slot. length (ro_nonce R slot) = NONCE_LEN)
   \<and> (\<forall>n p. length n = NONCE_LEN \<longrightarrow> seal (ro_ciphers R) (mk_key k) n p \<noteq> None)
   \<and> (\<forall>text opts ss. ro_from_value R text = Some opts \<and> length ss = length (fst (secrets_mut opts)) \<longrightarrow>
        ro_from_value R (ro_to_value R (snd (secrets_mut opts) ss))
        = Some (snd (secrets_mut opts) (map (from_stored \<circ> as_string) ss)))"

text \<open>One value, brought up to date.\<close>

definition renewed :: "rotation \<Rightarrow> master_key \<Rightarrow> string \<Rightarrow> string \<Rightarrow> bool" where
  "renewed R k v v' \<longleftrightarrow> (\<exists>s. reveal (ro_ciphers R) (ro_ring R) v = Inr s \<and> up_to_date (ro_ciphers R) k s v')"

lemma reencrypt_one:
  assumes "rotation_ok R k" and "is_str v" and "all_decryptable (ro_ciphers R) (ro_ring R) [v]"
  shows "\<exists>v'. reencrypt_all (ro_ciphers R) [ro_nonce R slot] (ro_ring R) False [v] = ([v'], Inr (v' \<noteq> v)) \<and> renewed R k v v'"
proof -
  let ?C = "ro_ciphers R" and ?ring = "ro_ring R"
  have ok: "ciphers_ok ?C" "ring_ok ?C ?ring" "kr_primary ?ring = Some k" "length (ro_nonce R slot) = NONCE_LEN"
    using assms(1) by (simp_all add: rotation_ok_def)
  obtain s where s: "reveal ?C ?ring v = Inr s"
    using assms(3) by (auto simp: all_decryptable_def split: sum.splits)
  have seal: "\<exists>c. seal ?C (mk_key k) (ro_nonce R slot) p = Some c" for p
    using assms(1) unfolding rotation_ok_def by blast
  have "key_encrypt ?C (ro_nonce R slot) k p \<noteq> Inl e" for p e
    using seal [of "as_bytes p"] by (auto simp: key_encrypt_def)
  with s ok(3) have "maybe_reencrypt ?C (ro_nonce R slot) ?ring v \<noteq> Inl e" for e
    by (auto simp: maybe_reencrypt_def keyring_reencrypt_def reveal_def split: option.splits sum.splits)
  then obtain v' where v': "maybe_reencrypt ?C (ro_nonce R slot) ?ring v = Inr (v', v' \<noteq> v)"
    by (cases "keyring_reencrypt ?C (ro_nonce R slot) ?ring v") (auto simp: maybe_reencrypt_def)
  with maybe_reencrypt_keeps [OF ok assms(2) s v'] s show ?thesis by (auto simp: renewed_def up_to_date_def)
qed

lemma renewed_stored: "renewed R k v v' \<Longrightarrow> from_stored v' = Inline v'"
proof -
  assume "renewed R k v v'"
  then obtain p where "envelope_parts (ro_ciphers R) v' = Some p" by (auto simp: renewed_def up_to_date_def)
  then obtain rest where "v' = KEY_PREFIX @ rest"
    by (auto simp: envelope_parts_def bind_eq_Some_conv dest: strip_prefix_SomeD)
  then have "\<not> starts_with REFERENCE_SCHEME v'"
    by (simp add: starts_with_def KEY_PREFIX_def REFERENCE_SCHEME_def)
  then show ?thesis by (simp add: from_stored_cases)
qed

text \<open>The texts stored in a row of each table.\<close>

definition target_texts :: "rotation \<Rightarrow> target_row \<Rightarrow> string list" where
  "target_texts R row = (case parsed_options R row of None \<Rightarrow> [] | Some opts \<Rightarrow> fst (stored_secrets_mut opts))"

definition target_update :: "rotation \<Rightarrow> target_row \<Rightarrow> (target_row \<Rightarrow> target_row) option" where
  "target_update R row =
     (case parsed_options R row of
        None \<Rightarrow> None
      | Some opts \<Rightarrow>
          (case options_reencrypt_all (ro_ciphers R) [ro_nonce R (Of_Target (tr_id row))] (ro_ring R) opts of
             (opts, Inr True) \<Rightarrow> Some (\<lambda>r. r\<lparr> tr_options := ro_to_value R opts \<rparr>)
           | _ \<Rightarrow> None))"

definition key_update :: "rotation \<Rightarrow> ssh_key_row \<Rightarrow> (ssh_key_row \<Rightarrow> ssh_key_row) option" where
  "key_update R row =
     (case reencrypt_all (ro_ciphers R) [ro_nonce R (Of_Key (kk_id row))] (ro_ring R) False (key_texts (kk_secret_key row)) of
        (v # _, Inr True) \<Rightarrow> Some (\<lambda>r. r\<lparr> kk_secret_key := v \<rparr>)
      | _ \<Rightarrow> None)"

definition backend_update :: "rotation \<Rightarrow> secret_backend_row \<Rightarrow> (secret_backend_row \<Rightarrow> secret_backend_row) option" where
  "backend_update R row =
     (case reencrypt_all (ro_ciphers R) [ro_nonce R (Of_Backend (sb_id row))] (ro_ring R) False (auth_texts (sb_auth row)) of
        (v # _, Inr True) \<Rightarrow> Some (\<lambda>r. r\<lparr> sb_auth := auth_set_secret v (sb_auth row) \<rparr>)
      | _ \<Rightarrow> None)"

definition updated :: "('r \<Rightarrow> ('r \<Rightarrow> 'r) option) \<Rightarrow> 'r \<Rightarrow> 'r" where
  "updated upd r = (case upd r of None \<Rightarrow> r | Some f \<Rightarrow> f r)"

lemma target_renewed:
  assumes "rotation_ok R k" and "list_all is_str (target_texts R row)"
    and "all_decryptable (ro_ciphers R) (ro_ring R) (target_texts R row)"
  shows "list_all2 (renewed R k) (target_texts R row) (target_texts R (updated (target_update R) row))"
proof (cases "parsed_options R row")
  case None
  then show ?thesis by (simp add: target_texts_def updated_def target_update_def)
next
  case (Some opts)
  show ?thesis
  proof (cases rule: options_cases [of opts])
    case (Stored s v)
    let ?slot = "Of_Target (tr_id row)"
    have "is_str v" "all_decryptable (ro_ciphers R) (ro_ring R) [v]"
      using assms(2,3) Some Stored(3) by (simp_all add: target_texts_def)
    from reencrypt_one [OF assms(1) this, of ?slot] obtain v' where
      v': "reencrypt_all (ro_ciphers R) [ro_nonce R ?slot] (ro_ring R) False [v] = ([v'], Inr (v' \<noteq> v))" and new: "renewed R k v v'"
      by blast
    define opts' where "opts' = snd (secrets_mut opts) [Inline v']"
    have re: "options_reencrypt_all (ro_ciphers R) [ro_nonce R ?slot] (ro_ring R) opts = (opts', Inr (v' \<noteq> v))"
      using v' Stored(3) by (simp add: options_reencrypt_all_def opts'_def)
    have slots: "fst (secrets_mut opts') = [Inline v']" "snd (secrets_mut opts') = snd (secrets_mut opts)"
      using options_slots.get_put [of "[Inline v']" opts] options_slots.put_put [of "[Inline v']" opts] Stored(1)
      by (simp_all add: opts'_def)
    have parsed: "ro_from_value R (ro_to_value R opts') = Some opts'"
    proof -
      have "ro_from_value R (tr_options row) = Some opts" using Some by (simp add: parsed_options_def)
      then have "ro_from_value R (ro_to_value R (snd (secrets_mut opts) [Inline v']))
          = Some (snd (secrets_mut opts) (map (from_stored \<circ> as_string) [Inline v']))"
        using assms(1) Stored(1) unfolding rotation_ok_def by (metis length_Cons list.size(3))
      then show ?thesis using renewed_stored [OF new] by (simp add: opts'_def as_string_def)
    qed
    have "fst (stored_secrets_mut opts') = [v']"
      using slots(1) stored_secrets_text [of opts' "Inline v'" v'] by (simp add: demalform_def)
    with parsed new re Some Stored(3) show ?thesis
      by (cases "v' = v") (simp_all add: target_texts_def updated_def target_update_def parsed_options_def)
  qed (use Some in \<open>simp_all add: target_texts_def updated_def target_update_def options_reencrypt_all_def\<close>)
qed

lemma key_renewed:
  assumes "rotation_ok R k" and "list_all is_str (key_texts (kk_secret_key row))"
    and "all_decryptable (ro_ciphers R) (ro_ring R) (key_texts (kk_secret_key row))"
  shows "list_all2 (renewed R k) (key_texts (kk_secret_key row)) (key_texts (kk_secret_key (updated (key_update R) row)))"
proof (cases "inline_of (from_stored (kk_secret_key row))")
  case None
  then show ?thesis by (simp add: key_texts_def updated_def key_update_def)
next
  case (Some v)
  then have texts: "key_texts (kk_secret_key row) = [v]" by (simp add: key_texts_def)
  with assms obtain v' where
    v': "reencrypt_all (ro_ciphers R) [ro_nonce R (Of_Key (kk_id row))] (ro_ring R) False [v] = ([v'], Inr (v' \<noteq> v))"
    and new: "renewed R k v v'"
    using reencrypt_one [OF assms(1), of v "Of_Key (kk_id row)"] by auto
  have "key_texts v' = [v']" by (simp add: key_texts_def renewed_stored [OF new] inline_of_def)
  with texts v' new show ?thesis by (cases "v' = v") (simp_all add: updated_def key_update_def)
qed

lemma backend_renewed:
  assumes "rotation_ok R k" and "list_all is_str (auth_texts (sb_auth row))"
    and "all_decryptable (ro_ciphers R) (ro_ring R) (auth_texts (sb_auth row))"
  shows "list_all2 (renewed R k) (auth_texts (sb_auth row)) (auth_texts (sb_auth (updated (backend_update R) row)))"
proof (cases "auth_secret (sb_auth row)")
  case None
  then show ?thesis by (simp add: auth_texts_def updated_def backend_update_def)
next
  case (Some v)
  then have texts: "auth_texts (sb_auth row) = [v]" by (simp add: auth_texts_def)
  with assms obtain v' where
    v': "reencrypt_all (ro_ciphers R) [ro_nonce R (Of_Backend (sb_id row))] (ro_ring R) False [v] = ([v'], Inr (v' \<noteq> v))"
    and new: "renewed R k v v'"
    using reencrypt_one [OF assms(1), of v "Of_Backend (sb_id row)"] by auto
  have "auth_texts (auth_set_secret v' (sb_auth row)) = [v']"
    using Some by (auto simp: auth_texts_def auth_secret_def auth_set_secret_def split: vault_auth_config.splits)
  with texts v' new show ?thesis by (cases "v' = v") (simp_all add: updated_def backend_update_def)
qed

text \<open>The rewriting of all tables, as one function.\<close>

definition rewritten_params :: "rotation \<Rightarrow> parameters_row \<Rightarrow> parameters_row" where
  "rewritten_params R p =
     p\<lparr> ssh_host_key_ed25519 := (case rewritten_host_key R Of_Host_Ed25519 (ssh_host_key_ed25519 p) of
          None \<Rightarrow> ssh_host_key_ed25519 p | Some v \<Rightarrow> v),
        ssh_host_key_rsa := (case rewritten_host_key R Of_Host_Rsa (ssh_host_key_rsa p) of
          None \<Rightarrow> ssh_host_key_rsa p | Some v \<Rightarrow> v) \<rparr>"

definition rewritten_db :: "rotation \<Rightarrow> key_db \<Rightarrow> key_db" where
  "rewritten_db R db =
     db\<lparr> kd_targets := map (updated (target_update R)) (kd_targets db),
         kd_keys := map (updated (key_update R)) (kd_keys db),
         kd_backends := map (updated (backend_update R)) (kd_backends db),
         kd_params := rewritten_params R (kd_params db) \<rparr>"

definition keyed :: "key_db \<Rightarrow> bool" where
  "keyed db \<longleftrightarrow> unique_keys tr_id (kd_targets db) \<and> unique_keys kk_id (kd_keys db) \<and> unique_keys sb_id (kd_backends db)"

lemma run_rewrite_targets:
  assumes "unique_keys tr_id (kd_targets db)"
  shows "fst (run (prog_sum (kd_targets db) (rewrite_target R)) db) = db\<lparr> kd_targets := map (updated (target_update R)) (kd_targets db) \<rparr>"
proof -
  have "rewrite_target R row = (case target_update R row of None \<Rightarrow> Return 0
      | Some f \<Rightarrow> update_unless_deleted kd_targets (\<lambda>rows db. db\<lparr> kd_targets := rows \<rparr>) tr_id (tr_id row) f)" for row
    by (auto simp: rewrite_target_def target_update_def split: option.split sum.split prod.split bool.split)
  moreover have "tr_id (f r) = tr_id r" if "target_update R row = Some f" for row f r
    using that by (auto simp: target_update_def split: option.splits sum.splits prod.splits bool.splits)
  ultimately show ?thesis
    using targets_table.run_pass [of "rewrite_target R" "target_update R" db "[]" "kd_targets db"] assms
    by (simp add: updated_def [abs_def])
qed

lemma run_rewrite_keys:
  assumes "unique_keys kk_id (kd_keys db)"
  shows "fst (run (prog_sum (kd_keys db) (rewrite_key R)) db) = db\<lparr> kd_keys := map (updated (key_update R)) (kd_keys db) \<rparr>"
proof -
  have "rewrite_key R row = (case key_update R row of None \<Rightarrow> Return 0
      | Some f \<Rightarrow> update_unless_deleted kd_keys (\<lambda>rows db. db\<lparr> kd_keys := rows \<rparr>) kk_id (kk_id row) f)" for row
    by (auto simp: rewrite_key_def key_update_def as_string_def split: list.split sum.split prod.split bool.split)
  moreover have "kk_id (f r) = kk_id r" if "key_update R row = Some f" for row f r
    using that by (auto simp: key_update_def split: list.splits sum.splits prod.splits bool.splits)
  ultimately show ?thesis
    using keys_table.run_pass [of "rewrite_key R" "key_update R" db "[]" "kd_keys db"] assms
    by (simp add: updated_def [abs_def])
qed

lemma run_rewrite_backends:
  assumes "unique_keys sb_id (kd_backends db)"
  shows "fst (run (prog_sum (kd_backends db) (rewrite_backend R)) db) = db\<lparr> kd_backends := map (updated (backend_update R)) (kd_backends db) \<rparr>"
proof -
  have "rewrite_backend R row = (case backend_update R row of None \<Rightarrow> Return 0
      | Some f \<Rightarrow> update_unless_deleted kd_backends (\<lambda>rows db. db\<lparr> kd_backends := rows \<rparr>) sb_id (sb_id row) f)" for row
    by (auto simp: rewrite_backend_def backend_update_def split: list.split sum.split prod.split bool.split)
  moreover have "sb_id (f r) = sb_id r" if "backend_update R row = Some f" for row f r
    using that by (auto simp: backend_update_def split: list.splits sum.splits prod.splits bool.splits)
  ultimately show ?thesis
    using backends_table.run_pass [of "rewrite_backend R" "backend_update R" db "[]" "kd_backends db"] assms
    by (simp add: updated_def [abs_def])
qed

lemma run_rewrite_host_keys: "fst (run (rewrite_host_keys R) db) = db\<lparr> kd_params := rewritten_params R (kd_params db) \<rparr>"
  by (auto simp: rewrite_host_keys_def run_bind Let_def rewritten_params_def)

lemma run_rewrite_all:
  assumes "keyed db"
  shows "fst (run (rewrite_all R) db) = rewritten_db R db"
proof -
  define d1 where "d1 = db\<lparr> kd_targets := map (updated (target_update R)) (kd_targets db) \<rparr>"
  define d2 where "d2 = d1\<lparr> kd_keys := map (updated (key_update R)) (kd_keys d1) \<rparr>"
  define d3 where "d3 = d2\<lparr> kd_backends := map (updated (backend_update R)) (kd_backends d2) \<rparr>"
  obtain a b c d where
    "run (prog_sum (kd_targets db) (rewrite_target R)) db = (d1, a)"
    "run (prog_sum (kd_keys d1) (rewrite_key R)) d1 = (d2, b)"
    "run (prog_sum (kd_backends d2) (rewrite_backend R)) d2 = (d3, c)"
    "run (rewrite_host_keys R) d3 = (d3\<lparr> kd_params := rewritten_params R (kd_params d3) \<rparr>, d)"
    using assms run_rewrite_targets [of db R] run_rewrite_keys [of d1 R] run_rewrite_backends [of d2 R]
      run_rewrite_host_keys [of R d3]
    by (simp add: keyed_def d1_def d2_def d3_def prod_eq_iff)
  then show ?thesis by (simp add: rewrite_all_def run_bind) (simp add: d1_def d2_def d3_def rewritten_db_def)
qed

text \<open>All the texts of stored secrets in the database, and that the rewriting renews them.\<close>

definition db_texts :: "rotation \<Rightarrow> key_db \<Rightarrow> string list" where
  "db_texts R db =
     concat (map (target_texts R) (kd_targets db))
   @ concat (map (\<lambda>row. key_texts (kk_secret_key row)) (kd_keys db))
   @ concat (map (\<lambda>row. auth_texts (sb_auth row)) (kd_backends db))
   @ [ssh_host_key_ed25519 (kd_params db), ssh_host_key_rsa (kd_params db)]"

lemma list_all2_concat_map:
  "(\<And>x. x \<in> set xs \<Longrightarrow> list_all2 P (f x) (f (g x))) \<Longrightarrow> list_all2 P (concat (map f xs)) (concat (map f (map g xs)))"
  by (induction xs) (auto intro: list_all2_appendI)

lemma all_decryptable_append [simp]:
  "all_decryptable C ring (xs @ ys) \<longleftrightarrow> all_decryptable C ring xs \<and> all_decryptable C ring ys"
  "all_decryptable C ring (concat xss) \<longleftrightarrow> (\<forall>xs\<in>set xss. all_decryptable C ring xs)"
  by (auto simp: all_decryptable_def list_all_iff)

lemma host_key_renewed:
  assumes "rotation_ok R k" and "is_str v" and "all_decryptable (ro_ciphers R) (ro_ring R) [v]"
  shows "renewed R k v (case rewritten_host_key R slot v of None \<Rightarrow> v | Some v' \<Rightarrow> v')"
proof -
  from reencrypt_one [OF assms, of slot] obtain v' where
    "reencrypt_all (ro_ciphers R) [ro_nonce R slot] (ro_ring R) False [v] = ([v'], Inr (v' \<noteq> v))" "renewed R k v v'" by blast
  then show ?thesis by (cases "v' = v") (simp_all add: rewritten_host_key_def)
qed

lemma rewritten_db_renewed:
  assumes "rotation_ok R k" and "list_all is_str (db_texts R db)" and "all_decryptable (ro_ciphers R) (ro_ring R) (db_texts R db)"
  shows "list_all2 (renewed R k) (db_texts R db) (db_texts R (rewritten_db R db))"
proof -
  have str: "\<forall>t\<in>set (kd_targets db). list_all is_str (target_texts R t)"
    "\<forall>r\<in>set (kd_keys db). list_all is_str (key_texts (kk_secret_key r))"
    "\<forall>r\<in>set (kd_backends db). list_all is_str (auth_texts (sb_auth r))"
    "is_str (ssh_host_key_ed25519 (kd_params db))" "is_str (ssh_host_key_rsa (kd_params db))"
    using assms(2) by (auto simp: db_texts_def list_all_iff)
  let ?ok = "all_decryptable (ro_ciphers R) (ro_ring R)"
  have dec: "\<forall>t\<in>set (kd_targets db). ?ok (target_texts R t)" "\<forall>r\<in>set (kd_keys db). ?ok (key_texts (kk_secret_key r))"
    "\<forall>r\<in>set (kd_backends db). ?ok (auth_texts (sb_auth r))"
    "?ok [ssh_host_key_ed25519 (kd_params db)]" "?ok [ssh_host_key_rsa (kd_params db)]"
    using assms(3) all_decryptable_append(1) [of "ro_ciphers R" "ro_ring R" "[ssh_host_key_ed25519 (kd_params db)]" "[ssh_host_key_rsa (kd_params db)]"]
    by (simp_all add: db_texts_def)
  have "list_all2 (renewed R k) (concat (map (target_texts R) (kd_targets db)))
      (concat (map (target_texts R) (map (updated (target_update R)) (kd_targets db))))"
    using str(1) dec(1) by (intro list_all2_concat_map target_renewed [OF assms(1)]) auto
  moreover have "list_all2 (renewed R k) (concat (map (\<lambda>r. key_texts (kk_secret_key r)) (kd_keys db)))
      (concat (map (\<lambda>r. key_texts (kk_secret_key r)) (map (updated (key_update R)) (kd_keys db))))"
    using str(2) dec(2) by (intro list_all2_concat_map key_renewed [OF assms(1)]) auto
  moreover have "list_all2 (renewed R k) (concat (map (\<lambda>r. auth_texts (sb_auth r)) (kd_backends db)))
      (concat (map (\<lambda>r. auth_texts (sb_auth r)) (map (updated (backend_update R)) (kd_backends db))))"
    using str(3) dec(3) by (intro list_all2_concat_map backend_renewed [OF assms(1)]) auto
  ultimately show ?thesis
    using host_key_renewed [OF assms(1) str(4) dec(4), of Of_Host_Ed25519] host_key_renewed [OF assms(1) str(5) dec(5), of Of_Host_Rsa]
    by (simp add: db_texts_def rewritten_db_def rewritten_params_def list_all2_appendI)
qed

text \<open>A node that may put its key.\<close>

definition may_advance :: "rotation \<Rightarrow> key_db \<Rightarrow> bool" where
  "may_advance R db \<longleftrightarrow>
     (case encryption_key_fp (kd_params db) of None \<Rightarrow> True | Some fp \<Rightarrow> keyring_contains (ro_ring R) fp)"

definition advanced_params :: "string \<Rightarrow> parameters_row \<Rightarrow> parameters_row" where
  "advanced_params own p =
     (if encryption_key_fp p = Some own then p
      else p\<lparr> encryption_key_fp := Some own, retiring_key_fp := encryption_key_fp p \<rparr>)"

lemma run_advance:
  assumes "own_fingerprint R = Some own"
  shows "run (advance_key_state R (Suc n)) db =
    (if may_advance R db then (db\<lparr> kd_params := advanced_params own (kd_params db) \<rparr>, Some InSync) else (db, Some Behind))"
proof -
  have "keyring_contains (ro_ring R) own"
    using assms by (auto simp: own_fingerprint_def keyring_contains_def keyring_keys_def)
  with assms show ?thesis
    by (auto simp: run_bind cas_key_state_def may_advance_def advanced_params_def split: option.splits)
qed

definition live_nodes :: "key_db \<Rightarrow> node_row list" where
  "live_nodes db = filter (\<lambda>n. kd_clock db - HEARTBEAT_TIMEOUT \<le> nd_last_seen n) (kd_nodes db)"

lemma run_alive_nodes [simp]: "run alive_nodes db = (db, live_nodes db)"
  by (simp add: alive_nodes_def run_bind live_nodes_def)

text \<open>The probe finds nothing exactly when every text can be read.\<close>

lemma run_probe:
  "fst (run (probe_undecryptable R) db) = db"
  "snd (run (probe_undecryptable R) db) = [] \<longleftrightarrow> all_decryptable (ro_ciphers R) (ro_ring R) (db_texts R db)"
proof -
  have "all_decryptable C ring [a, b] \<longleftrightarrow> all_decryptable C ring [a] \<and> all_decryptable C ring [b]" for C ring a b
    by (simp add: all_decryptable_def)
  moreover have "(case parsed_options R t of None \<Rightarrow> False | Some opts \<Rightarrow> \<not> options_all_decryptable (ro_ciphers R) (ro_ring R) opts)
      \<longleftrightarrow> \<not> all_decryptable (ro_ciphers R) (ro_ring R) (target_texts R t)" for t
    by (simp add: target_texts_def options_all_decryptable_def all_decryptable_def split: option.split)
  ultimately show "snd (run (probe_undecryptable R) db) = [] \<longleftrightarrow> all_decryptable (ro_ciphers R) (ro_ring R) (db_texts R db)"
    by (auto simp: probe_undecryptable_def run_bind Let_def db_texts_def filter_empty_conv)
qed (simp add: probe_undecryptable_def run_bind Let_def)

lemma run_backfill:
  assumes "own_fingerprint R = Some own" and "keyed db"
  shows "run (backfill_credential_encryption R (Suc n)) db =
    (let db1 = db\<lparr> kd_params := advanced_params own (kd_params db) \<rparr>; db2 = rewritten_db R db1
     in if \<not> may_advance R db then (db, Some Settled)
        else if list_ex (\<lambda>n. nd_encryption_key_fingerprint n \<noteq> Some own) (live_nodes db) then (db1, Some AwaitingCluster)
        else if all_decryptable (ro_ciphers R) (ro_ring R) (db_texts R db)
        then (db2\<lparr> kd_params := (kd_params db2)\<lparr> retiring_key_fp := None \<rparr> \<rparr>, Some Settled)
        else (db2, Some Settled))"
proof (cases "may_advance R db")
  case False
  then show ?thesis
    using run_probe(1) [of R db] by (auto simp: backfill_credential_encryption_def run_bind run_advance [OF assms(1)] simp del: advance_key_state.simps split: prod.split)
next
  case True
  define db1 where "db1 = db\<lparr> kd_params := advanced_params own (kd_params db) \<rparr>"
  have db1: "keyed db1" "live_nodes db1 = live_nodes db" "db_texts R db1 = db_texts R db"
    using assms(2) by (simp_all add: db1_def keyed_def live_nodes_def db_texts_def advanced_params_def)
  obtain und where und: "run (probe_undecryptable R) db1 = (db1, und)"
    and none: "und = [] \<longleftrightarrow> all_decryptable (ro_ciphers R) (ro_ring R) (db_texts R db)"
    using run_probe [of R db1] db1(3) by (metis prod.collapse)
  obtain m where rew: "run (rewrite_all R) db1 = (rewritten_db R db1, m)"
    using run_rewrite_all [OF db1(1), of R] by (metis prod.collapse)
  have key: "encryption_key_fp (kd_params (rewritten_db R db1)) = Some own"
    by (simp add: rewritten_db_def rewritten_params_def db1_def advanced_params_def)
  have clear: "run (clear_retiring_key own) (rewritten_db R db1)
      = ((rewritten_db R db1)\<lparr> kd_params := (kd_params (rewritten_db R db1))\<lparr> retiring_key_fp := None \<rparr> \<rparr>, ())"
    using key by (simp add: clear_retiring_key_def)
  show ?thesis
    using True und none rew clear
    by (simp add: backfill_credential_encryption_def run_bind run_advance [OF assms(1)] assms(1) db1_def [symmetric]
        db1(2) Let_def filter_empty_conv list_ex_iff del: advance_key_state.simps split: prod.split)
qed

text \<open>
  C27: While a live node of the cluster does not have the current key, no stored credential is
  rewritten: the pass may only move the key state, and asks to be run again later unless the node itself
  is behind.
\<close>

theorem backfill_waits_for_the_cluster:
  assumes "own_fingerprint R = Some own" and "keyed db"
    and "\<exists>n\<in>set (live_nodes db). nd_encryption_key_fingerprint n \<noteq> Some own"
    and "run (backfill_credential_encryption R (Suc rounds)) db = (db', outcome)"
  shows "kd_targets db' = kd_targets db \<and> kd_keys db' = kd_keys db \<and> kd_backends db' = kd_backends db
    \<and> ssh_host_key_ed25519 (kd_params db') = ssh_host_key_ed25519 (kd_params db)
    \<and> ssh_host_key_rsa (kd_params db') = ssh_host_key_rsa (kd_params db)
    \<and> outcome = Some (if may_advance R db then AwaitingCluster else Settled)"
  using assms(3,4) run_backfill [OF assms(1,2), of rounds]
  by (auto simp: Let_def list_ex_iff advanced_params_def split: if_splits)


section \<open>An edit during the rewriting\<close>

definition edit_target :: "uuid \<Rightarrow> string \<Rightarrow> key_db \<Rightarrow> key_db" where
  "edit_target i options db = db\<lparr> kd_targets := update_many (\<lambda>r. tr_id r = i) (\<lambda>r. r\<lparr> tr_options := options \<rparr>) (kd_targets db) \<rparr>"

lemma run_in_rewrite_host_keys:
  "run_in (rewrite_host_keys R) [] db = (envs, trace, db', n) \<Longrightarrow> kd_targets db' = kd_targets db"
  by (auto simp: rewrite_host_keys_def query_def statement_def Let_def split: if_splits)

text \<open>
  C29: An administrator's edit of a target that falls between the pass reading the targets and
  writing that target is lost: the row ends with the re-encrypted options as they were before the
  edit, whatever the edit stored.
\<close>

theorem rewriting_overwrites_an_edit:
  assumes "kd_targets db = [row]" and "kd_keys db = []" and "kd_backends db = []"
    and "parsed_options R row = Some opts"
    and "options_reencrypt_all (ro_ciphers R) [ro_nonce R (Of_Target (tr_id row))] (ro_ring R) opts = (opts', Inr True)"
    and "run_in (rewrite_all R) [\<lambda>db. db, edit_target (tr_id row) new_options] db = (envs', trace, db', n)"
  shows "kd_targets db' = [row\<lparr> tr_options := ro_to_value R opts' \<rparr>]"
proof -
  have body: "rewrite_target R row = update_unless_deleted kd_targets (\<lambda>rows db. db\<lparr> kd_targets := rows \<rparr>) tr_id (tr_id row)
      (\<lambda>r. r\<lparr> tr_options := ro_to_value R opts' \<rparr>)"
    using assms(4,5) by (simp add: rewrite_target_def)
  show ?thesis
    using assms(1-3,6)
    by (auto simp: rewrite_all_def body update_unless_deleted_def query_def statement_def Let_def run_in_bind edit_target_def
        dest!: run_in_rewrite_host_keys split: prod.splits)
qed

section \<open>A concrete cluster\<close>

text \<open>
  One VNC target whose password is an envelope of the retired key. The stored options are
  represented by the text of the credential.
\<close>

definition vnc_of :: "maybe_secret_ref \<Rightarrow> target_config_options" where
  "vnc_of s = VncOptions \<lparr> vnc_host = ''h'', vnc_port = 5900, vnc_auth = VncPassword s \<rparr>"

definition sample_row :: target_row where
  "sample_row = \<lparr> tr_id = 1, tr_name = ''desk'', tr_options = sample_old \<rparr>"

definition sample_rotation :: rotation where
  "sample_rotation = \<lparr> ro_ciphers = sample_ciphers, ro_ring = sample_ring,
     ro_from_value = (\<lambda>s. Some (vnc_of (from_stored s))),
     ro_to_value = (\<lambda>opts. case fst (secrets_mut opts) of [] \<Rightarrow> [] | s # _ \<Rightarrow> as_string s),
     ro_nonce = (\<lambda>_. sample_nonce) \<rparr>"

definition sample_key_db :: "node_row list \<Rightarrow> key_db" where
  "sample_key_db nodes = \<lparr> kd_targets = [sample_row], kd_keys = [], kd_backends = [],
     kd_params = \<lparr> encryption_key_fp = Some ''bbbbbbbb'', retiring_key_fp = None, ssh_host_key_ed25519 = ''ed'', ssh_host_key_rsa = ''rsa'' \<rparr>,
     kd_nodes = nodes, kd_clock = 0 \<rparr>"

lemma sample_own: "own_fingerprint sample_rotation = Some ''aaaaaaaa''"
  by (simp add: own_fingerprint_def sample_rotation_def sample_ring_def sample_fingerprints)

lemma sample_known: "keyring_contains (ro_ring sample_rotation) ''bbbbbbbb''"
  by (simp add: keyring_contains_def sample_rotation_def sample_ring_def sample_fingerprints)

lemma sample_keyed: "keyed (sample_key_db nodes)"
  by (simp add: keyed_def sample_key_db_def unique_keys_def)

lemma sample_may_advance: "may_advance sample_rotation (sample_key_db nodes)"
  using sample_known by (simp add: may_advance_def sample_key_db_def)

definition sample_straggler :: node_row where
  "sample_straggler = \<lparr> nd_id = 2, nd_last_seen = 0, nd_encryption_key_fingerprint = Some ''bbbbbbbb'' \<rparr>"

lemma sample_straggler_live: "live_nodes (sample_key_db [sample_straggler]) = [sample_straggler]"
  by (simp add: live_nodes_def sample_key_db_def sample_straggler_def HEARTBEAT_TIMEOUT_def)

lemma sample_waits:
  "run (backfill_credential_encryption sample_rotation (Suc 0)) (sample_key_db [sample_straggler])
   = ((sample_key_db [sample_straggler])\<lparr> kd_params := advanced_params ''aaaaaaaa'' (kd_params (sample_key_db [sample_straggler])) \<rparr>,
      Some AwaitingCluster)"
  using run_backfill [OF sample_own sample_keyed, of 0 "[sample_straggler]"]
  by (simp add: Let_def sample_may_advance sample_straggler_live) (simp add: sample_straggler_def)

theorem backfill_waits_for_the_cluster_witness:
  "\<exists>db' outcome. run (backfill_credential_encryption sample_rotation (Suc 0)) (sample_key_db [sample_straggler]) = (db', outcome)
     \<and> kd_targets db' = [sample_row] \<and> outcome = Some AwaitingCluster"
proof -
  have "\<exists>n\<in>set (live_nodes (sample_key_db [sample_straggler])). nd_encryption_key_fingerprint n \<noteq> Some ''aaaaaaaa''"
    by (simp add: sample_straggler_live) (simp add: sample_straggler_def)
  from backfill_waits_for_the_cluster [OF sample_own sample_keyed this sample_waits] sample_waits
  show ?thesis by (simp add: sample_may_advance) (simp add: sample_key_db_def)
qed

theorem cluster_key_moves_by_those_who_know_witness:
  "\<exists>ps db'. interleave (map (\<lambda>(R, rounds). backfill_credential_encryption R rounds) [(sample_rotation, 1)],
       sample_key_db [sample_straggler]) (ps, db')
     \<and> key_state db' = (Some ''aaaaaaaa'', Some ''bbbbbbbb'')
     \<and> (key_state_step {sample_rotation})\<^sup>*\<^sup>* (key_state (sample_key_db [sample_straggler])) (key_state db')"
proof -
  define db' where "db' = (sample_key_db [sample_straggler])\<lparr> kd_params := advanced_params ''aaaaaaaa'' (kd_params (sample_key_db [sample_straggler])) \<rparr>"
  have "interleave (map (\<lambda>(R, rounds). backfill_credential_encryption R rounds) [(sample_rotation, 1)], sample_key_db [sample_straggler])
      ([Return (Some AwaitingCluster)], db')"
    using interleave_run [OF interleave.stay sample_waits, of "[]"] by (simp add: db'_def)
  moreover from cluster_key_moves_by_those_who_know [OF this]
  have "(key_state_step {sample_rotation})\<^sup>*\<^sup>* (key_state (sample_key_db [sample_straggler])) (key_state db')" by simp
  moreover have "key_state db' = (Some ''aaaaaaaa'', Some ''bbbbbbbb'')"
    by (simp add: db'_def key_state_def advanced_params_def sample_key_db_def)
  ultimately show ?thesis by blast
qed

theorem key_loop_ends_witness:
  "\<exists>position. snd (snd (snd (run_in (advance_key_state sample_rotation 2) [\<lambda>db. db, edit_target 1 [], \<lambda>db. db] (sample_key_db []))))
     = Some position"
proof -
  obtain envs' trace db' pos where
    r: "run_in (advance_key_state sample_rotation 2) [\<lambda>db. db, edit_target 1 [], \<lambda>db. db] (sample_key_db []) = (envs', trace, db', pos)"
    using prod_cases4 by blast
  have "length [\<lambda>db. db, edit_target 1 [], \<lambda>db. db] div 2 < 2" by simp
  from key_loop_ends [OF this r] r show ?thesis by simp
qed

lemma sample_old_inline: "from_stored sample_old = Inline sample_old"
  by (simp add: from_stored_cases starts_with_def sample_old_def KEY_PREFIX_def REFERENCE_SCHEME_def)

lemma vnc_of_slots [simp]: "secrets_mut (vnc_of s) = ([s], \<lambda>ss. vnc_of (hd ss))"
  by (simp add: vnc_of_def secrets_mut_def slots_of_def vnc_secrets_mut_def)

lemma sample_rotation_ok: "rotation_ok sample_rotation (sample_key CHR ''A'')"
proof -
  have "ring_ok sample_ciphers sample_ring" using parse_env_keyring_ok [OF sample_ring_parsed] .
  moreover have "seal sample_ciphers (mk_key (sample_key CHR ''A'')) n p \<noteq> None" for n p by (simp add: sample_ciphers_def)
  moreover have "kr_primary sample_ring = Some (sample_key CHR ''A'')" by (simp add: sample_ring_def)
  ultimately show ?thesis
    using sample_ciphers_ok sample_nonce_length by (auto simp: rotation_ok_def sample_rotation_def length_Suc_conv)
qed

lemma sample_texts: "db_texts sample_rotation (sample_key_db nodes) = [sample_old, ''ed'', ''rsa'']"
proof -
  have "stored_secrets_mut (vnc_of (Inline sample_old)) = ([sample_old], \<lambda>vs. vnc_of (Inline (hd vs)))"
    using stored_secrets_text [of "vnc_of (Inline sample_old)" "Inline sample_old" sample_old] by (simp add: demalform_def)
  then show ?thesis
    by (simp add: db_texts_def sample_key_db_def target_texts_def parsed_options_def sample_rotation_def sample_row_def sample_old_inline)
qed

lemma sample_readable: "all_decryptable (ro_ciphers sample_rotation) (ro_ring sample_rotation) [sample_old, ''ed'', ''rsa'']"
proof -
  have "reveal sample_ciphers sample_ring s = Inr s" if "s \<in> {''ed'', ''rsa''}" for s
    using that by (auto simp: reveal_def keyring_decrypt_def envelope_parts_def strip_prefix_def KEY_PREFIX_def)
  then show ?thesis using sample_old_readable by (simp add: all_decryptable_def sample_rotation_def)
qed


theorem rewriting_overwrites_an_edit_witness:
  "\<exists>envs' trace db' n v'. run_in (rewrite_all sample_rotation) [\<lambda>db. db, edit_target 1 ''new''] (sample_key_db []) = (envs', trace, db', n)
     \<and> kd_targets db' = [sample_row\<lparr> tr_options := v' \<rparr>] \<and> reveal sample_ciphers sample_ring v' = Inr ''pw'' \<and> v' \<noteq> ''new''"
proof -
  obtain envs' trace db' n where
    r: "run_in (rewrite_all sample_rotation) [\<lambda>db. db, edit_target (tr_id sample_row) ''new''] (sample_key_db []) = (envs', trace, db', n)"
    using prod_cases4 by blast
  obtain v' where v': "maybe_reencrypt sample_ciphers sample_nonce sample_ring sample_old = Inr (v', True)"
    using sample_rotates ..
  have keep: "reveal sample_ciphers sample_ring v' = Inr ''pw''" "is_envelope sample_ciphers v'"
    using maybe_reencrypt_keeps [OF sample_ciphers_ok parse_env_keyring_ok [OF sample_ring_parsed] _ sample_nonce_length sample_old_str
        sample_old_readable v', of "sample_key CHR ''A''" sample_nonce]
    by (auto simp: sample_ring_def is_envelope_def)
  have "v' \<noteq> ''new''" using keep(2) by (auto simp: is_envelope_def envelope_parts_def strip_prefix_def KEY_PREFIX_def)
  have parsed: "parsed_options sample_rotation sample_row = Some (vnc_of (Inline sample_old))"
    by (simp add: parsed_options_def sample_rotation_def sample_row_def sample_old_inline)
  have "stored_secrets_mut (vnc_of (Inline sample_old)) = ([sample_old], \<lambda>vs. vnc_of (Inline (hd vs)))"
    using stored_secrets_text [of "vnc_of (Inline sample_old)" "Inline sample_old" sample_old] by (simp add: demalform_def)
  then have re: "options_reencrypt_all (ro_ciphers sample_rotation) [ro_nonce sample_rotation (Of_Target (tr_id sample_row))]
      (ro_ring sample_rotation) (vnc_of (Inline sample_old)) = (vnc_of (Inline v'), Inr True)"
    using v' by (simp add: options_reencrypt_all_def sample_rotation_def)
  have "kd_targets db' = [sample_row\<lparr> tr_options := ro_to_value sample_rotation (vnc_of (Inline v')) \<rparr>]"
    by (rule rewriting_overwrites_an_edit [OF _ _ _ parsed re r]) (simp_all add: sample_key_db_def)
  moreover have "ro_to_value sample_rotation (vnc_of (Inline v')) = v'" by (simp add: sample_rotation_def as_string_def)
  ultimately show ?thesis using r keep(1) \<open>v' \<noteq> ''new''\<close> by (auto simp: sample_row_def)
qed

end
