(* ===== verification/Ticket_Requests.thy ===== *)
theory Ticket_Requests
  imports Tickets Texts "HOL-Library.Multiset"
begin

text \<open>
  Self-service tickets (\<open>warpgate-core/src/ticket_requests.rs\<close>): a user asks for a ticket to a target, an
  administrator approves or denies, and the user activates an approved request, which mints the ticket. Each
  operation is a program of statements; a transaction is one statement. The lemmas show
  that no request ever yields two tickets however the operations interleave, what a ticket minted without an administrator
  needs, and that its life and uses are capped; and that two decisions on one request
  at the same time can overwrite each other.
\<close>

section \<open>Tables\<close>

datatype ticket_request_status = TicketRequest_Pending | TicketRequest_Approved | TicketRequest_Denied

record ticket_request_row =
  tq_id :: uuid
  tq_user_id :: uuid
  tq_target_id :: uuid
  tq_requested_duration_seconds :: "int option"
  tq_description :: string
  tq_status :: ticket_request_status
  tq_resolved_by_user_id :: "uuid option"
  tq_ticket_id :: "uuid option"
  tq_created :: timestamp
  tq_resolved_at :: "timestamp option"
  tq_deny_reason :: "string option"

text \<open>The parameters of self-service tickets.\<close>

record ticket_policy =
  ticket_self_service_enabled :: bool
  ticket_request_show_all_targets :: bool
  ticket_require_description :: bool
  ticket_auto_approve_existing_access :: bool
  ticket_max_duration_seconds :: "int option"
  ticket_max_uses :: "int option"

datatype ticket_audit = TicketCreated uuid uuid string string

record 'o self_service_db = ticket_db +
  ss_requests :: "ticket_request_row list"
  ss_targets :: "'o target list"
  ss_users :: "(uuid \<times> string) list"
  ss_user_roles :: "user_role_row list"
  ss_target_roles :: "target_role_row list"
  ss_policy :: ticket_policy
  ss_audit :: "ticket_audit list"

text \<open>The random values an operation draws: the ids of the new rows and the secret.\<close>

record drawn =
  dr_ticket_id :: uuid
  dr_request_id :: uuid
  dr_secret :: string

section \<open>Minting\<close>

definition audit_self_service_ticket :: "uuid \<Rightarrow> uuid \<Rightarrow> string \<Rightarrow> string \<Rightarrow> ('o self_service_db, unit) prog" where
  "audit_self_service_ticket ticket_id uid username target =
     statement (\<lambda>s. (s\<lparr> ss_audit := ss_audit s @ [TicketCreated ticket_id uid username target] \<rparr>, ()))"

definition insert_self_service_ticket ::
  "env \<Rightarrow> drawn \<Rightarrow> uuid \<Rightarrow> uuid \<Rightarrow> int option \<Rightarrow> int option \<Rightarrow> string \<Rightarrow> 'o self_service_db \<Rightarrow> 'o self_service_db" where
  "insert_self_service_ticket E d uid target_id duration_seconds uses description s =
     s\<lparr> tickets := tickets s @
          [\<lparr> tk_id = dr_ticket_id d, tk_secret_hash = hash_secret E (dr_secret d), tk_user_id = uid,
             tk_description = description, tk_target_id = target_id, tk_uses_left = uses, tk_self_service = True,
             tk_expiry = map_option (\<lambda>secs. clock s + seconds secs) duration_seconds, tk_created = clock s \<rparr>] \<rparr>"

section \<open>Asking for a ticket\<close>

record ticket_request_params =
  tp_user_id :: uuid
  tp_username :: string
  tp_target_name :: string
  tp_duration_seconds :: "int option"
  tp_description :: string

datatype create_ticket_request_error =
    SelfServiceDisabled
  | TicketTargetNotFound
  | RequestsNotAllowed
  | DescriptionRequired
  | DescriptionTooLong
  | DurationNotPositive
  | DurationTooShort
  | DurationTooLong int
  | AlreadyPending

text \<open>The characters of a text: its bytes that do not continue a character.\<close>

definition chars_count :: "string \<Rightarrow> nat" where
  "chars_count s = length (filter (\<lambda>b. \<not> utf8_tail b) (as_bytes s))"

definition or_else :: "'a option \<Rightarrow> 'a option \<Rightarrow> 'a option" where
  "or_else x y = (case x of Some _ \<Rightarrow> x | None \<Rightarrow> y)"

definition effective_duration :: "int option \<Rightarrow> int option \<Rightarrow> create_ticket_request_error + int option" where
  "effective_duration requested max_duration =
     (case requested of
        None \<Rightarrow> Inr max_duration
      | Some duration \<Rightarrow>
          if duration \<le> 0 then Inl DurationNotPositive
          else if duration < 60 then Inl DurationTooShort
          else case max_duration of
            None \<Rightarrow> Inr (Some duration)
          | Some m \<Rightarrow> if m < duration then Inl (DurationTooLong m) else Inr (Some duration))"

text \<open>A new row of a request, for a status and the ticket if one was minted.\<close>

definition new_ticket_request ::
  "drawn \<Rightarrow> ticket_request_params \<Rightarrow> uuid \<Rightarrow> int option \<Rightarrow> bool \<Rightarrow> timestamp \<Rightarrow> ticket_request_row" where
  "new_ticket_request d params target_id duration approved now =
     \<lparr> tq_id = dr_request_id d, tq_user_id = tp_user_id params, tq_target_id = target_id,
       tq_requested_duration_seconds = duration, tq_description = tp_description params,
       tq_status = (if approved then TicketRequest_Approved else TicketRequest_Pending), tq_resolved_by_user_id = None,
       tq_ticket_id = (if approved then Some (dr_ticket_id d) else None), tq_created = now,
       tq_resolved_at = (if approved then Some now else None), tq_deny_reason = None \<rparr>"

definition create_ticket_request ::
  "env \<Rightarrow> drawn \<Rightarrow> ticket_request_params
   \<Rightarrow> ('o self_service_db, create_ticket_request_error + ticket_request_row \<times> string option) prog" where
  "create_ticket_request E d params =
     prog_bind (query ss_policy) (\<lambda>policy.
     if \<not> ticket_self_service_enabled policy then Return (Inl SelfServiceDisabled) else
     prog_bind (query (\<lambda>s. find_by tgt_name (tp_target_name params) (ss_targets s))) (\<lambda>target.
     case target of
       None \<Rightarrow> Return (Inl TicketTargetNotFound)
     | Some target \<Rightarrow>
     prog_bind (query (\<lambda>s. authorize_target_by_id (clock s) (ss_user_roles s) (ss_target_roles s)
                             (tp_user_id params) (tgt_id target))) (\<lambda>has_access.
     if \<not> ticket_request_show_all_targets policy \<and> \<not> has_access then Return (Inl TicketTargetNotFound)
     else if tgt_ticket_requests_disabled target then Return (Inl RequestsNotAllowed)
     else if ticket_require_description policy \<and> trim (tp_description params) = [] then Return (Inl DescriptionRequired)
     else if 2000 < chars_count (tp_description params) then Return (Inl DescriptionTooLong)
     else case effective_duration (tp_duration_seconds params)
                 (or_else (tgt_ticket_max_duration_seconds target) (ticket_max_duration_seconds policy)) of
       Inl e \<Rightarrow> Return (Inl e)
     | Inr duration \<Rightarrow>
     let uses = or_else (tgt_ticket_max_uses target) (ticket_max_uses policy)
     in prog_bind (query (\<lambda>s. rows_affected (\<lambda>r. tq_user_id r = tp_user_id params \<and> tq_target_id r = tgt_id target
                                 \<and> tq_status r = TicketRequest_Pending) (ss_requests s))) (\<lambda>existing_pending.
     if 0 < existing_pending then Return (Inl AlreadyPending)
     else if has_access \<and> ticket_auto_approve_existing_access policy \<and> \<not> tgt_ticket_require_approval target
     then prog_bind
            (statement (\<lambda>s.
               let s = insert_self_service_ticket E d (tp_user_id params) (tgt_id target) duration uses (tp_description params) s;
                   row = new_ticket_request d params (tgt_id target) duration True (clock s)
               in (s\<lparr> ss_requests := ss_requests s @ [row] \<rparr>, row))) (\<lambda>row.
          prog_bind (audit_self_service_ticket (dr_ticket_id d) (tp_user_id params) (tp_username params) (tp_target_name params)) (\<lambda>_.
          Return (Inr (row, Some (dr_secret d)))))
     else prog_bind
            (statement (\<lambda>s.
               let row = new_ticket_request d params (tgt_id target) duration False (clock s)
               in (s\<lparr> ss_requests := ss_requests s @ [row] \<rparr>, row))) (\<lambda>row.
          Return (Inr (row, None)))))))"

section \<open>Decisions of an administrator\<close>

definition find_pending :: "uuid \<Rightarrow> ('o self_service_db, ticket_request_row option) prog" where
  "find_pending request_id =
     query (\<lambda>s. find (\<lambda>r. tq_id r = request_id \<and> tq_status r = TicketRequest_Pending) (ss_requests s))"

text \<open>The update of the row by its id, with the columns set; the row after it, or an error when it is gone.\<close>

definition update_request ::
  "uuid \<Rightarrow> (timestamp \<Rightarrow> ticket_request_row \<Rightarrow> ticket_request_row) \<Rightarrow> ('o self_service_db, ticket_request_row option) prog" where
  "update_request request_id f =
     statement (\<lambda>s.
       (s\<lparr> ss_requests := update_many (\<lambda>r. tq_id r = request_id) (f (clock s)) (ss_requests s) \<rparr>,
        map_option (f (clock s)) (find_by tq_id request_id (ss_requests s))))"

datatype decide_error = RequesterGone | DecidedTargetGone | RequestGone

definition approve_ticket_request ::
  "uuid \<Rightarrow> uuid option \<Rightarrow> ('o self_service_db, decide_error + ticket_request_row option) prog" where
  "approve_ticket_request request_id admin_user_id =
     prog_bind (find_pending request_id) (\<lambda>request.
     case request of
       None \<Rightarrow> Return (Inr None)
     | Some request \<Rightarrow>
     prog_bind (query (\<lambda>s. list_ex (\<lambda>u. fst u = tq_user_id request) (ss_users s))) (\<lambda>user_exists.
     if \<not> user_exists then Return (Inl RequesterGone) else
     prog_bind (query (\<lambda>s. list_ex (\<lambda>t. tgt_id t = tq_target_id request) (ss_targets s))) (\<lambda>target_exists.
     if \<not> target_exists then Return (Inl DecidedTargetGone) else
     prog_bind (update_request request_id (\<lambda>now r. r\<lparr> tq_status := TicketRequest_Approved,
                  tq_resolved_by_user_id := admin_user_id, tq_resolved_at := Some now \<rparr>)) (\<lambda>updated.
     Return (case updated of None \<Rightarrow> Inl RequestGone | Some r \<Rightarrow> Inr (Some r))))))"

text \<open>The first 2000 characters of a text.\<close>

fun take_chars :: "nat \<Rightarrow> bytes \<Rightarrow> bytes" where
  "take_chars n [] = []"
| "take_chars n (b # bs) =
     (if utf8_tail b then b # take_chars n bs else case n of 0 \<Rightarrow> [] | Suc m \<Rightarrow> b # take_chars m bs)"

definition capped_reason :: "string \<Rightarrow> string" where
  "capped_reason r = (if 2000 < chars_count r then of_bytes (take_chars 2000 (as_bytes r)) else r)"

definition deny_ticket_request ::
  "uuid \<Rightarrow> uuid option \<Rightarrow> string option \<Rightarrow> ('o self_service_db, decide_error + ticket_request_row option) prog" where
  "deny_ticket_request request_id admin_user_id reason =
     prog_bind (find_pending request_id) (\<lambda>request.
     case request of
       None \<Rightarrow> Return (Inr None)
     | Some request \<Rightarrow>
     prog_bind (update_request request_id (\<lambda>now r. r\<lparr> tq_status := TicketRequest_Denied,
                  tq_resolved_by_user_id := admin_user_id, tq_resolved_at := Some now,
                  tq_deny_reason := map_option capped_reason reason \<rparr>)) (\<lambda>updated.
     Return (case updated of None \<Rightarrow> Inl RequestGone | Some r \<Rightarrow> Inr (Some r))))"

section \<open>Activating\<close>

datatype activate_error = ActivationNotFound | AlreadyActivated | ActivationTargetGone

record 'o prepared_activation =
  pa_request :: ticket_request_row
  pa_target :: "'o target"
  pa_duration :: "int option"
  pa_max_uses :: "int option"
  pa_username :: string

definition recapped_duration :: "int option \<Rightarrow> int option \<Rightarrow> int option" where
  "recapped_duration requested max_duration =
     (case (requested, max_duration) of
        (Some d, Some m) \<Rightarrow> Some (min d m)
      | (Some d, None) \<Rightarrow> Some d
      | (None, m) \<Rightarrow> m)"

definition prepare_activation ::
  "uuid \<Rightarrow> uuid \<Rightarrow> ('o self_service_db, activate_error + 'o prepared_activation) prog" where
  "prepare_activation request_id uid =
     prog_bind (query (\<lambda>s. find (\<lambda>r. tq_id r = request_id \<and> tq_user_id r = uid
                               \<and> tq_status r = TicketRequest_Approved) (ss_requests s))) (\<lambda>request.
     case request of
       None \<Rightarrow> Return (Inl ActivationNotFound)
     | Some request \<Rightarrow>
     if tq_ticket_id request \<noteq> None then Return (Inl AlreadyActivated) else
     prog_bind (query (\<lambda>s. find_by tgt_id (tq_target_id request) (ss_targets s))) (\<lambda>target.
     case target of
       None \<Rightarrow> Return (Inl ActivationTargetGone)
     | Some target \<Rightarrow>
     prog_bind (query ss_policy) (\<lambda>policy.
     prog_bind (query (\<lambda>s. find_by fst uid (ss_users s))) (\<lambda>user.
     Return (Inr \<lparr> pa_request = request, pa_target = target,
       pa_duration = recapped_duration (tq_requested_duration_seconds request)
         (or_else (tgt_ticket_max_duration_seconds target) (ticket_max_duration_seconds policy)),
       pa_max_uses = or_else (tgt_ticket_max_uses target) (ticket_max_uses policy),
       pa_username = (case user of None \<Rightarrow> [] | Some u \<Rightarrow> snd u) \<rparr>)))))"

text \<open>The condition of the update that claims the request.\<close>

definition claimable :: "ticket_request_row \<Rightarrow> ticket_request_row \<Rightarrow> bool" where
  "claimable request r \<longleftrightarrow>
     tq_id r = tq_id request \<and> tq_user_id r = tq_user_id request \<and> tq_status r = TicketRequest_Approved \<and> tq_ticket_id r = None"

definition claim_and_mint ::
  "env \<Rightarrow> drawn \<Rightarrow> 'o prepared_activation \<Rightarrow> ('o self_service_db, ticket_request_row option) prog" where
  "claim_and_mint E d p =
     statement (\<lambda>s.
       if rows_affected (claimable (pa_request p)) (ss_requests s) \<noteq> 1 then (s, None)
       else let s = insert_self_service_ticket E d (tq_user_id (pa_request p)) (tq_target_id (pa_request p))
                      (pa_duration p) (pa_max_uses p) (tq_description (pa_request p)) s;
                rows = update_many (claimable (pa_request p)) (\<lambda>r. r\<lparr> tq_ticket_id := Some (dr_ticket_id d) \<rparr>) (ss_requests s)
            in (s\<lparr> ss_requests := rows \<rparr>, find_by tq_id (tq_id (pa_request p)) rows))"

definition commit_activation ::
  "env \<Rightarrow> drawn \<Rightarrow> 'o prepared_activation \<Rightarrow> ('o self_service_db, activate_error + ticket_request_row \<times> string) prog" where
  "commit_activation E d p =
     prog_bind (claim_and_mint E d p) (\<lambda>updated.
     case updated of
       None \<Rightarrow>
         prog_bind (query (\<lambda>s. case find_by tq_id (tq_id (pa_request p)) (ss_requests s) of
                                 None \<Rightarrow> False | Some r \<Rightarrow> tq_ticket_id r \<noteq> None)) (\<lambda>activated.
         Return (Inl (if activated then AlreadyActivated else ActivationNotFound)))
     | Some row \<Rightarrow>
         prog_bind (audit_self_service_ticket (dr_ticket_id d) (tq_user_id (pa_request p)) (pa_username p) (tgt_name (pa_target p))) (\<lambda>_.
         Return (Inr (row, dr_secret d))))"

definition activate_ticket_request ::
  "env \<Rightarrow> drawn \<Rightarrow> uuid \<Rightarrow> uuid \<Rightarrow> ('o self_service_db, activate_error + ticket_request_row \<times> string) prog" where
  "activate_ticket_request E d request_id uid =
     prog_bind (prepare_activation request_id uid) (\<lambda>prepared.
     case prepared of
       Inl e \<Rightarrow> Return (Inl e)
     | Inr p \<Rightarrow> commit_activation E d p)"

section \<open>One ticket per request\<close>

definition minted :: "'o self_service_db \<Rightarrow> uuid multiset" where
  "minted s = mset (map tk_id (tickets s))"

definition claims :: "'o self_service_db \<Rightarrow> uuid multiset" where
  "claims s = mset (List.map_filter tq_ticket_id (ss_requests s))"

text \<open>A row later on: the same request, with its ticket if it had one.\<close>

definition request_kept :: "ticket_request_row \<Rightarrow> ticket_request_row \<Rightarrow> bool" where
  "request_kept r r' \<longleftrightarrow>
     tq_id r' = tq_id r \<and> tq_user_id r' = tq_user_id r \<and> tq_target_id r' = tq_target_id r
   \<and> (tq_ticket_id r = None \<or> tq_ticket_id r' = tq_ticket_id r)"

definition self_service_evolves :: "'o self_service_db \<Rightarrow> 'o self_service_db \<Rightarrow> bool" where
  "self_service_evolves s s' \<longleftrightarrow>
     minted s' + claims s = minted s + claims s'
   \<and> (\<exists>kept new. ss_requests s' = kept @ new \<and> list_all2 request_kept (ss_requests s) kept)"

lemma request_kept_refl [simp]: "request_kept r r"
  by (simp add: request_kept_def)

lemma request_kept_trans: "request_kept r r' \<Longrightarrow> request_kept r' r'' \<Longrightarrow> request_kept r r''"
  by (auto simp: request_kept_def)

lemma self_service_evolves_trans:
  assumes "self_service_evolves s t" and "self_service_evolves t u"
  shows "self_service_evolves s u"
proof -
  have st: "minted t + claims s = minted s + claims t" and tu: "minted u + claims t = minted t + claims u"
    using assms by (simp_all add: self_service_evolves_def)
  have "minted u + claims s + claims t = (minted u + claims t) + claims s" by (simp only: ac_simps)
  also have "\<dots> = (minted t + claims u) + claims s" by (simp only: tu)
  also have "\<dots> = (minted t + claims s) + claims u" by (simp only: ac_simps)
  also have "\<dots> = (minted s + claims t) + claims u" by (simp only: st)
  also have "\<dots> = minted s + claims u + claims t" by (simp only: ac_simps)
  finally have count: "minted u + claims s = minted s + claims u" by simp
  obtain k1 n1 k2 n2 where k: "ss_requests t = k1 @ n1" "list_all2 request_kept (ss_requests s) k1"
    "ss_requests u = k2 @ n2" "list_all2 request_kept (ss_requests t) k2"
    using assms by (auto simp: self_service_evolves_def)
  then obtain a b where "k2 = a @ b" "list_all2 request_kept k1 a" by (auto simp: list_all2_append1)
  then have "ss_requests u = a @ b @ n2" "list_all2 request_kept (ss_requests s) a"
    using k list_all2_trans [of request_kept request_kept request_kept "ss_requests s" k1 a] request_kept_trans by auto
  with count show ?thesis unfolding self_service_evolves_def by blast
qed

lemma self_service_evolvesI:
  assumes "ss_requests s' = kept @ new" and "list_all2 request_kept (ss_requests s) kept"
    and "minted s' + claims s = minted s + claims s'"
  shows "self_service_evolves s s'"
  using assms by (auto simp: self_service_evolves_def)

lemma requests_kept_refl [simp]: "list_all2 request_kept rows rows"
  by (rule list_all2_refl) simp

interpretation self_service_evolution: guarantee self_service_evolves
proof
  show "self_service_evolves s s" for s :: "'a self_service_db"
    by (rule self_service_evolvesI [of _ "ss_requests s" "[]"]) simp_all
qed (rule self_service_evolves_trans)

lemma evolves_same:
  "tickets s' = tickets s \<Longrightarrow> ss_requests s' = ss_requests s \<Longrightarrow> self_service_evolves s s'"
  using self_service_evolution.G_refl [of s] by (simp add: self_service_evolves_def minted_def claims_def)

text \<open>Claiming one request adds one claim.\<close>

lemma map_filter_update:
  assumes "\<And>r. P r \<Longrightarrow> g r = None" and "\<And>r. P r \<Longrightarrow> g (f r) = Some t"
  shows "mset (List.map_filter g (update_many P f rows)) = mset (List.map_filter g rows) + replicate_mset (rows_affected P rows) t"
  using assms
proof (induction rows)
  case (Cons r rows)
  then show ?case by (cases "g r") (auto simp: map_filter_simps rows_affected_def)
qed (simp add: map_filter_simps rows_affected_def)

lemma claim_obeys: "obeys self_service_evolves (claim_and_mint E d p)"
proof -
  let ?P = "claimable (pa_request p)" and ?f = "\<lambda>r. r\<lparr> tq_ticket_id := Some (dr_ticket_id d) \<rparr>"
  have "self_service_evolves s s'"
    if one: "rows_affected ?P (ss_requests s) = 1"
      and s': "ss_requests s' = update_many ?P ?f (ss_requests s)" "map tk_id (tickets s') = map tk_id (tickets s) @ [dr_ticket_id d]"
    for s s' :: "'a self_service_db"
  proof -
    have "mset (List.map_filter tq_ticket_id (update_many ?P ?f (ss_requests s)))
        = mset (List.map_filter tq_ticket_id (ss_requests s)) + replicate_mset 1 (dr_ticket_id d)"
      using map_filter_update [of ?P tq_ticket_id ?f "dr_ticket_id d" "ss_requests s"] one by (simp add: claimable_def)
    moreover have "list_all2 request_kept (ss_requests s) (update_many ?P ?f (ss_requests s))"
      by (auto simp: update_many_def list.rel_map claimable_def request_kept_def intro!: list.rel_refl_strong)
    moreover have "minted s' = minted s + {#dr_ticket_id d#}" unfolding minted_def s'(2) by simp
    ultimately show ?thesis
      by (intro self_service_evolvesI [of _ "update_many ?P ?f (ss_requests s)" "[]"]) (simp_all add: claims_def s'(1))
  qed
  then show ?thesis
    unfolding claim_and_mint_def
    by (intro obeys_statement) (auto simp: Let_def insert_self_service_ticket_def self_service_evolution.G_refl)
qed

lemma update_request_obeys:
  assumes "\<And>now r. request_kept r (f now r) \<and> tq_ticket_id (f now r) = tq_ticket_id r"
  shows "obeys self_service_evolves (update_request request_id f)"
proof -
  have ids: "List.map_filter tq_ticket_id (update_many P (f now) rows) = List.map_filter tq_ticket_id rows" for P now rows
    using assms by (induction rows) (simp_all add: map_filter_simps split: option.split)
  have kept: "list_all2 request_kept rows (update_many P (f now) rows)" for P now rows
    using assms by (auto simp: update_many_def list.rel_map intro!: list.rel_refl_strong)
  have "self_service_evolves s (s\<lparr> ss_requests := update_many P (f now) (ss_requests s) \<rparr>)"
    for s :: "'a self_service_db" and P now
    by (rule self_service_evolvesI [of _ "update_many P (f now) (ss_requests s)" "[]"])
      (simp_all add: kept ids minted_def claims_def)
  then show ?thesis
    unfolding update_request_def by (intro obeys_statement) simp
qed

lemma audit_obeys: "obeys self_service_evolves (audit_self_service_ticket a b c t)"
  unfolding audit_self_service_ticket_def by (intro obeys_statement evolves_same) simp_all

lemma pending_obeys:
  "obeys self_service_evolves (statement (\<lambda>s :: 'o self_service_db.
     let row = new_ticket_request d params t dur False (clock s) in (s\<lparr> ss_requests := ss_requests s @ [row] \<rparr>, row)))"
proof (intro obeys_statement)
  show "self_service_evolves s (fst (let row = new_ticket_request d params t dur False (clock s)
      in (s\<lparr> ss_requests := ss_requests s @ [row] \<rparr>, row)))" for s :: "'o self_service_db"
    by (rule self_service_evolvesI [of _ "ss_requests s" "[new_ticket_request d params t dur False (clock s)]"])
      (simp_all add: Let_def minted_def claims_def map_filter_def new_ticket_request_def)
qed

lemma auto_approve_obeys:
  "obeys self_service_evolves (statement (\<lambda>s :: 'o self_service_db.
     let s = insert_self_service_ticket E d uid t dur uses desc s; row = new_ticket_request d params t dur True (clock s)
     in (s\<lparr> ss_requests := ss_requests s @ [row] \<rparr>, row)))"
proof (intro obeys_statement)
  show "self_service_evolves s (fst (let s = insert_self_service_ticket E d uid t dur uses desc s;
        row = new_ticket_request d params t dur True (clock s) in (s\<lparr> ss_requests := ss_requests s @ [row] \<rparr>, row)))"
    for s :: "'o self_service_db"
    by (rule self_service_evolvesI [of _ "ss_requests s" "[new_ticket_request d params t dur True (clock s)]"])
      (simp_all add: Let_def minted_def claims_def map_filter_def new_ticket_request_def insert_self_service_ticket_def)
qed

lemma create_obeys: "obeys self_service_evolves (create_ticket_request E d params)"
  unfolding create_ticket_request_def Let_def [of "or_else _ _"]
  by (intro obeys_bind obeys_if obeys_case_option obeys_case_sum obeys_Return pending_obeys auto_approve_obeys
      self_service_evolution.obeys_query audit_obeys)

lemma approve_obeys: "obeys self_service_evolves (approve_ticket_request request_id admin)"
  unfolding approve_ticket_request_def find_pending_def
  by (intro obeys_bind obeys_if obeys_case_option obeys_Return update_request_obeys self_service_evolution.obeys_query)
    (simp add: request_kept_def)

lemma deny_obeys: "obeys self_service_evolves (deny_ticket_request request_id admin reason)"
  unfolding deny_ticket_request_def find_pending_def
  by (intro obeys_bind obeys_case_option obeys_Return update_request_obeys self_service_evolution.obeys_query)
    (simp add: request_kept_def)

lemma activate_obeys: "obeys self_service_evolves (activate_ticket_request E d request_id uid)"
  unfolding activate_ticket_request_def prepare_activation_def commit_activation_def
  by (intro obeys_bind obeys_if obeys_case_option obeys_case_sum obeys_Return claim_obeys audit_obeys
      self_service_evolution.obeys_query)

text \<open>An operation on requests, with its result left out.\<close>

datatype request_operation =
    Create_Request drawn ticket_request_params
  | Approve_Request uuid "uuid option"
  | Deny_Request uuid "uuid option" "string option"
  | Activate_Request drawn uuid uuid

definition self_service_program :: "env \<Rightarrow> request_operation \<Rightarrow> ('o self_service_db, unit) prog" where
  "self_service_program E operation =
     (case operation of
        Create_Request d params \<Rightarrow> prog_bind (create_ticket_request E d params) (\<lambda>_. Return ())
      | Approve_Request i admin \<Rightarrow> prog_bind (approve_ticket_request i admin) (\<lambda>_. Return ())
      | Deny_Request i admin reason \<Rightarrow> prog_bind (deny_ticket_request i admin reason) (\<lambda>_. Return ())
      | Activate_Request d i uid \<Rightarrow> prog_bind (activate_ticket_request E d i uid) (\<lambda>_. Return ()))"

lemma self_service_program_obeys: "obeys self_service_evolves (self_service_program E operation)"
  by (auto simp: self_service_program_def intro!: obeys_bind create_obeys approve_obeys deny_obeys activate_obeys
      split: request_operation.split)

text \<open>
  C11: However requesting, approving, denying and activating interleave, the tickets minted are
  exactly the ones recorded on requests, one each: the new ticket ids and the ticket ids newly on requests
  are the same, with multiplicity. A request that has its ticket keeps it, so no request ever
  yields a second ticket, and no ticket is minted without a request that holds it.
\<close>

theorem one_ticket_per_request:
  assumes "interleave (map (self_service_program E) operations, s) (ps, s')"
  shows "mset (map tk_id (tickets s')) + mset (List.map_filter tq_ticket_id (ss_requests s))
      = mset (map tk_id (tickets s)) + mset (List.map_filter tq_ticket_id (ss_requests s'))
    \<and> (\<exists>kept new. ss_requests s' = kept @ new \<and> list_all2 request_kept (ss_requests s) kept)"
proof -
  have "\<forall>p\<in>set (map (self_service_program E) operations). obeys self_service_evolves p"
    by (auto intro: self_service_program_obeys)
  from self_service_evolution.interleave_obeys [OF assms this]
  show ?thesis by (simp add: self_service_evolves_def minted_def claims_def)
qed

section \<open>A ticket without an administrator\<close>

text \<open>What the operation saw when it minted a ticket at once.\<close>

definition auto_approval_justified ::
  "ticket_request_params \<Rightarrow> ticket_request_row \<Rightarrow> 'o self_service_db set \<Rightarrow> bool" where
  "auto_approval_justified params row H \<longleftrightarrow>
     (\<exists>sp\<in>H. \<exists>st\<in>H. \<exists>sa\<in>H. \<exists>target.
        ticket_self_service_enabled (ss_policy sp) \<and> ticket_auto_approve_existing_access (ss_policy sp)
      \<and> find_by tgt_name (tp_target_name params) (ss_targets st) = Some target
      \<and> \<not> tgt_ticket_require_approval target \<and> \<not> tgt_ticket_requests_disabled target
      \<and> authorize_target_by_id (clock sa) (ss_user_roles sa) (ss_target_roles sa) (tp_user_id params) (tgt_id target)
      \<and> tq_user_id row = tp_user_id params \<and> tq_target_id row = tgt_id target
      \<and> (case or_else (tgt_ticket_max_duration_seconds target) (ticket_max_duration_seconds (ss_policy sp)) of
           None \<Rightarrow> True
         | Some m \<Rightarrow> (\<exists>secs \<le> m. tq_requested_duration_seconds row = Some secs)))"

lemma effective_duration_capped:
  "effective_duration requested (Some m) = Inr dur \<Longrightarrow> \<exists>secs \<le> m. dur = Some secs"
  by (auto simp: effective_duration_def split: option.splits if_splits)

lemma justified_mono: "auto_approval_justified params row H \<Longrightarrow> H \<subseteq> H' \<Longrightarrow> auto_approval_justified params row H'"
  unfolding auto_approval_justified_def by blast

lemma wp_create:
  "wp (\<lambda>r H. case r of Inr (row, Some _) \<Rightarrow> auto_approval_justified params row H | _ \<Rightarrow> True) (create_ticket_request E d params) {}"
proof -
  have "auto_approval_justified params row H"
    if "ticket_self_service_enabled (ss_policy sp)" "ticket_auto_approve_existing_access (ss_policy sp)"
      "find_by tgt_name (tp_target_name params) (ss_targets st) = Some target"
      "\<not> tgt_ticket_require_approval target" "\<not> tgt_ticket_requests_disabled target"
      "authorize_target_by_id (clock sa) (ss_user_roles sa) (ss_target_roles sa) (tp_user_id params) (tgt_id target)"
      "effective_duration (tp_duration_seconds params)
         (or_else (tgt_ticket_max_duration_seconds target) (ticket_max_duration_seconds (ss_policy sp))) = Inr dur"
      "row = new_ticket_request d params (tgt_id target) dur True now" "{sp, st, sa} \<subseteq> H"
    for sp st sa :: "'a self_service_db" and target dur row now H
    unfolding auto_approval_justified_def
    by (intro bexI [of _ sp] bexI [of _ st] bexI [of _ sa] exI [of _ target])
      (use that effective_duration_capped in \<open>auto simp: new_ticket_request_def split: option.splits\<close>)
  then show ?thesis
    unfolding create_ticket_request_def Let_def audit_self_service_ticket_def
    by (auto split: option.split sum.split simp: insert_self_service_ticket_def)
qed


section \<open>An activated ticket\<close>

text \<open>A ticket within a cap: an expiry no later than the cap allows, when there is one.\<close>

definition expires_within :: "int option \<Rightarrow> ticket_row \<Rightarrow> bool" where
  "expires_within cap t \<longleftrightarrow>
     (case cap of None \<Rightarrow> True | Some m \<Rightarrow> (\<exists>e. tk_expiry t = Some e \<and> e \<le> tk_created t + seconds m))"

lemma recapped_within:
  assumes "tk_expiry t = map_option (\<lambda>secs. tk_created t + seconds secs) (recapped_duration requested cap)"
  shows "expires_within cap t \<and> expires_within requested t"
  using assms by (auto simp: expires_within_def recapped_duration_def split: option.splits)

text \<open>
  C20: Activating a request mints exactly one ticket, and only for a request of that user that was
  approved and has no ticket yet. The ticket is for the user and the target of the request, opens with the secret handed out,
  lives no longer than was asked for and no longer than the target or the policy now allows, and has the number of uses they
  prescribe.
\<close>

theorem activated_ticket_is_capped:
  fixes s :: "'o self_service_db"
  assumes "run (activate_ticket_request E d request_id uid) s = (s', Inr (row, secret))"
  shows "\<exists>t request target. tickets s' = tickets s @ [t]
    \<and> request \<in> set (ss_requests s) \<and> tq_id request = request_id \<and> tq_user_id request = uid
    \<and> tq_status request = TicketRequest_Approved \<and> tq_ticket_id request = None
    \<and> find_by tgt_id (tq_target_id request) (ss_targets s) = Some target
    \<and> tk_user_id t = uid \<and> tk_target_id t = tgt_id target \<and> tk_secret_hash t = hash_secret E secret \<and> tk_self_service t
    \<and> expires_within (or_else (tgt_ticket_max_duration_seconds target) (ticket_max_duration_seconds (ss_policy s))) t
    \<and> expires_within (tq_requested_duration_seconds request) t
    \<and> tk_uses_left t = or_else (tgt_ticket_max_uses target) (ticket_max_uses (ss_policy s))"
proof -
  let ?P = "\<lambda>r. tq_id r = request_id \<and> tq_user_id r = uid \<and> tq_status r = TicketRequest_Approved"
  obtain request where request: "find ?P (ss_requests s) = Some request"
    using assms by (cases "find ?P (ss_requests s)")
      (auto simp: activate_ticket_request_def prepare_activation_def run_bind)
  have free: "tq_ticket_id request = None"
    using assms request by (auto simp: activate_ticket_request_def prepare_activation_def run_bind split: if_splits)
  obtain target where target: "find_by tgt_id (tq_target_id request) (ss_targets s) = Some target"
    using assms request free by (cases "find_by tgt_id (tq_target_id request) (ss_targets s)")
      (auto simp: activate_ticket_request_def prepare_activation_def run_bind)
  define p where "p = \<lparr> pa_request = request, pa_target = target,
     pa_duration = recapped_duration (tq_requested_duration_seconds request)
       (or_else (tgt_ticket_max_duration_seconds target) (ticket_max_duration_seconds (ss_policy s))),
     pa_max_uses = or_else (tgt_ticket_max_uses target) (ticket_max_uses (ss_policy s)),
     pa_username = (case find_by fst uid (ss_users s) of None \<Rightarrow> [] | Some u \<Rightarrow> snd u) \<rparr>"
  have commit: "run (commit_activation E d p) s = (s', Inr (row, secret))"
    using assms request free target by (simp add: activate_ticket_request_def prepare_activation_def run_bind p_def)
  define t where "t = \<lparr> tk_id = dr_ticket_id d, tk_secret_hash = hash_secret E (dr_secret d), tk_user_id = tq_user_id request,
     tk_description = tq_description request, tk_target_id = tq_target_id request, tk_uses_left = pa_max_uses p, tk_self_service = True,
     tk_expiry = map_option (\<lambda>secs. clock s + seconds secs) (pa_duration p), tk_created = clock s \<rparr>"
  have "tickets s' = tickets s @ [t]" "secret = dr_secret d"
    using commit
    by (auto simp: commit_activation_def run_bind claim_and_mint_def audit_self_service_ticket_def
        insert_self_service_ticket_def Let_def p_def t_def split: if_splits option.splits)
  moreover have "request \<in> set (ss_requests s)" "?P request"
    using request by (auto simp: find_Some_iff nth_mem)
  moreover have "tgt_id target = tq_target_id request" using find_by_SomeD [OF target] by simp
  moreover have "expires_within (or_else (tgt_ticket_max_duration_seconds target) (ticket_max_duration_seconds (ss_policy s))) t
      \<and> expires_within (tq_requested_duration_seconds request) t"
    by (rule recapped_within) (simp add: t_def p_def)
  ultimately show ?thesis
    using free target by (intro exI [of _ t] exI [of _ request] exI [of _ target]) (auto simp: t_def p_def)
qed

section \<open>Two decisions at once\<close>

text \<open>
  C28: A denial can be overwritten by an approval that was under way. The approval reads the request
  while it is pending and later writes the row by its id alone; when an administrator's denial is recorded in between, the
  request still ends approved, under the name of the approving administrator, and can be activated.
\<close>

theorem approval_overwrites_denial:
  fixes s :: "'o self_service_db"
  assumes "unique_keys tq_id (ss_requests s)" and "request \<in> set (ss_requests s)" and "tq_id request = request_id"
    and "tq_status request = TicketRequest_Pending"
    and "list_ex (\<lambda>u. fst u = tq_user_id request) (ss_users s)" and "list_ex (\<lambda>t. tgt_id t = tq_target_id request) (ss_targets s)"
    and "run_in (approve_ticket_request request_id approver)
      [\<lambda>s. s, \<lambda>s. s, \<lambda>s. s, \<lambda>s. fst (run (deny_ticket_request request_id denier reason) s)] s = (envs', trace, s', result)"
  shows "(\<exists>denied. snd (run (deny_ticket_request request_id denier reason) s) = Inr (Some denied) \<and> tq_status denied = TicketRequest_Denied)
    \<and> (\<exists>row. find_by tq_id request_id (ss_requests s') = Some row \<and> result = Inr (Some row)
        \<and> tq_status row = TicketRequest_Approved \<and> tq_resolved_by_user_id row = approver)"
proof -
  let ?P = "\<lambda>r. tq_id r = request_id \<and> tq_status r = TicketRequest_Pending"
  have found: "find_by tq_id request_id (ss_requests s) = Some request"
    using find_by_unique [OF assms(1,2)] assms(3) by simp
  have pending: "find ?P (ss_requests s) = Some request"
    using find_unique_and [OF assms(1), where k = request_id and Q = "\<lambda>r. tq_status r = TicketRequest_Pending"] found assms(4)
    by (simp add: find_by_def)
  define deny where "deny = (\<lambda>r :: ticket_request_row. r\<lparr> tq_status := TicketRequest_Denied, tq_resolved_by_user_id := denier,
     tq_resolved_at := Some (clock s), tq_deny_reason := map_option capped_reason reason \<rparr>)"
  define mid where "mid = s\<lparr> ss_requests := update_many (\<lambda>r. tq_id r = request_id) deny (ss_requests s) \<rparr>"
  have denied: "run (deny_ticket_request request_id denier reason) s = (mid, Inr (Some (deny request)))"
    by (simp add: deny_ticket_request_def find_pending_def run_bind pending update_request_def found mid_def deny_def)
  have mid_found: "find_by tq_id request_id (ss_requests mid) = Some (deny request)"
  proof -
    have "find_by tq_id request_id (update_many (\<lambda>r. tq_id r = request_id) deny rows) = map_option deny (find_by tq_id request_id rows)" for rows
      by (induction rows) (auto simp: deny_def)
    with found show ?thesis by (simp add: mid_def)
  qed
  have again: "find_by tq_id request_id (update_many (\<lambda>r. tq_id r = request_id) f rows) = map_option f (find_by tq_id request_id rows)"
    if "\<And>r. tq_id (f r) = tq_id r" for f rows using that by (induction rows) auto
  show ?thesis
    using assms(5-7)
    by (auto simp: approve_ticket_request_def find_pending_def query_def statement_def update_request_def Let_def pending denied
        mid_found again deny_def)
qed

section \<open>A concrete gateway\<close>

definition sample_ticket_request :: "ticket_request_status \<Rightarrow> ticket_request_row" where
  "sample_ticket_request status =
     \<lparr> tq_id = 70, tq_user_id = user_id sample_user, tq_target_id = 40, tq_requested_duration_seconds = Some 600,
       tq_description = [], tq_status = status, tq_resolved_by_user_id = None, tq_ticket_id = None, tq_created = 0,
       tq_resolved_at = None, tq_deny_reason = None \<rparr>"

definition sample_self_service :: "ticket_request_row list \<Rightarrow> unit self_service_db" where
  "sample_self_service requests =
     \<lparr> clock = 5, tickets = [], ss_requests = requests, ss_targets = [sample_target], ss_users = [(user_id sample_user, ''alice'')],
       ss_user_roles = sample_assignments, ss_target_roles = sample_target_roles,
       ss_policy = \<lparr> ticket_self_service_enabled = True, ticket_request_show_all_targets = False, ticket_require_description = False,
         ticket_auto_approve_existing_access = True, ticket_max_duration_seconds = Some 60, ticket_max_uses = Some 1 \<rparr>,
       ss_audit = [] \<rparr>"

definition sample_drawn :: drawn where
  "sample_drawn = \<lparr> dr_ticket_id = 80, dr_request_id = 81, dr_secret = ''t'' \<rparr>"

definition sample_ticket_params :: ticket_request_params where
  "sample_ticket_params = \<lparr> tp_user_id = user_id sample_user, tp_username = ''alice'', tp_target_name = ''host'',
     tp_duration_seconds = Some 60, tp_description = [] \<rparr>"

definition sample_activated :: ticket_request_row where
  "sample_activated = (sample_ticket_request TicketRequest_Approved)\<lparr> tq_ticket_id := Some 80 \<rparr>"

lemma sample_activation:
  "snd (run (activate_ticket_request sample_env sample_drawn 70 (user_id sample_user))
     (sample_self_service [sample_ticket_request TicketRequest_Approved])) = Inr (sample_activated, ''t'')"
  by (simp add: activate_ticket_request_def prepare_activation_def commit_activation_def claim_and_mint_def run_bind
      audit_self_service_ticket_def insert_self_service_ticket_def Let_def sample_self_service_def sample_ticket_request_def
      sample_target_def rows_affected_def claimable_def sample_drawn_def sample_activated_def)

theorem activated_ticket_is_capped_witness:
  "\<exists>s' t. run (activate_ticket_request sample_env sample_drawn 70 (user_id sample_user))
       (sample_self_service [sample_ticket_request TicketRequest_Approved]) = (s', Inr (sample_activated, ''t''))
     \<and> tickets s' = [t] \<and> expires_within (Some 60) t \<and> tk_uses_left t = Some 1"
proof -
  let ?s = "sample_self_service [sample_ticket_request TicketRequest_Approved]"
  obtain s' where r: "run (activate_ticket_request sample_env sample_drawn 70 (user_id sample_user)) ?s = (s', Inr (sample_activated, ''t''))"
    using sample_activation by (metis prod.collapse)
  have targets: "find_by tgt_id i (ss_targets ?s) = Some target \<Longrightarrow> target = sample_target" for i target
    by (auto simp: sample_self_service_def split: if_splits)
  have caps: "or_else (tgt_ticket_max_duration_seconds sample_target) (ticket_max_duration_seconds (ss_policy ?s)) = Some 60"
    "or_else (tgt_ticket_max_uses sample_target) (ticket_max_uses (ss_policy ?s)) = Some 1" "tickets ?s = []"
    by (simp_all add: sample_self_service_def sample_target_def or_else_def)
  from activated_ticket_is_capped [OF r] obtain t :: ticket_row and request :: ticket_request_row and target :: "unit target" where
    t: "tickets s' = tickets ?s @ [t]" and target: "find_by tgt_id (tq_target_id request) (ss_targets ?s) = Some target"
    and capped: "expires_within (or_else (tgt_ticket_max_duration_seconds target) (ticket_max_duration_seconds (ss_policy ?s))) t"
    "tk_uses_left t = or_else (tgt_ticket_max_uses target) (ticket_max_uses (ss_policy ?s))"
    by blast
  show ?thesis using r t capped unfolding targets [OF target] caps by simp
qed

theorem one_ticket_per_request_witness:
  "\<exists>ps s'. interleave (map (self_service_program sample_env)
       [Activate_Request sample_drawn 70 (user_id sample_user), Activate_Request (sample_drawn\<lparr> dr_ticket_id := 82 \<rparr>) 70 (user_id sample_user)],
       sample_self_service [sample_ticket_request TicketRequest_Approved]) (ps, s')
     \<and> mset (map tk_id (tickets s')) = mset (List.map_filter tq_ticket_id (ss_requests s')) \<and> map tk_id (tickets s') = [80]"
proof -
  let ?s = "sample_self_service [sample_ticket_request TicketRequest_Approved]"
  let ?ops = "[Activate_Request sample_drawn 70 (user_id sample_user),
    Activate_Request (sample_drawn\<lparr> dr_ticket_id := 82 \<rparr>) 70 (user_id sample_user)]"
  obtain s' where r: "run (self_service_program sample_env (hd ?ops)) ?s = (s', ())"
    by (cases "run (self_service_program sample_env (hd ?ops)) ?s") auto
  have pool: "interleave (map (self_service_program sample_env) ?ops, ?s)
      (Return () # [self_service_program sample_env (?ops ! 1)], s')"
    by (rule interleave_run [OF _ r]) (simp add: interleave.stay)
  have s': "map tk_id (tickets s') = [80]"
    using r by (simp add: self_service_program_def activate_ticket_request_def prepare_activation_def commit_activation_def
        claim_and_mint_def run_bind audit_self_service_ticket_def insert_self_service_ticket_def Let_def sample_self_service_def
        sample_ticket_request_def sample_target_def rows_affected_def claimable_def sample_drawn_def) force
  have "List.map_filter tq_ticket_id (ss_requests ?s) = []" "tickets ?s = []"
    by (simp_all add: sample_self_service_def sample_ticket_request_def map_filter_simps)
  with one_ticket_per_request [OF pool] have "mset (map tk_id (tickets s')) = mset (List.map_filter tq_ticket_id (ss_requests s'))" by simp
  with pool s' show ?thesis by (intro exI [of _ s'] exI conjI)
qed

lemma sample_auto_approved:
  "\<exists>row. snd (run (create_ticket_request sample_env sample_drawn sample_ticket_params) (sample_self_service [])) = Inr (row, Some ''t'')"
proof -
  have "authorize_target_by_id 5 sample_assignments sample_target_roles (user_id sample_user) 40" by code_simp
  then show ?thesis
    by (simp add: create_ticket_request_def run_bind sample_self_service_def sample_ticket_params_def sample_target_def Let_def
        effective_duration_def or_else_def rows_affected_def chars_count_def as_bytes_def audit_self_service_ticket_def
        insert_self_service_ticket_def sample_drawn_def)
qed


theorem approval_overwrites_denial_witness:
  "\<exists>envs' trace s' row. run_in (approve_ticket_request 70 (Some 1))
       [\<lambda>s. s, \<lambda>s. s, \<lambda>s. s, \<lambda>s. fst (run (deny_ticket_request 70 (Some 2) None) s)]
       (sample_self_service [sample_ticket_request TicketRequest_Pending]) = (envs', trace, s', Inr (Some row))
     \<and> find_by tq_id 70 (ss_requests s') = Some row \<and> tq_status row = TicketRequest_Approved \<and> tq_resolved_by_user_id row = Some 1"
proof -
  let ?s = "sample_self_service [sample_ticket_request TicketRequest_Pending]"
  obtain envs' trace s' result where r: "run_in (approve_ticket_request 70 (Some 1))
      [\<lambda>s. s, \<lambda>s. s, \<lambda>s. s, \<lambda>s. fst (run (deny_ticket_request 70 (Some 2) None) s)] ?s = (envs', trace, s', result)"
    using prod_cases4 by blast
  have pre: "unique_keys tq_id (ss_requests ?s)" "sample_ticket_request TicketRequest_Pending \<in> set (ss_requests ?s)"
    "tq_id (sample_ticket_request TicketRequest_Pending) = 70"
    "tq_status (sample_ticket_request TicketRequest_Pending) = TicketRequest_Pending"
    "list_ex (\<lambda>u. fst u = tq_user_id (sample_ticket_request TicketRequest_Pending)) (ss_users ?s)"
    "list_ex (\<lambda>t. tgt_id t = tq_target_id (sample_ticket_request TicketRequest_Pending)) (ss_targets ?s)"
    by (simp_all add: sample_self_service_def unique_keys_def sample_ticket_request_def sample_target_def)
  from approval_overwrites_denial [OF pre r] r show ?thesis by auto
qed

end
