(* ===== verification/Spec2Isabelle.thy ===== *)
theory Spec2Isabelle
  imports Step_Up Db_Login Mysql_Session Key_Rotation Ticket_Requests
begin

text \<open>
  Warpgate is a bastion host: users log in to it over several protocols with credentials,
  single sign-on or tickets, and it opens sessions to targets with credentials that it keeps for them. This development
  models the parts of it that decide who gets in, the parts that keep the stored credentials, and the MySQL
  protocol from end to end, and proves what these parts promise.

  \<^bold>\<open>How the program is modelled.\<close> Structures are records, enumerations are datatypes, errors are values of a sum. A text is its UTF-8
  bytes, a time a number of nanoseconds, a UUID a 128-bit word; machine integers keep their width where overflow matters. What
  comes from outside the repository is a parameter: the record \<open>env\<close> of \<open>Prelude\<close> (case mapping, texts of addresses and UUIDs, hashing),
  \<open>ciphers\<close> of \<open>Encryption\<close> (AES-GCM, SHA-256, base64), \<open>crypto\<close> of \<open>Mysql_Session\<close>,
  \<open>vault_server\<close> of \<open>Vault\<close> and \<open>rotation\<close> of \<open>Key_Rotation\<close> (JSON of options, nonces drawn). Where a result relies on them, their documented behaviour is a
  named hypothesis (\<open>ip_text_ok\<close>, \<open>case_maps_agree\<close>, \<open>ciphers_ok\<close>, \<open>rotation_ok\<close>) and a witness shows a concrete
  instance. Random values drawn and readings of the clock are arguments or part of the state. Tables are lists of rows (\<open>Tables\<close>). An
  asynchronous operation is a program of atomic statements (\<open>Programs\<close>): it can be run alone, with any interference before
  each statement, or interleaved with others. One database statement or one transaction is one atomic statement.

  \<^bold>\<open>The theories and the code.\<close>
  \<^item> \<open>Prelude\<close>, \<open>Tables\<close>, \<open>Programs\<close>, \<open>Texts\<close>: shared types, rows of tables, programs with their guarantee and result
    rules, operations of Rust's strings.
  \<^item> \<open>Credentials\<close>, \<open>Auth_Policy\<close>, \<open>Auth_State\<close> (\<open>warpgate-common/src/auth\<close>): credential kinds and canonical encodings, the
    policies built for a user, and \<open>AuthState\<close> with every operation. The lemmas show when a set of
    credentials is accepted, that an accepted attempt is justified by validated credentials, and that step-up needs a fresh approval.
  \<^item> \<open>Login_Cache\<close>, \<open>Login_Protection\<close> (\<open>warpgate-core/src/login_protection\<close>): blocks and lockouts, their cache and the service. The
    cached verdicts refine the tables; two lemmas show where the code does not do what it says.
  \<^item> \<open>Auth_Store\<close> (\<open>auth_state_store.rs\<close>, \<open>auth.rs\<close>): attempts by session, resolving users, submitting through the protection, waiting.
  \<^item> \<open>Authorization\<close>, \<open>Tickets\<close> (\<open>config_providers\<close>, \<open>Ticket.rs\<close>): roles, the authorization queries, SSO role mappings, and
    tickets with their atomic uses. The queries agree with each other; concurrent presenters never overdraw a ticket.
  \<^item> \<open>Approval_Requests\<close>, \<open>Approvals\<close> (\<open>SessionApprovalRequest.rs\<close>, \<open>warpgate-core/src/approvals\<close>): the table of requests, the
    administrator's gate and self-approval. Decisions are final under any interleaving, and the gate opens only for a reason.
  \<^item> \<open>Step_Up\<close> (\<open>step_up.rs\<close>, \<open>warpgate-protocol-ssh/src/server/session.rs\<close>): freshness, the SSH gate and the watch over open connections.
  \<^item> \<open>Ticket_Requests\<close> (\<open>ticket_requests.rs\<close>): self-service tickets: \<open>create_ticket_request\<close>, \<open>approve_ticket_request\<close>,
    \<open>deny_ticket_request\<close>, \<open>activate_ticket_request\<close>. One ticket per request, capped, and justified when no administrator is asked; a
    denial can be overwritten.
  \<^item> \<open>Db_Auth\<close>, \<open>Db_Login\<close> (\<open>db_auth.rs\<close>): the login of the database protocols, which calls all of the
    above. \<open>Db_Login\<close> composes them: whatever else runs, a login that opens a target is justified and answered.
  \<^item> \<open>Wire\<close>, \<open>Mysql_Packets\<close> (\<open>warpgate-database-protocols\<close>), \<open>Mysql_Relay\<close>, \<open>Mysql_Session\<close> (\<open>warpgate-protocol-mysql\<close>): fields and packets with
    their round trips, the relay of responses between different framings, both ends of a session. A client's password is accepted only from a packet received over TLS, what the connection to a
    target sends without TLS is limited to a stated list, and the log of statements is complete.
  \<^item> \<open>Encryption\<close> (\<open>encryption.rs\<close>, \<open>stored_secret.rs\<close>), \<open>Secret_Refs\<close> (\<open>secrets.rs\<close>), \<open>Target_Options\<close> (\<open>config/target.rs\<close>), \<open>Vault\<close>
    (\<open>warpgate-secrets-vault\<close>): envelopes and keys, references to secrets, the credential slots of every kind of target with encrypting and redacting, and
    the Vault client. What is stored is read back, redacted options hold no secret, and requests stay inside the allowed paths.
  \<^item> \<open>Key_Rotation\<close> (\<open>credential_encryption.rs\<close>): the key of the cluster and the rewriting of stored credentials. No credential is
    lost by a pass over a ready cluster; only nodes that know the current key replace it; an edit made meanwhile can be overwritten.

  \<^bold>\<open>Interfaces.\<close> The locales state contracts that several components rely on and are interpreted on the model's own definitions:
  \<open>guarantee\<close> (a relation every statement keeps; for approval requests, attempts, the node and the gateway of a login, the key of the cluster and self-service tickets), \<open>row_update\<close>
  (an update that leaves a key alone), \<open>secret_slots\<close> (references to credential slots, for each kind of target), \<open>vault_request_kind\<close>, \<open>key_table\<close> and others
  beside the components they belong to.

  \<^bold>\<open>Loops and bounds.\<close> Loops over data are structural or have a termination proof (\<open>is_sufficient\<close>, \<open>client_auth_loop\<close>, \<open>session_negotiate\<close>, \<open>trim_front\<close>). A
  loop that waits takes the list of what it will see: readings of a row (\<open>await_row_decision\<close>), events of a channel (\<open>wait_recv\<close>),
  turns of a login (\<open>authorize_user_loop\<close>, whose end is the result \<open>Login_Running\<close>). The swap loop \<open>advance_key_state\<close> takes a number of rounds; \<open>key_loop_ends\<close> shows that
  half the number of interferences plus one is enough.

  \<^bold>\<open>Not modelled.\<close>
  \<^item> Failures of the database, which end an operation with an error, and logging.
  \<^item> \<open>admit_target_session\<close> of the approvals and \<open>run_authorized\<close> of MySQL: they start a session in the protocol's own machinery.
  \<^item> The SSH, HTTP, RDP, VNC, Kubernetes and PostgreSQL protocol crates apart from the step-up gates: they drive sockets, TLS and foreign protocol libraries.
  \<^item> The handlers of the administration API and of the user's web API: each reads a request, calls the database or an operation
    modelled here, and builds a response; their own checks are outside the results.
  \<^item> Revocation of running sessions, the registry of secret backends, recordings, live streams, logging, the membership of the cluster and rate limiting of traffic:
    background tasks and channels between tasks, which no result here relies on.
  \<^item> Single sign-on and LDAP, the certificate authority, TLS and AWS: mostly calls to libraries and services.
  \<^item> Migrations of the database, the web front end, the desktop and terminal clients in the browser, start-up and the command line, and the vendored libraries.
  \<^item> In the Vault client: building the HTTP client, the background renewal with its floating point interval, the health check.
\<close>

end
